(* ===== verification/Prelude.thy ===== *)
theory Prelude
  imports Main "HOL-Library.Word"
begin

text \<open>
  Shared vocabulary of the SecureAPR development: the types that name addresses,
  ciphertext handles and 64-bit encrypted payloads, the contract-level error kinds
  and their result type, the unit constants the clients and the contracts agree on,
  and generic lemmas on results, words and function updates that the component
  theories use through \<open>simp\<close>.
\<close>

named_theorems op_defs "definitions of contract operations, unfolded together"

type_synonym addr = nat
type_synonym handle = nat
type_synonym u64 = "64 word"

text \<open>
  Handle 0 is the ``no encrypted value'' sentinel (the UI's \<open>ZERO_HASH\<close>, the
  tasks' \<open>ethers.ZeroHash\<close>).
\<close>

text \<open>One microETH in wei (\<open>const microUnit = 1_000_000_000_000n\<close>).\<close>

definition micro_unit :: nat where
  "micro_unit = 1000000000000"

text \<open>Failure kinds of the contracts (spec section 7).\<close>

datatype error =
    InvalidAmount
  | Unauthorized
  | AlreadySet
  | NoStake
  | NoPendingWithdrawal
  | WithdrawalAlreadyPending
  | InvalidProof
  | TransferFailed

type_synonym 'a result = "error + 'a"

text \<open>
  Sequencing of fallible steps: the first failure aborts the rest, as a revert does in a
  contract and a thrown exception does in the clients.
\<close>

definition rbind :: "'e + 'a \<Rightarrow> ('a \<Rightarrow> 'e + 'b) \<Rightarrow> 'e + 'b" where
  "rbind r f = (case r of Inl e \<Rightarrow> Inl e | Inr a \<Rightarrow> f a)"

lemma rbind_Inl [simp]: "rbind (Inl e) f = Inl e"
  by (simp add: rbind_def)

lemma rbind_Inr [simp]: "rbind (Inr a) f = f a"
  by (simp add: rbind_def)

lemma rbind_eq_Inr:
  "rbind r f = Inr b \<longleftrightarrow> (\<exists>a. r = Inr a \<and> f a = Inr b)"
  by (cases r) auto

lemma rbind_eq_Inl:
  "rbind r f = Inl e \<longleftrightarrow> r = Inl e \<or> (\<exists>a. r = Inr a \<and> f a = Inl e)"
  by (cases r) auto

subsection \<open>Words\<close>

lemma micro_unit_pos [simp]: "0 < micro_unit"
  by (simp add: micro_unit_def)

lemma unat_of_nat_u64 [simp]:
  "n < 2 ^ 64 \<Longrightarrow> unat (word_of_nat n :: u64) = n"
  by (simp add: unat_of_nat)

lemma unat_add_u64:
  "unat (a :: u64) + unat b < 2 ^ 64 \<Longrightarrow> unat (a + b) = unat a + unat b"
  using unat_add_lem [of a b] by simp

lemma unat_mult_u64:
  "unat (a :: u64) * unat b < 2 ^ 64 \<Longrightarrow> unat (a * b) = unat a * unat b"
  using unat_mult_lem [of a b] by simp

lemma unat_div_u64 [simp]: "unat ((a :: u64) div b) = unat a div unat b"
  by (fact unat_div)

lemma unat_add_le_u64: "unat ((a :: u64) + b) \<le> unat a + unat b"
  by (simp add: unat_word_ariths)

lemma unat_of_nat_le_u64: "unat (word_of_nat n :: u64) \<le> n"
  by (simp add: unat_of_nat)

subsection \<open>Floor division\<close>

text \<open>
  Truncating division is superadditive: splitting an interval never yields more.
  This is the fact behind the compounding sensitivity of the interest accrual.
\<close>

lemma div_add_le: "(a :: nat) div c + b div c \<le> (a + b) div c"
  unfolding div_add1_eq [of a b c] by (rule le_add1)

end
