(* ===== verification/Fhe.thy ===== *)
theory Fhe
  imports Prelude
begin

text \<open>
  The encrypted-integer backend the contracts compute on (the fhEVM coprocessor behind
  \<open>euint64\<close>, spec sections 3, 6 and 9). A ciphertext is an opaque handle; the backend
  keeps, for every handle it has issued, the 64-bit plaintext it encrypts. Every
  homomorphic operation issues a fresh handle for its result and never changes the
  plaintext behind an existing handle. The zero handle is never issued: it is the
  ``no value'' sentinel, and the backend treats it as an encryption of 0, as fhEVM
  treats an uninitialised \<open>euint64\<close>. Arithmetic on \<open>euint64\<close> wraps modulo \<open>2^64\<close>,
  so plaintexts are \<open>u64\<close> words. The access-control list records which handles a
  contract has made publicly decryptable (\<open>FHE.makePubliclyDecryptable\<close>): only those
  are revealed by the off-chain decryption oracle (theory \<open>Verifier\<close>).
\<close>

record fhe =
  fvals :: "(handle \<times> u64) list"
  fnext :: nat
  fpublic :: "handle list"

definition fhe_init :: fhe where
  "fhe_init = \<lparr>fvals = [], fnext = 1, fpublic = []\<rparr>"

text \<open>Decryption: the plaintext behind a handle; 0 for the sentinel and unknown handles.\<close>

definition fhe_dec :: "fhe \<Rightarrow> handle \<Rightarrow> u64" where
  "fhe_dec st h = (case map_of (fvals st) h of None \<Rightarrow> 0 | Some v \<Rightarrow> v)"

definition fhe_new :: "u64 \<Rightarrow> fhe \<Rightarrow> handle \<times> fhe" where
  "fhe_new v st = (fnext st, st\<lparr>fvals := (fnext st, v) # fvals st, fnext := Suc (fnext st)\<rparr>)"

text \<open>\<open>FHE.asEuint64\<close>: trivial encryption of a plaintext.\<close>

definition fhe_asEuint64 :: "u64 \<Rightarrow> fhe \<Rightarrow> handle \<times> fhe" where
  "fhe_asEuint64 v st = fhe_new v st"

text \<open>\<open>FHE.add\<close> of two ciphertexts, wrapping.\<close>

definition fhe_add :: "handle \<Rightarrow> handle \<Rightarrow> fhe \<Rightarrow> handle \<times> fhe" where
  "fhe_add a b st = fhe_new (fhe_dec st a + fhe_dec st b) st"

text \<open>\<open>FHE.mul\<close> of a ciphertext by a plaintext scalar, wrapping.\<close>

definition fhe_mul_scalar :: "handle \<Rightarrow> u64 \<Rightarrow> fhe \<Rightarrow> handle \<times> fhe" where
  "fhe_mul_scalar a k st = fhe_new (fhe_dec st a * k) st"

text \<open>\<open>FHE.div\<close> of a ciphertext by a plaintext scalar, truncating.\<close>

definition fhe_div_scalar :: "handle \<Rightarrow> u64 \<Rightarrow> fhe \<Rightarrow> handle \<times> fhe" where
  "fhe_div_scalar a k st = fhe_new (fhe_dec st a div k) st"

text \<open>\<open>FHE.makePubliclyDecryptable\<close>: allow the oracle to reveal a handle.\<close>

definition fhe_make_public :: "handle \<Rightarrow> fhe \<Rightarrow> fhe" where
  "fhe_make_public h st = st\<lparr>fpublic := h # fpublic st\<rparr>"

text \<open>
  Well-formedness: every issued handle is non-zero and below the next one, and only
  issued handles are public.
\<close>

definition fhe_wf :: "fhe \<Rightarrow> bool" where
  "fhe_wf st \<longleftrightarrow> 0 < fnext st \<and> list_all (\<lambda>(h, _). 0 < h \<and> h < fnext st) (fvals st)
     \<and> list_all (\<lambda>h. 0 < h \<and> h < fnext st) (fpublic st)"

lemmas fhe_ops = fhe_asEuint64_def fhe_add_def fhe_mul_scalar_def fhe_div_scalar_def

subsection \<open>Issuing handles\<close>

lemma fhe_init_wf: "fhe_wf fhe_init"
  by (simp add: fhe_wf_def fhe_init_def)

lemma fhe_new_wf [simp]: "fhe_wf st \<Longrightarrow> fhe_wf (snd (fhe_new v st))"
  by (auto simp: fhe_wf_def fhe_new_def list_all_iff)

lemma fhe_new_public [simp]: "fpublic (snd (fhe_new v st)) = fpublic st"
  by (simp add: fhe_new_def)

lemma fhe_make_public_wf:
  "fhe_wf st \<Longrightarrow> 0 < h \<Longrightarrow> h < fnext st \<Longrightarrow> fhe_wf (fhe_make_public h st)"
  by (simp add: fhe_wf_def fhe_make_public_def)

lemma fhe_make_public_dec [simp]: "fhe_dec (fhe_make_public h st) = fhe_dec st"
  by (simp add: fhe_dec_def fhe_make_public_def fun_eq_iff)

lemma fhe_make_public_public [simp]: "fpublic (fhe_make_public h st) = h # fpublic st"
  by (simp add: fhe_make_public_def)

lemma fhe_make_public_next [simp]: "fnext (fhe_make_public h st) = fnext st"
  by (simp add: fhe_make_public_def)

lemma fhe_new_handle [simp]: "fst (fhe_new v st) = fnext st"
  by (simp add: fhe_new_def)

lemma fhe_new_eq:
  "fhe_new v st = (h, st') \<longleftrightarrow> h = fnext st \<and> st' = snd (fhe_new v st)"
  by (auto simp: fhe_new_def)

lemma fhe_new_next [simp]: "fnext (snd (fhe_new v st)) = Suc (fnext st)"
  by (simp add: fhe_new_def)

lemma fhe_new_nonzero: "fhe_wf st \<Longrightarrow> fst (fhe_new v st) \<noteq> 0"
  by (simp add: fhe_new_def fhe_wf_def)

lemma fhe_dec_new:
  "fhe_dec (snd (fhe_new v st)) h = (if h = fnext st then v else fhe_dec st h)"
  by (simp add: fhe_dec_def fhe_new_def)

lemma fhe_dec_new_self [simp]: "fhe_dec (snd (fhe_new v st)) (fnext st) = v"
  by (simp add: fhe_dec_def fhe_new_def)

text \<open>Handles are immutable: issuing a new one leaves every issued plaintext as it was.\<close>

lemma fhe_dec_new_old [simp]:
  "h < fnext st \<Longrightarrow> fhe_dec (snd (fhe_new v st)) h = fhe_dec st h"
  by (simp add: fhe_dec_new)

lemma fhe_dec_zero [simp]: "fhe_wf st \<Longrightarrow> fhe_dec st 0 = 0"
proof -
  assume "fhe_wf st"
  then have "0 \<notin> fst ` set (fvals st)"
    by (force simp: fhe_wf_def list_all_iff)
  then have "map_of (fvals st) 0 = None"
    by (simp add: map_of_eq_None_iff)
  then show ?thesis by (simp add: fhe_dec_def)
qed

lemma fhe_dec_unissued: "fhe_wf st \<Longrightarrow> fnext st \<le> h \<Longrightarrow> fhe_dec st h = 0"
proof -
  assume "fhe_wf st" "fnext st \<le> h"
  then have "h \<notin> fst ` set (fvals st)"
    by (force simp: fhe_wf_def list_all_iff)
  then have "map_of (fvals st) h = None"
    by (simp add: map_of_eq_None_iff)
  then show ?thesis by (simp add: fhe_dec_def)
qed

subsection \<open>Growth of the backend\<close>

text \<open>
  One backend state extends another when it has issued at least the same handles with
  the same plaintexts. Every operation yields an extension, so whatever an observer
  learnt about an issued handle stays true.
\<close>

definition fhe_extends :: "fhe \<Rightarrow> fhe \<Rightarrow> bool" where
  "fhe_extends st st' \<longleftrightarrow> fnext st \<le> fnext st' \<and> (\<forall>h < fnext st. fhe_dec st' h = fhe_dec st h)"

lemma fhe_extends_refl [simp]: "fhe_extends st st"
  by (simp add: fhe_extends_def)

lemma fhe_extends_trans:
  "fhe_extends s1 s2 \<Longrightarrow> fhe_extends s2 s3 \<Longrightarrow> fhe_extends s1 s3"
  by (auto simp: fhe_extends_def)

lemma fhe_extends_new [simp]: "fhe_extends st (snd (fhe_new v st))"
  by (simp add: fhe_extends_def)

lemma fhe_extends_make_public [simp]: "fhe_extends st (fhe_make_public h st)"
  by (simp add: fhe_extends_def)

lemma fhe_extends_dec:
  "fhe_extends st st' \<Longrightarrow> h < fnext st \<Longrightarrow> fhe_dec st' h = fhe_dec st h"
  by (simp add: fhe_extends_def)

end
