(* ===== verification/Verifier.thy ===== *)
theory Verifier
  imports Fhe
begin

text \<open>
  DecryptionProofVerifier and the off-chain decryption oracle it trusts (spec 4.3 and
  section 6). The oracle (the relayer's \<open>publicDecrypt\<close>, used by the UI's
  \<open>onFinalizeWithdraw\<close> and the \<open>task:secureapr:finalize-withdraw\<close> task) takes
  a list of handles, refuses unless every one was made publicly decryptable, and returns
  the plaintexts with one proof signed by the decryption coordinator over all
  (handle, plaintext) pairs. The verifier holds the coordinator's key and accepts a
  proof for one pair exactly when the coordinator signed that pair alone. Signatures
  are symbolic: \<open>DecryptionProof k pairs\<close> is the coordinator \<open>k\<close>'s signature, and
  unforgeability is the assumption, made in theory \<open>Chain\<close>, that a proof signed with
  the trusted key reaches a contract only as oracle output.
\<close>

datatype dproof = DecryptionProof nat "(handle \<times> u64) list" | Malformed

record decryption =
  clearValues :: "(handle \<times> u64) list"
  decryptionProof :: dproof

text \<open>\<open>verify(handle, clearValue, proof)\<close>: fails closed on anything else.\<close>

definition verify :: "nat \<Rightarrow> handle \<Rightarrow> u64 \<Rightarrow> dproof \<Rightarrow> bool" where
  "verify kms h v p \<longleftrightarrow> p = DecryptionProof kms [(h, v)]"

definition signed_by :: "nat \<Rightarrow> dproof \<Rightarrow> bool" where
  "signed_by kms p \<longleftrightarrow> (case p of DecryptionProof k _ \<Rightarrow> k = kms | Malformed \<Rightarrow> False)"

text \<open>The oracle: \<open>publicDecrypt(handles)\<close>.\<close>

definition publicDecrypt :: "nat \<Rightarrow> fhe \<Rightarrow> handle list \<Rightarrow> decryption option" where
  "publicDecrypt kms st hs =
     (if list_all (\<lambda>h. h \<in> set (fpublic st)) hs
      then let vs = map (\<lambda>h. (h, fhe_dec st h)) hs
           in Some \<lparr>clearValues = vs, decryptionProof = DecryptionProof kms vs\<rparr>
      else None)"

text \<open>\<open>decrypted.clearValues[handle]\<close>.\<close>

definition clear_value :: "decryption \<Rightarrow> handle \<Rightarrow> u64 option" where
  "clear_value d h = map_of (clearValues d) h"

text \<open>
  Unforgeability, as a property of a proof: a proof signed with the trusted key is one
  the oracle issues for the handles it covers. Proofs are otherwise plain values, so
  the clients and the transaction layer state this where they pass a proof on.
\<close>

definition oracle_issued :: "nat \<Rightarrow> fhe \<Rightarrow> dproof \<Rightarrow> bool" where
  "oracle_issued kms st p =
     (case p of
       DecryptionProof k vs \<Rightarrow>
         k = kms \<longrightarrow> publicDecrypt kms st (map fst vs) = Some \<lparr>clearValues = vs, decryptionProof = p\<rparr>
     | Malformed \<Rightarrow> True)"

subsection \<open>Properties of the verifier\<close>

lemma verify_signed: "verify kms h v p \<Longrightarrow> signed_by kms p"
  by (simp add: verify_def signed_by_def)

lemma verify_rejects_malformed [simp]: "\<not> verify kms h v Malformed"
  by (simp add: verify_def)

text \<open>A proof binds one pair: it is never accepted for another handle or another value.\<close>

lemma verify_binding:
  "verify kms h v p \<Longrightarrow> verify kms h' v' p \<Longrightarrow> h' = h \<and> v' = v"
  by (simp add: verify_def)

text \<open>The oracle's proof for one public handle is accepted with the true plaintext.\<close>

lemma publicDecrypt_single:
  "h \<in> set (fpublic st) \<Longrightarrow>
   publicDecrypt kms st [h] =
     Some \<lparr>clearValues = [(h, fhe_dec st h)], decryptionProof = DecryptionProof kms [(h, fhe_dec st h)]\<rparr>"
  by (simp add: publicDecrypt_def Let_def)

lemma publicDecrypt_complete:
  assumes "h \<in> set (fpublic st)"
  shows "\<exists>d. publicDecrypt kms st [h] = Some d \<and> clear_value d h = Some (fhe_dec st h)
           \<and> verify kms h (fhe_dec st h) (decryptionProof d)"
  using assms by (simp add: publicDecrypt_single clear_value_def verify_def)

lemma publicDecrypt_refuses:
  "h \<notin> set (fpublic st) \<Longrightarrow> publicDecrypt kms st [h] = None"
  by (simp add: publicDecrypt_def Let_def)

text \<open>An oracle proof is accepted only with the true plaintext of the one handle it covers.\<close>

lemma publicDecrypt_sound:
  assumes "publicDecrypt kms st hs = Some d" and "verify kms h v (decryptionProof d)"
  shows "hs = [h] \<and> v = fhe_dec st h"
  using assms by (auto simp: publicDecrypt_def verify_def Let_def split: if_splits)

text \<open>Issued handles are immutable, so an oracle proof stays truthful as the backend grows.\<close>

lemma publicDecrypt_sound_later:
  assumes "publicDecrypt kms st hs = Some d" and "verify kms h v (decryptionProof d)"
    and "fhe_wf st" and "fhe_extends st st'"
  shows "v = fhe_dec st' h"
proof -
  from assms(1,2) have hs: "hs = [h]" and v: "v = fhe_dec st h"
    by (auto dest: publicDecrypt_sound)
  from assms(1) hs have "h \<in> set (fpublic st)"
    by (simp add: publicDecrypt_def split: if_splits)
  with assms(3) have "h < fnext st"
    by (auto simp: fhe_wf_def list_all_iff)
  with assms(4) v show ?thesis
    by (simp add: fhe_extends_dec)
qed

lemma oracle_issued_verify:
  assumes "oracle_issued kms st p" and "verify kms h v p"
  shows "v = fhe_dec st h"
  using assms publicDecrypt_sound [of kms st "[h]" _ h v]
  by (auto simp: oracle_issued_def verify_def)

lemma oracle_issued_publicDecrypt:
  "publicDecrypt kms st hs = Some d \<Longrightarrow> oracle_issued kms st (decryptionProof d)"
  by (auto simp: publicDecrypt_def oracle_issued_def Let_def comp_def split: if_splits)

end
