(* ===== verification/Ledger.thy ===== *)
theory Ledger
  imports Fhe
begin

text \<open>
  EncryptedLedger and MinterGate: the confidential reward token \<open>ConfidentialCoin\<close>
  (spec 4.1 and 4.4). Balances are ciphertext handles, 0 for an account never minted to.
  The deployer may set the minter once; afterwards only the minter can mint, and a mint
  adds its ciphertext amount to the balance homomorphically. The contract's source is not
  part of the repository: these definitions follow the spec, and the deploy script
  (\<open>src/deploy/secureapr.ts\<close>) and the test fixture show how they are called.
\<close>

record coin =
  c_owner :: addr
  c_minter :: "addr option"
  c_balances :: "addr \<Rightarrow> handle"

text \<open>The constructor, run by the deployer.\<close>

definition coin_init :: "addr \<Rightarrow> coin" where
  "coin_init deployer = \<lparr>c_owner = deployer, c_minter = None, c_balances = (\<lambda>_. 0)\<rparr>"

definition confidentialBalanceOf :: "coin \<Rightarrow> addr \<Rightarrow> handle" where
  "confidentialBalanceOf c a = c_balances c a"

definition setMinter :: "addr \<Rightarrow> addr \<Rightarrow> coin \<Rightarrow> coin result" where
  "setMinter caller m c =
     (if caller \<noteq> c_owner c then Inl Unauthorized
      else if c_minter c \<noteq> None then Inl AlreadySet
      else Inr (c\<lparr>c_minter := Some m\<rparr>))"

definition mint :: "addr \<Rightarrow> addr \<Rightarrow> handle \<Rightarrow> coin \<Rightarrow> fhe \<Rightarrow> (coin \<times> fhe) result" where
  "mint caller a amt c st =
     (if c_minter c \<noteq> Some caller then Inl Unauthorized
      else case fhe_add (c_balances c a) amt st of
        (h, st') \<Rightarrow> Inr (c\<lparr>c_balances := (c_balances c)(a := h)\<rparr>, st'))"

text \<open>The ledger's entry points as one step function; a reverted call changes nothing.\<close>

datatype coin_call = SetMinter addr | Mint addr handle

fun coin_exec :: "addr \<Rightarrow> coin_call \<Rightarrow> coin \<times> fhe \<Rightarrow> (coin \<times> fhe) result" where
  "coin_exec caller (SetMinter m) (c, st) = rbind (setMinter caller m c) (\<lambda>c'. Inr (c', st))"
| "coin_exec caller (Mint a amt) (c, st) = mint caller a amt c st"

fun coin_run :: "coin \<times> fhe \<Rightarrow> (addr \<times> coin_call) list \<Rightarrow> coin \<times> fhe" where
  "coin_run cs [] = cs"
| "coin_run cs ((caller, x) # xs) =
     coin_run (case coin_exec caller x cs of Inl _ \<Rightarrow> cs | Inr cs' \<Rightarrow> cs') xs"

text \<open>Every balance handle is the sentinel or one the backend has issued.\<close>

definition coin_wf :: "coin \<Rightarrow> fhe \<Rightarrow> bool" where
  "coin_wf c st \<longleftrightarrow> (\<forall>a. c_balances c a < fnext st)"

subsection \<open>Functional behaviour\<close>

lemma setMinter_Inr:
  "setMinter caller m c = Inr c' \<longleftrightarrow>
     caller = c_owner c \<and> c_minter c = None \<and> c' = c\<lparr>c_minter := Some m\<rparr>"
  by (auto simp: setMinter_def)

lemma mint_Inr:
  "mint caller a amt c st = Inr (c', st') \<longleftrightarrow>
     c_minter c = Some caller \<and> st' = snd (fhe_add (c_balances c a) amt st)
     \<and> c' = c\<lparr>c_balances := (c_balances c)(a := fst (fhe_add (c_balances c a) amt st))\<rparr>"
  by (auto simp: mint_def split: prod.splits)

lemma mint_unauthorized: "c_minter c \<noteq> Some caller \<Longrightarrow> mint caller a amt c st = Inl Unauthorized"
  by (simp add: mint_def)

lemma mint_wf:
  "mint caller a amt c st = Inr (c', st') \<Longrightarrow> fhe_wf st \<Longrightarrow> coin_wf c st \<Longrightarrow>
   fhe_wf st' \<and> coin_wf c' st' \<and> fhe_extends st st'"
  by (auto simp: mint_Inr coin_wf_def fhe_add_def less_Suc_eq)

end
