(* ===== verification/Staking.thy ===== *)
theory Staking
  imports Verifier Ledger
begin

text \<open>
  StakingEngine: the \<open>SecureAPRStaking\<close> contract (spec 4.2). Per account it keeps the
  encrypted stake in microETH, the time of the last accrual and at most one pending
  withdrawal handle. Its operations run against the whole on-chain world: the
  encrypted backend, the coin it mints interest into (it is the coin's minter), the ETH
  balances it receives and pays out, the coordinator key its verifier trusts, and the
  block time. The contract's source is not part of the repository: the operations
  follow the spec, and the clients in \<open>src/\<close> (theory \<open>Client\<close>) call them.
\<close>

record staking =
  s_stake :: "addr \<Rightarrow> handle"
  s_last :: "addr \<Rightarrow> nat"
  s_pending :: "addr \<Rightarrow> handle option"

definition staking_init :: staking where
  "staking_init = \<lparr>s_stake = (\<lambda>_. 0), s_last = (\<lambda>_. 0), s_pending = (\<lambda>_. None)\<rparr>"

record world =
  w_fhe :: fhe
  w_coin :: coin
  w_stk :: staking
  w_eth :: "addr \<Rightarrow> nat"
  w_payable :: "addr \<Rightarrow> bool"
  w_kms :: nat
  w_coin_addr :: addr
  w_stk_addr :: addr
  w_now :: nat

definition rate_per_eth_per_day :: nat where
  "rate_per_eth_per_day = 10"

definition seconds_per_day :: nat where
  "seconds_per_day = 86400"

subsection \<open>Accrual\<close>

text \<open>
  \<open>accrued = stake * (rate * elapsed) / secondsPerDay\<close>, computed on the ciphertext:
  a homomorphic multiplication by the plaintext factor, then a homomorphic division.
  The factor is cast to 64 bits and both steps wrap as \<open>euint64\<close> does.
\<close>

definition accrual_factor :: "nat \<Rightarrow> u64" where
  "accrual_factor elapsed = word_of_nat (rate_per_eth_per_day * elapsed)"

definition accrue :: "handle \<Rightarrow> nat \<Rightarrow> fhe \<Rightarrow> handle \<times> fhe" where
  "accrue sh elapsed st =
     (case fhe_mul_scalar sh (accrual_factor elapsed) st of
       (m, st1) \<Rightarrow> fhe_div_scalar m (word_of_nat seconds_per_day) st1)"

text \<open>Accrue over the caller's stake since its last accrual, mint it, reset the clock.\<close>

definition accrue_and_mint :: "addr \<Rightarrow> world \<Rightarrow> world result" where
  "accrue_and_mint sender w =
     (let stk = w_stk w in
      case accrue (s_stake stk sender) (w_now w - s_last stk sender) (w_fhe w) of
        (r, st1) \<Rightarrow>
          rbind (mint (w_stk_addr w) sender r (w_coin w) st1)
            (\<lambda>(c', st2). Inr (w\<lparr>w_fhe := st2, w_coin := c',
                                 w_stk := stk\<lparr>s_last := (s_last stk)(sender := w_now w)\<rparr>\<rparr>)))"

subsection \<open>Entry points\<close>

text \<open>
  \<open>stake()\<close>, payable: the transaction layer has already credited \<open>value\<close> wei to the
  contract. A prior stake first accrues and mints; a first stake only starts the clock.
\<close>

definition start_clock :: "addr \<Rightarrow> world \<Rightarrow> world" where
  "start_clock sender w = w\<lparr>w_stk := (w_stk w)\<lparr>s_last := (s_last (w_stk w))(sender := w_now w)\<rparr>\<rparr>"

definition add_stake :: "addr \<Rightarrow> u64 \<Rightarrow> world \<Rightarrow> world" where
  "add_stake sender micro w =
     (let stk = w_stk w in
      case fhe_asEuint64 micro (w_fhe w) of
        (a, st1) \<Rightarrow>
          case fhe_add (s_stake stk sender) a st1 of
            (h, st2) \<Rightarrow> w\<lparr>w_fhe := st2, w_stk := stk\<lparr>s_stake := (s_stake stk)(sender := h)\<rparr>\<rparr>)"

definition stake :: "addr \<Rightarrow> nat \<Rightarrow> world \<Rightarrow> world result" where
  "stake sender value w =
     (if value = 0 \<or> value mod micro_unit \<noteq> 0 then Inl InvalidAmount
      else rbind
        (if s_stake (w_stk w) sender \<noteq> 0 then accrue_and_mint sender w
         else Inr (start_clock sender w))
        (\<lambda>w1. Inr (add_stake sender (word_of_nat (value div micro_unit)) w1)))"

definition claimInterest :: "addr \<Rightarrow> world \<Rightarrow> world result" where
  "claimInterest sender w = accrue_and_mint sender w"

text \<open>
  \<open>requestWithdrawAll()\<close>: accrue and mint first, then capture the whole stake handle as
  the pending withdrawal, make it publicly decryptable, and zero the stake.
\<close>

definition requestWithdrawAll :: "addr \<Rightarrow> world \<Rightarrow> world result" where
  "requestWithdrawAll sender w =
     rbind (accrue_and_mint sender w)
       (\<lambda>w1. let stk = w_stk w1; h = s_stake stk sender in
          if s_pending stk sender \<noteq> None then Inl WithdrawalAlreadyPending
          else if h = 0 then Inl NoStake
          else Inr (w1\<lparr>w_fhe := fhe_make_public h (w_fhe w1),
                       w_stk := stk\<lparr>s_pending := (s_pending stk)(sender := Some h),
                                    s_stake := (s_stake stk)(sender := 0)\<rparr>\<rparr>))"

text \<open>A native transfer out of a contract: it fails when the contract lacks the funds or
  the recipient refuses the payment.\<close>

definition send_eth :: "addr \<Rightarrow> addr \<Rightarrow> nat \<Rightarrow> world \<Rightarrow> world result" where
  "send_eth src dst amount w =
     (if w_eth w src < amount \<or> \<not> w_payable w dst then Inl TransferFailed
      else let e = (w_eth w)(src := w_eth w src - amount)
           in Inr (w\<lparr>w_eth := e(dst := e dst + amount)\<rparr>))"

definition finalizeWithdrawAll :: "addr \<Rightarrow> handle \<Rightarrow> u64 \<Rightarrow> dproof \<Rightarrow> world \<Rightarrow> world result" where
  "finalizeWithdrawAll sender h clear proof w =
     (case s_pending (w_stk w) sender of
       None \<Rightarrow> Inl NoPendingWithdrawal
     | Some p \<Rightarrow>
         if p \<noteq> h then Inl NoPendingWithdrawal
         else if \<not> verify (w_kms w) h clear proof then Inl InvalidProof
         else rbind (send_eth (w_stk_addr w) sender (unat clear * micro_unit) w)
           (\<lambda>w1. Inr (w1\<lparr>w_stk := (w_stk w1)\<lparr>s_pending := (s_pending (w_stk w1))(sender := None)\<rparr>\<rparr>)))"

subsection \<open>Read accessors\<close>

definition getEncryptedStakedMicroEth :: "world \<Rightarrow> addr \<Rightarrow> handle" where
  "getEncryptedStakedMicroEth w a = s_stake (w_stk w) a"

definition getPendingWithdrawCipher :: "world \<Rightarrow> addr \<Rightarrow> handle" where
  "getPendingWithdrawCipher w a = (case s_pending (w_stk w) a of None \<Rightarrow> 0 | Some h \<Rightarrow> h)"

definition getLastAccrual :: "world \<Rightarrow> addr \<Rightarrow> nat" where
  "getLastAccrual w a = s_last (w_stk w) a"

definition coinBalanceOf :: "world \<Rightarrow> addr \<Rightarrow> handle" where
  "coinBalanceOf w a = confidentialBalanceOf (w_coin w) a"

declare stake_def [op_defs] claimInterest_def [op_defs] requestWithdrawAll_def [op_defs]
  finalizeWithdrawAll_def [op_defs] accrue_and_mint_def [op_defs]

subsection \<open>The plaintext ledger the contract implements\<close>

text \<open>
  What the spec promises of one account, with every ciphertext replaced by its plaintext:
  whether a stake handle is held, the staked microETH, the coin balance, the last accrual
  time and the pending withdrawal amount. \<open>view\<close> decrypts a world into this form.
\<close>

record acct =
  a_staked :: bool
  a_stake :: u64
  a_balance :: u64
  a_last :: nat
  a_pending :: "u64 option"

definition view :: "world \<Rightarrow> addr \<Rightarrow> acct" where
  "view w a =
     \<lparr>a_staked = (s_stake (w_stk w) a \<noteq> 0),
      a_stake = fhe_dec (w_fhe w) (s_stake (w_stk w) a),
      a_balance = fhe_dec (w_fhe w) (c_balances (w_coin w) a),
      a_last = s_last (w_stk w) a,
      a_pending = map_option (fhe_dec (w_fhe w)) (s_pending (w_stk w) a)\<rparr>"

definition spec_accrue :: "nat \<Rightarrow> acct \<Rightarrow> acct" where
  "spec_accrue now x =
     x\<lparr>a_balance := a_balance x + (a_stake x * accrual_factor (now - a_last x)) div word_of_nat seconds_per_day,
       a_last := now\<rparr>"

definition spec_stake :: "nat \<Rightarrow> nat \<Rightarrow> acct \<Rightarrow> acct result" where
  "spec_stake now value x =
     (if value = 0 \<or> value mod micro_unit \<noteq> 0 then Inl InvalidAmount
      else let x1 = (if a_staked x then spec_accrue now x else x\<lparr>a_last := now\<rparr>)
           in Inr (x1\<lparr>a_staked := True, a_stake := a_stake x1 + word_of_nat (value div micro_unit)\<rparr>))"

definition spec_request :: "nat \<Rightarrow> acct \<Rightarrow> acct result" where
  "spec_request now x =
     (let x1 = spec_accrue now x in
      if a_pending x1 \<noteq> None then Inl WithdrawalAlreadyPending
      else if \<not> a_staked x1 then Inl NoStake
      else Inr (x1\<lparr>a_staked := False, a_stake := 0, a_pending := Some (a_stake x1)\<rparr>))"

text \<open>
  The deployment the spec assumes: the coin's minter is the staking contract. Without it
  every accrual reverts with \<open>Unauthorized\<close>.
\<close>

definition minter_ok :: "world \<Rightarrow> bool" where
  "minter_ok w \<longleftrightarrow> c_minter (w_coin w) = Some (w_stk_addr w)"

text \<open>The parts of the world an accruing operation leaves alone.\<close>

definition env_same :: "world \<Rightarrow> world \<Rightarrow> bool" where
  "env_same w w' \<longleftrightarrow> w_eth w' = w_eth w \<and> w_payable w' = w_payable w \<and> w_kms w' = w_kms w
     \<and> w_coin_addr w' = w_coin_addr w \<and> w_stk_addr w' = w_stk_addr w \<and> w_now w' = w_now w
     \<and> c_minter (w_coin w') = c_minter (w_coin w) \<and> c_owner (w_coin w') = c_owner (w_coin w)"

subsection \<open>Well-formedness\<close>

text \<open>
  Every stored handle is the sentinel or issued; every pending handle is issued and
  public, so the oracle can reveal it.
\<close>

definition world_wf :: "world \<Rightarrow> bool" where
  "world_wf w \<longleftrightarrow> fhe_wf (w_fhe w) \<and> coin_wf (w_coin w) (w_fhe w)
     \<and> (\<forall>a. s_stake (w_stk w) a < fnext (w_fhe w))
     \<and> (\<forall>a h. s_pending (w_stk w) a = Some h \<longrightarrow> 0 < h \<and> h \<in> set (fpublic (w_fhe w)))"

subsection \<open>Refinement of the plaintext ledger\<close>

text \<open>
  Each entry point, decrypted through \<open>view\<close>, is the plaintext operation of the spec on
  the caller's account and leaves every other account as it was; errors included, once the
  staking contract is the coin's minter.
\<close>

lemma accrue_facts:
  assumes "accrue sh e st = (r, st')" and "fhe_wf st"
  shows "fhe_wf st' \<and> fhe_extends st st' \<and> 0 < r \<and> r < fnext st' \<and> fpublic st' = fpublic st
         \<and> fhe_dec st' r = (fhe_dec st sh * accrual_factor e) div word_of_nat seconds_per_day"
proof -
  let ?m = "fhe_mul_scalar sh (accrual_factor e) st"
  have m: "fhe_wf (snd ?m)" "fhe_extends st (snd ?m)" "fst ?m < fnext (snd ?m)"
    "fhe_dec (snd ?m) (fst ?m) = fhe_dec st sh * accrual_factor e" "fpublic (snd ?m) = fpublic st"
    using assms(2) by (simp_all add: fhe_mul_scalar_def)
  have eq: "fhe_div_scalar (fst ?m) (word_of_nat seconds_per_day) (snd ?m) = (r, st')"
    using assms(1) by (simp add: accrue_def split: prod.splits)
  then have r: "r = fnext (snd ?m)"
    and st': "st' = snd (fhe_new (fhe_dec (snd ?m) (fst ?m) div word_of_nat seconds_per_day) (snd ?m))"
    by (simp_all add: fhe_div_scalar_def fhe_new_eq)
  have "0 < fnext (snd ?m)"
    using m(1) by (simp add: fhe_wf_def)
  with m r st' show ?thesis
    by (auto intro: fhe_extends_trans)
qed

lemma env_same_refl [simp]: "env_same w w"
  by (simp add: env_same_def)

lemma env_same_trans: "env_same w1 w2 \<Longrightarrow> env_same w2 w3 \<Longrightarrow> env_same w1 w3"
  by (simp add: env_same_def)

lemma a_staked_view [simp]: "a_staked (view w a) \<longleftrightarrow> s_stake (w_stk w) a \<noteq> 0"
  by (simp add: view_def)

lemma a_pending_view [simp]: "a_pending (view w a) = map_option (fhe_dec (w_fhe w)) (s_pending (w_stk w) a)"
  by (simp add: view_def)

lemma world_wf_handles:
  assumes "world_wf w"
  shows "s_stake (w_stk w) a < fnext (w_fhe w)" "c_balances (w_coin w) a < fnext (w_fhe w)"
    and "s_pending (w_stk w) a = Some h \<Longrightarrow> 0 < h \<and> h < fnext (w_fhe w)"
  using assms by (auto simp: world_wf_def coin_wf_def fhe_wf_def list_all_iff)

lemma world_wf_dec_extends:
  assumes "world_wf w" and "fhe_extends (w_fhe w) st"
  shows "fhe_dec st (s_stake (w_stk w) a) = fhe_dec (w_fhe w) (s_stake (w_stk w) a)"
    and "fhe_dec st (c_balances (w_coin w) a) = fhe_dec (w_fhe w) (c_balances (w_coin w) a)"
    and "map_option (fhe_dec st) (s_pending (w_stk w) a) = map_option (fhe_dec (w_fhe w)) (s_pending (w_stk w) a)"
proof -
  show "fhe_dec st (s_stake (w_stk w) a) = fhe_dec (w_fhe w) (s_stake (w_stk w) a)"
    using world_wf_handles(1) [OF assms(1)] assms(2) by (rule fhe_extends_dec [rotated])
  show "fhe_dec st (c_balances (w_coin w) a) = fhe_dec (w_fhe w) (c_balances (w_coin w) a)"
    using world_wf_handles(2) [OF assms(1)] assms(2) by (rule fhe_extends_dec [rotated])
  show "map_option (fhe_dec st) (s_pending (w_stk w) a) = map_option (fhe_dec (w_fhe w)) (s_pending (w_stk w) a)"
  proof (cases "s_pending (w_stk w) a")
    case (Some h)
    then have "h < fnext (w_fhe w)"
      using world_wf_handles(3) [OF assms(1)] by blast
    with Some assms(2) show ?thesis by (simp add: fhe_extends_dec)
  qed simp
qed

lemma view_frame:
  assumes "world_wf w" and "fhe_extends (w_fhe w) (w_fhe w')"
    and "s_stake (w_stk w') b = s_stake (w_stk w) b" and "s_last (w_stk w') b = s_last (w_stk w) b"
    and "s_pending (w_stk w') b = s_pending (w_stk w) b"
    and "c_balances (w_coin w') b = c_balances (w_coin w) b"
  shows "view w' b = view w b"
  using assms(3-6) world_wf_dec_extends [OF assms(1,2), of b] by (simp add: view_def)

lemma view_after_accrue:
  assumes d1: "fhe_dec st2 (s_stake (w_stk w) a) = fhe_dec (w_fhe w) (s_stake (w_stk w) a)"
    and d2: "fhe_dec st2 n = fhe_dec (w_fhe w) (c_balances (w_coin w) a)
        + (fhe_dec (w_fhe w) (s_stake (w_stk w) a) * accrual_factor (w_now w - s_last (w_stk w) a))
          div word_of_nat seconds_per_day"
    and d3: "map_option (fhe_dec st2) (s_pending (w_stk w) a) = map_option (fhe_dec (w_fhe w)) (s_pending (w_stk w) a)"
  shows "view (w\<lparr>w_fhe := st2, w_coin := (w_coin w)\<lparr>c_balances := (c_balances (w_coin w))(a := n)\<rparr>,
      w_stk := (w_stk w)\<lparr>s_last := (s_last (w_stk w))(a := w_now w)\<rparr>\<rparr>) a = spec_accrue (w_now w) (view w a)"
  unfolding view_def spec_accrue_def using d1 d2 d3 by simp
lemma accrue_and_mint_refines:
  assumes "world_wf w" and "accrue_and_mint a w = Inr w'"
  shows "world_wf w' \<and> fhe_extends (w_fhe w) (w_fhe w')
    \<and> view w' a = spec_accrue (w_now w) (view w a) \<and> (\<forall>b. b \<noteq> a \<longrightarrow> view w' b = view w b)
    \<and> env_same w w' \<and> w_stk w' = (w_stk w)\<lparr>s_last := (s_last (w_stk w))(a := w_now w)\<rparr>"
proof -
  let ?stk = "w_stk w"
  obtain r st1 where acc: "accrue (s_stake ?stk a) (w_now w - s_last ?stk a) (w_fhe w) = (r, st1)"
    by fastforce
  with assms(2) obtain c' st2 where mint: "mint (w_stk_addr w) a r (w_coin w) st1 = Inr (c', st2)"
    and w': "w' = w\<lparr>w_fhe := st2, w_coin := c', w_stk := ?stk\<lparr>s_last := (s_last ?stk)(a := w_now w)\<rparr>\<rparr>"
    by (auto simp: accrue_and_mint_def Let_def rbind_eq_Inr)
  have wf: "fhe_wf (w_fhe w)" using assms(1) by (simp add: world_wf_def)
  note A = accrue_facts [OF acc wf]
  let ?v = "fhe_dec st1 (c_balances (w_coin w) a) + fhe_dec st1 r"
  from mint have c': "c' = (w_coin w)\<lparr>c_balances := (c_balances (w_coin w))(a := fnext st1)\<rparr>"
    and st2: "st2 = snd (fhe_new ?v st1)" and minter: "c_minter (w_coin w) = Some (w_stk_addr w)"
    by (simp_all add: mint_Inr fhe_add_def)
  have ext: "fhe_extends (w_fhe w) st2"
    using A st2 by (auto intro: fhe_extends_trans)
  have h: "s_stake ?stk b < fnext (w_fhe w)" "c_balances (w_coin w) b < fnext (w_fhe w)" for b
    using world_wf_handles [OF assms(1)] by auto
  have le: "fnext (w_fhe w) \<le> fnext st1"
    using A by (simp add: fhe_extends_def)
  have h1: "s_stake ?stk b < fnext st1" "c_balances (w_coin w) b < fnext st1" for b
    using h [of b] le by linarith+
  have "world_wf w'"
    using assms(1) A h1 unfolding w' c' st2 world_wf_def coin_wf_def
    by (auto simp: less_Suc_eq)
  moreover have "view w' a = spec_accrue (w_now w) (view w a)"
  proof -
    note d1 = world_wf_dec_extends(1) [OF assms(1) ext, of a]
    have d2: "fhe_dec st2 (fnext st1) = fhe_dec (w_fhe w) (c_balances (w_coin w) a)
        + (fhe_dec (w_fhe w) (s_stake ?stk a) * accrual_factor (w_now w - s_last ?stk a))
          div word_of_nat seconds_per_day"
      using A st2 world_wf_dec_extends(2) [OF assms(1), of st1 a] by simp
    note d3 = world_wf_dec_extends(3) [OF assms(1) ext, of a]
    show ?thesis
      unfolding w' c' by (rule view_after_accrue [OF d1 d2 d3])
  qed
  moreover have "\<forall>b. b \<noteq> a \<longrightarrow> view w' b = view w b"
  proof (intro allI impI)
    fix b assume "b \<noteq> a"
    then show "view w' b = view w b"
      by (intro view_frame [OF assms(1)]) (simp_all add: w' c' ext)
  qed
  ultimately show ?thesis
    using ext unfolding w' c' by (simp add: env_same_def)
qed

lemma add_stake_eq:
  assumes "world_wf w"
  shows "add_stake a m w =
    w\<lparr>w_fhe := snd (fhe_new (fhe_dec (w_fhe w) (s_stake (w_stk w) a) + m) (snd (fhe_new m (w_fhe w)))),
      w_stk := (w_stk w)\<lparr>s_stake := (s_stake (w_stk w))(a := Suc (fnext (w_fhe w)))\<rparr>\<rparr>"
  using world_wf_handles(1) [OF assms, of a]
  by (simp add: add_stake_def fhe_ops Let_def prod.case_eq_if)

lemma add_stake_refines:
  assumes "world_wf w" and w': "w' = add_stake a m w"
  shows "world_wf w' \<and> fhe_extends (w_fhe w) (w_fhe w')
    \<and> view w' a = (view w a)\<lparr>a_staked := True, a_stake := a_stake (view w a) + m\<rparr>
    \<and> (\<forall>b. b \<noteq> a \<longrightarrow> view w' b = view w b)
    \<and> env_same w w' \<and> s_pending (w_stk w') = s_pending (w_stk w) \<and> s_last (w_stk w') = s_last (w_stk w)"
proof -
  let ?st1 = "snd (fhe_new m (w_fhe w))"
  let ?st2 = "snd (fhe_new (fhe_dec (w_fhe w) (s_stake (w_stk w) a) + m) ?st1)"
  have eq: "w' = w\<lparr>w_fhe := ?st2, w_stk := (w_stk w)\<lparr>s_stake := (s_stake (w_stk w))(a := Suc (fnext (w_fhe w)))\<rparr>\<rparr>"
    using add_stake_eq [OF assms(1)] w' by simp
  have wf: "fhe_wf (w_fhe w)" using assms(1) by (simp add: world_wf_def)
  have ext: "fhe_extends (w_fhe w) ?st2"
    by (meson fhe_extends_new fhe_extends_trans)
  have h1: "s_stake (w_stk w) b < Suc (Suc (fnext (w_fhe w)))" "c_balances (w_coin w) b < Suc (Suc (fnext (w_fhe w)))" for b
    using world_wf_handles(1,2) [OF assms(1), of b] by linarith+
  have "world_wf w'"
    using assms(1) wf h1 unfolding eq world_wf_def coin_wf_def by (auto simp: less_Suc_eq)
  moreover have "view w' a = (view w a)\<lparr>a_staked := True, a_stake := a_stake (view w a) + m\<rparr>"
    using world_wf_dec_extends(2,3) [OF assms(1) ext, of a] unfolding eq by (simp add: view_def fhe_dec_new)
  moreover have "\<forall>b. b \<noteq> a \<longrightarrow> view w' b = view w b"
  proof (intro allI impI)
    fix b assume "b \<noteq> a"
    then show "view w' b = view w b"
      by (intro view_frame [OF assms(1)]) (simp_all add: eq ext)
  qed
  ultimately show ?thesis
    using ext unfolding eq by (simp add: env_same_def)
qed

lemma start_clock_refines:
  "view (start_clock a w) a = (view w a)\<lparr>a_last := w_now w\<rparr>"
  "b \<noteq> a \<Longrightarrow> view (start_clock a w) b = view w b"
  "world_wf w \<Longrightarrow> world_wf (start_clock a w)"
  by (simp_all add: start_clock_def view_def world_wf_def coin_wf_def)

lemma stake_Inr:
  assumes "world_wf w" and "stake a v w = Inr w'"
  shows "world_wf w' \<and> fhe_extends (w_fhe w) (w_fhe w') \<and> env_same w w'
    \<and> spec_stake (w_now w) v (view w a) = Inr (view w' a)
    \<and> (\<forall>b. b \<noteq> a \<longrightarrow> view w' b = view w b)
    \<and> s_pending (w_stk w') = s_pending (w_stk w)"
proof -
  let ?m = "word_of_nat (v div micro_unit) :: u64"
  from assms(2) obtain w1 where valid: "v \<noteq> 0 \<and> v mod micro_unit = 0"
    and w1: "(if s_stake (w_stk w) a \<noteq> 0 then accrue_and_mint a w else Inr (start_clock a w)) = Inr w1"
    and w': "w' = add_stake a ?m w1"
    by (auto simp: stake_def rbind_eq_Inr split: if_splits)
  have step1: "world_wf w1 \<and> fhe_extends (w_fhe w) (w_fhe w1) \<and> env_same w w1
      \<and> view w1 a = (if a_staked (view w a) then spec_accrue (w_now w) (view w a)
      else (view w a)\<lparr>a_last := w_now w\<rparr>) \<and> (\<forall>b. b \<noteq> a \<longrightarrow> view w1 b = view w b)
      \<and> s_pending (w_stk w1) = s_pending (w_stk w)"
  proof (cases "s_stake (w_stk w) a \<noteq> 0")
    case True
    with w1 have "accrue_and_mint a w = Inr w1" by simp
    with accrue_and_mint_refines [OF assms(1)] True show ?thesis
      by simp
  next
    case False
    with w1 start_clock_refines [where a = a and w = w] assms(1) show ?thesis
      by (auto simp: env_same_def start_clock_def)
  qed
  with add_stake_refines [OF _ w'] valid show ?thesis
    by (auto simp: spec_stake_def Let_def intro: fhe_extends_trans env_same_trans)
qed

lemma accrue_and_mint_ok: "minter_ok w \<Longrightarrow> \<exists>w'. accrue_and_mint a w = Inr w'"
  by (simp add: accrue_and_mint_def mint_def minter_ok_def Let_def prod.case_eq_if)

lemma accrue_and_mint_unauthorized: "\<not> minter_ok w \<Longrightarrow> accrue_and_mint a w = Inl Unauthorized"
  by (simp add: accrue_and_mint_def mint_def minter_ok_def Let_def prod.case_eq_if)

lemma view_upd:
  "view w' a = x \<Longrightarrow> (\<forall>b. b \<noteq> a \<longrightarrow> view w' b = view w b) \<Longrightarrow> view w' = (view w)(a := x)"
  by (auto simp: fun_eq_iff)

theorem claimInterest_refines:
  assumes "world_wf w" and "minter_ok w"
  shows "map_sum id view (claimInterest a w) = Inr ((view w)(a := spec_accrue (w_now w) (view w a)))"
proof -
  obtain w' where w': "accrue_and_mint a w = Inr w'"
    using accrue_and_mint_ok [OF assms(2)] by blast
  from accrue_and_mint_refines [OF assms(1) w']
  have "view w' = (view w)(a := spec_accrue (w_now w) (view w a))"
    by (intro view_upd) simp_all
  with w' show ?thesis
    by (simp add: claimInterest_def)
qed

theorem stake_refines:
  assumes "world_wf w" and "minter_ok w"
  shows "map_sum id view (stake a v w) = map_sum id (\<lambda>x. (view w)(a := x)) (spec_stake (w_now w) v (view w a))"
proof (cases "v = 0 \<or> v mod micro_unit \<noteq> 0")
  case True
  then show ?thesis by (auto simp: stake_def spec_stake_def)
next
  case False
  obtain w1 where "accrue_and_mint a w = Inr w1"
    using accrue_and_mint_ok [OF assms(2)] by blast
  with False obtain w' where w': "stake a v w = Inr w'"
    by (cases "s_stake (w_stk w) a = 0") (auto simp: stake_def)
  note S = stake_Inr [OF assms(1) w']
  then have "view w' = (view w)(a := view w' a)"
    by (intro view_upd) simp_all
  with w' S show ?thesis
    by simp
qed

lemma requestWithdrawAll_eq:
  assumes "accrue_and_mint a w = Inr w1"
  shows "requestWithdrawAll a w =
    (if s_pending (w_stk w) a \<noteq> None then Inl WithdrawalAlreadyPending
     else if s_stake (w_stk w) a = 0 then Inl NoStake
     else Inr (w1\<lparr>w_fhe := fhe_make_public (s_stake (w_stk w) a) (w_fhe w1),
                  w_stk := (w_stk w1)\<lparr>s_pending := (s_pending (w_stk w1))(a := Some (s_stake (w_stk w) a)),
                               s_stake := (s_stake (w_stk w1))(a := 0)\<rparr>\<rparr>))"
proof -
  have "w_stk w1 = (w_stk w)\<lparr>s_last := (s_last (w_stk w))(a := w_now w)\<rparr>"
    using assms by (auto simp: accrue_and_mint_def Let_def rbind_eq_Inr prod.case_eq_if)
  with assms show ?thesis
    by (simp add: requestWithdrawAll_def Let_def)
qed

lemma spec_accrue_keeps [simp]:
  "a_staked (spec_accrue n x) = a_staked x" "a_stake (spec_accrue n x) = a_stake x"
  "a_pending (spec_accrue n x) = a_pending x" "a_last (spec_accrue n x) = n"
  by (simp_all add: spec_accrue_def)

lemma requestWithdrawAll_Inr:
  assumes "world_wf w" and "requestWithdrawAll a w = Inr w'"
  shows "world_wf w' \<and> fhe_extends (w_fhe w) (w_fhe w') \<and> env_same w w'
    \<and> spec_request (w_now w) (view w a) = Inr (view w' a)
    \<and> (\<forall>b. b \<noteq> a \<longrightarrow> view w' b = view w b)
    \<and> s_pending (w_stk w') a = Some (s_stake (w_stk w) a) \<and> s_stake (w_stk w') a = 0"
proof -
  obtain w1 where acc: "accrue_and_mint a w = Inr w1"
    using assms(2) by (auto simp: requestWithdrawAll_def rbind_eq_Inr)
  note R = accrue_and_mint_refines [OF assms(1) acc]
  let ?h = "s_stake (w_stk w) a"
  from assms(2) have cond: "?h \<noteq> 0" "s_pending (w_stk w) a = None"
    and w': "w' = w1\<lparr>w_fhe := fhe_make_public ?h (w_fhe w1),
                  w_stk := (w_stk w1)\<lparr>s_pending := (s_pending (w_stk w1))(a := Some ?h),
                               s_stake := (s_stake (w_stk w1))(a := 0)\<rparr>\<rparr>"
    by (simp_all add: requestWithdrawAll_eq [OF acc] split: if_splits)
  have stk1: "s_stake (w_stk w1) = s_stake (w_stk w)" "s_pending (w_stk w1) = s_pending (w_stk w)"
    using R by simp_all
  have wf1: "fhe_wf (w_fhe w1)" using R by (simp add: world_wf_def)
  have hlt: "?h < fnext (w_fhe w1)"
    using world_wf_handles(1) [of w1 a] R stk1 by simp
  have ext: "fhe_extends (w_fhe w1) (w_fhe w')"
    unfolding w' by simp
  have "world_wf w'"
    using R cond hlt wf1 stk1 unfolding w' world_wf_def coin_wf_def
    by (auto simp: fhe_make_public_wf)
  moreover have "view w' a = (view w1 a)\<lparr>a_staked := False, a_stake := 0, a_pending := Some (a_stake (view w1 a))\<rparr>"
    using wf1 stk1 unfolding w' by (simp add: view_def)
  moreover have "\<forall>b. b \<noteq> a \<longrightarrow> view w' b = view w1 b"
  proof (intro allI impI)
    fix b assume "b \<noteq> a"
    then show "view w' b = view w1 b"
      by (intro view_frame [of w1]) (simp_all add: R w' ext)
  qed
  ultimately show ?thesis
    using R cond stk1 ext unfolding w'
    by (auto simp: spec_request_def Let_def env_same_def intro: fhe_extends_trans)
qed

theorem requestWithdrawAll_refines:
  assumes "world_wf w" and "minter_ok w"
  shows "map_sum id view (requestWithdrawAll a w)
       = map_sum id (\<lambda>x. (view w)(a := x)) (spec_request (w_now w) (view w a))"
proof -
  obtain w1 where acc: "accrue_and_mint a w = Inr w1"
    using accrue_and_mint_ok [OF assms(2)] by blast
  note R = accrue_and_mint_refines [OF assms(1) acc]
  show ?thesis
  proof (cases "requestWithdrawAll a w")
    case (Inl e)
    then show ?thesis
      using R by (auto simp: requestWithdrawAll_eq [OF acc] spec_request_def Let_def split: if_splits)
  next
    case (Inr w')
    note Q = requestWithdrawAll_Inr [OF assms(1) Inr]
    then have "view w' = (view w)(a := view w' a)"
      by (intro view_upd) simp_all
    with Inr Q show ?thesis by simp
  qed
qed

text \<open>A pending withdrawal with an oracle proof of its value pays that many microETH.\<close>

lemma finalizeWithdrawAll_Inr:
  assumes "s_pending (w_stk w) a = Some h" and "w_payable w a" and "a \<noteq> w_stk_addr w"
    and "unat v * micro_unit \<le> w_eth w (w_stk_addr w)"
  shows "finalizeWithdrawAll a h v (DecryptionProof (w_kms w) [(h, v)]) w =
    Inr (w\<lparr>w_eth := (w_eth w)(w_stk_addr w := w_eth w (w_stk_addr w) - unat v * micro_unit,
                              a := w_eth w a + unat v * micro_unit),
          w_stk := (w_stk w)\<lparr>s_pending := (s_pending (w_stk w))(a := None)\<rparr>\<rparr>)"
  using assms by (simp add: finalizeWithdrawAll_def send_eth_def verify_def Let_def)

lemma world_wf_pending_public:
  "world_wf w \<Longrightarrow> s_pending (w_stk w) a = Some h \<Longrightarrow> 0 < h \<and> h \<in> set (fpublic (w_fhe w))"
  by (simp add: world_wf_def)

end
