(* ===== verification/Chain.thy ===== *)
theory Chain
  imports Staking
begin

text \<open>
  Transactions (spec section 5): every call is an atomic, serialised transition that
  either applies its whole effect or reverts with no effect. A transaction carries the
  ETH it sends (only \<open>stake\<close> is payable); the sender must hold it, or the wallet
  refuses to send. The value reaches the contract before the body runs, and a revert
  returns it. Gas is not modelled. Clients (theory \<open>Client\<close>) reach the contracts only
  through \<open>send_tx\<close>.
\<close>

datatype stk_call =
    CallStake nat
  | CallClaimInterest
  | CallRequestWithdrawAll
  | CallFinalizeWithdrawAll handle u64 dproof

datatype tx = ToStaking stk_call | ToCoin coin_call

datatype tx_error = Reverted error | InsufficientFunds

fun tx_value :: "tx \<Rightarrow> nat" where
  "tx_value (ToStaking (CallStake v)) = v"
| "tx_value _ = 0"

definition pay_in :: "addr \<Rightarrow> nat \<Rightarrow> world \<Rightarrow> world" where
  "pay_in sender v w =
     (let e = (w_eth w)(sender := w_eth w sender - v)
      in w\<lparr>w_eth := e(w_stk_addr w := e (w_stk_addr w) + v)\<rparr>)"

fun staking_exec :: "addr \<Rightarrow> stk_call \<Rightarrow> world \<Rightarrow> world result" where
  "staking_exec sender (CallStake v) w = stake sender v (pay_in sender v w)"
| "staking_exec sender CallClaimInterest w = claimInterest sender w"
| "staking_exec sender CallRequestWithdrawAll w = requestWithdrawAll sender w"
| "staking_exec sender (CallFinalizeWithdrawAll h v p) w = finalizeWithdrawAll sender h v p w"

fun exec_tx :: "addr \<Rightarrow> tx \<Rightarrow> world \<Rightarrow> world result" where
  "exec_tx sender (ToStaking c) w = staking_exec sender c w"
| "exec_tx sender (ToCoin c) w =
     rbind (coin_exec sender c (w_coin w, w_fhe w)) (\<lambda>(c', st). Inr (w\<lparr>w_coin := c', w_fhe := st\<rparr>))"

text \<open>\<open>contract.f(...)\<close> then \<open>tx.wait()\<close>: the mined outcome of one transaction.\<close>

definition send_tx :: "addr \<Rightarrow> tx \<Rightarrow> world \<Rightarrow> tx_error + world" where
  "send_tx sender t w =
     (if w_eth w sender < tx_value t then Inl InsufficientFunds
      else case exec_tx sender t w of Inl e \<Rightarrow> Inl (Reverted e) | Inr w' \<Rightarrow> Inr w')"

text \<open>The world after a transaction: a failed one changes nothing.\<close>

definition apply_tx :: "addr \<Rightarrow> tx \<Rightarrow> world \<Rightarrow> world" where
  "apply_tx sender t w = (case send_tx sender t w of Inl _ \<Rightarrow> w | Inr w' \<Rightarrow> w')"

text \<open>Mining advances the block time (\<open>evm_increaseTime\<close>, \<open>evm_mine\<close> in the tests).\<close>

definition advance_time :: "nat \<Rightarrow> world \<Rightarrow> world" where
  "advance_time dt w = w\<lparr>w_now := w_now w + dt\<rparr>"

text \<open>
  The transactions an honest client sends: a decryption proof passed to
  \<open>finalizeWithdrawAll\<close> and signed with the trusted key is one the oracle issued.
\<close>

fun honest_tx :: "world \<Rightarrow> tx \<Rightarrow> bool" where
  "honest_tx w (ToStaking (CallFinalizeWithdrawAll h v p)) = oracle_issued (w_kms w) (w_fhe w) p"
| "honest_tx w _ = True"

lemma send_tx_Inr_exec: "send_tx s t w = Inr w' \<Longrightarrow> exec_tx s t w = Inr w'"
  by (simp add: send_tx_def split: if_splits sum.splits)

lemma send_tx_Inl_revert:
  "w_eth w s \<ge> tx_value t \<Longrightarrow> exec_tx s t w = Inl e \<Longrightarrow> send_tx s t w = Inl (Reverted e)"
  by (simp add: send_tx_def)

lemma apply_tx_Inl [simp]: "send_tx s t w = Inl e \<Longrightarrow> apply_tx s t w = w"
  by (simp add: apply_tx_def)

lemma apply_tx_Inr [simp]: "send_tx s t w = Inr w' \<Longrightarrow> apply_tx s t w = w'"
  by (simp add: apply_tx_def)

lemma send_tx_unpaid: "tx_value t = 0 \<Longrightarrow> send_tx s t w = map_sum Reverted id (exec_tx s t w)"
  by (simp add: send_tx_def split: sum.split)

end
