(* ===== verification/Solvency.thy ===== *)
theory Solvency
  imports Chain
begin

text \<open>
  Solvency of the staking contract: the ETH it holds covers, in wei, every account's
  staked and pending microETH. Sums range over finite sets of accounts, so the invariant
  says that no finite group of stakers is owed more than the contract holds. Each entry
  point of the staking contract is shown to keep it, together with well-formedness and
  the minter assignment, when its caller is an external account and any decryption
  proof it carries was issued by the oracle.
\<close>

definition owed_acct :: "acct \<Rightarrow> nat" where
  "owed_acct x = unat (a_stake x) + (case a_pending x of None \<Rightarrow> 0 | Some v \<Rightarrow> unat v)"

definition owed :: "world \<Rightarrow> addr \<Rightarrow> nat" where
  "owed w a = owed_acct (view w a)"

definition solvent :: "world \<Rightarrow> bool" where
  "solvent w \<longleftrightarrow> (\<forall>S. finite S \<longrightarrow> micro_unit * (\<Sum>a\<in>S. owed w a) \<le> w_eth w (w_stk_addr w))"

definition stk_inv :: "world \<Rightarrow> bool" where
  "stk_inv w \<longleftrightarrow> world_wf w \<and> minter_ok w \<and> solvent w"

subsection \<open>Claims of one account\<close>

lemma owed_acct_accrue [simp]: "owed_acct (spec_accrue n x) = owed_acct x"
  by (simp add: owed_acct_def)

lemma owed_acct_stake:
  assumes "spec_stake n v x = Inr y"
  shows "micro_unit * owed_acct y \<le> micro_unit * owed_acct x + v"
proof -
  let ?k = "word_of_nat (v div micro_unit) :: u64"
  let ?x1 = "if a_staked x then spec_accrue n x else x\<lparr>a_last := n\<rparr>"
  have y: "a_stake y = a_stake x + ?k" "a_pending y = a_pending x"
    using assms by (auto simp: spec_stake_def Let_def split: if_splits)
  have "unat (a_stake x + ?k) \<le> unat (a_stake x) + v div micro_unit"
    using unat_add_le_u64 [of "a_stake x" ?k] unat_of_nat_le_u64 [of "v div micro_unit"] by linarith
  then have "micro_unit * unat (a_stake y) \<le> micro_unit * unat (a_stake x) + micro_unit * (v div micro_unit)"
    using y(1) by (metis distrib_left mult_le_mono2)
  moreover have "micro_unit * (v div micro_unit) \<le> v"
    by (simp add: mult.commute)
  moreover have "micro_unit * owed_acct y - micro_unit * unat (a_stake y)
      = micro_unit * owed_acct x - micro_unit * unat (a_stake x)"
    "micro_unit * unat (a_stake y) \<le> micro_unit * owed_acct y"
    "micro_unit * unat (a_stake x) \<le> micro_unit * owed_acct x"
    using y(2) by (simp_all add: owed_acct_def algebra_simps)
  ultimately show ?thesis
    by linarith
qed

lemma owed_acct_request: "spec_request n x = Inr y \<Longrightarrow> owed_acct y = owed_acct x"
  by (auto simp: spec_request_def owed_acct_def Let_def split: if_splits)

subsection \<open>One step at a time\<close>

text \<open>
  A step that changes only account \<open>a\<close>'s claim keeps the contract solvent when the
  ETH it adds covers the claim it adds (or the ETH it pays out is the claim it removes).
\<close>

lemma solvent_step:
  assumes sol: "solvent w" and others: "\<forall>b. b \<noteq> a \<longrightarrow> owed w' b = owed w b"
    and bal: "micro_unit * owed w' a + w_eth w (w_stk_addr w) \<le> micro_unit * owed w a + w_eth w' (w_stk_addr w')"
  shows "solvent w'"
  unfolding solvent_def
proof (intro allI impI)
  fix S :: "addr set" assume fin: "finite S"
  have same: "(\<Sum>b\<in>S - {a}. owed w' b) = (\<Sum>b\<in>S - {a}. owed w b)"
    using others by (intro sum.cong) auto
  have ins: "micro_unit * ((\<Sum>b\<in>S - {a}. owed w b) + owed w a) \<le> w_eth w (w_stk_addr w)"
  proof -
    have "(\<Sum>b\<in>insert a (S - {a}). owed w b) = owed w a + (\<Sum>b\<in>S - {a}. owed w b)"
      using fin by (simp add: sum.insert_remove)
    moreover have "finite (insert a (S - {a}))" using fin by simp
    ultimately show ?thesis
      using sol by (metis solvent_def add.commute)
  qed
  have split: "\<And>f. (\<Sum>b\<in>S. f b) = (if a \<in> S then f a else 0) + (\<Sum>b\<in>S - {a}. f b)"
    using fin by (simp add: sum.remove)
  have "micro_unit * (\<Sum>b\<in>S. owed w' b) \<le> micro_unit * ((\<Sum>b\<in>S - {a}. owed w b) + owed w' a)"
    using split [of "owed w'"] same by (simp add: algebra_simps)
  also have "\<dots> \<le> w_eth w' (w_stk_addr w')"
    using ins bal by (simp add: algebra_simps)
  finally show "micro_unit * (\<Sum>b\<in>S. owed w' b) \<le> w_eth w' (w_stk_addr w')" .
qed

lemma owed_frame: "(\<forall>b. b \<noteq> a \<longrightarrow> view w' b = view w b) \<Longrightarrow> \<forall>b. b \<noteq> a \<longrightarrow> owed w' b = owed w b"
  by (simp add: owed_def)

lemma env_same_minter_ok: "env_same w w' \<Longrightarrow> minter_ok w' = minter_ok w"
  by (simp add: env_same_def minter_ok_def)

lemma env_same_stk_eth: "env_same w w' \<Longrightarrow> w_eth w' (w_stk_addr w') = w_eth w (w_stk_addr w)"
  by (simp add: env_same_def)

lemma pay_in_simps [simp]:
  "w_fhe (pay_in s v w) = w_fhe w" "w_coin (pay_in s v w) = w_coin w" "w_stk (pay_in s v w) = w_stk w"
  "w_stk_addr (pay_in s v w) = w_stk_addr w" "w_now (pay_in s v w) = w_now w"
  by (simp_all add: pay_in_def Let_def)

lemma pay_in_view [simp]: "view (pay_in s v w) = view w"
  by (simp add: view_def fun_eq_iff)

lemma pay_in_wf [simp]: "world_wf (pay_in s v w) = world_wf w"
  by (simp add: world_wf_def)

lemma pay_in_minter_ok [simp]: "minter_ok (pay_in s v w) = minter_ok w"
  by (simp add: minter_ok_def)

lemma pay_in_stk_eth: "s \<noteq> w_stk_addr w \<Longrightarrow> w_eth (pay_in s v w) (w_stk_addr w) = w_eth w (w_stk_addr w) + v"
  by (simp add: pay_in_def Let_def)

lemma stake_inv:
  assumes inv: "stk_inv w" and ext: "s \<noteq> w_stk_addr w"
    and ok: "stake s v (pay_in s v w) = Inr w'"
  shows "stk_inv w'"
proof -
  have wf0: "world_wf (pay_in s v w)" using inv by (simp add: stk_inv_def)
  note S = stake_Inr [OF wf0 ok]
  have "micro_unit * owed w' s \<le> micro_unit * owed w s + v"
    using owed_acct_stake [of "w_now w" v "view w s" "view w' s"] S by (simp add: owed_def)
  moreover have "w_eth w' (w_stk_addr w') = w_eth w (w_stk_addr w) + v"
  proof -
    from S have "env_same (pay_in s v w) w'" by (elim conjE)
    then have "w_eth w' (w_stk_addr w') = w_eth (pay_in s v w) (w_stk_addr (pay_in s v w))"
      by (rule env_same_stk_eth)
    then show ?thesis using pay_in_stk_eth [OF ext] by simp
  qed
  ultimately have bal: "micro_unit * owed w' s + w_eth w (w_stk_addr w) \<le> micro_unit * owed w s + w_eth w' (w_stk_addr w')"
    by linarith
  have others: "\<forall>b. b \<noteq> s \<longrightarrow> owed w' b = owed w b"
    using S by (intro owed_frame) (metis pay_in_view)
  have "solvent w" using inv by (simp add: stk_inv_def)
  then have "solvent w'"
    using others bal by (rule solvent_step)
  moreover from S have "env_same (pay_in s v w) w'" by (elim conjE)
  ultimately show ?thesis
    using S inv env_same_minter_ok [of "pay_in s v w" w'] by (simp add: stk_inv_def)
qed

text \<open>An entry point that moves no ETH and keeps every claim keeps the invariant.\<close>

lemma stk_inv_keep:
  assumes inv: "stk_inv w" and wf: "world_wf w'" and env: "env_same w w'"
    and frame: "\<forall>b. b \<noteq> a \<longrightarrow> view w' b = view w b" and own: "owed w' a = owed w a"
  shows "stk_inv w'"
proof -
  have "w_eth w' (w_stk_addr w') = w_eth w (w_stk_addr w)"
    using env by (rule env_same_stk_eth)
  then have bal: "micro_unit * owed w' a + w_eth w (w_stk_addr w) \<le> micro_unit * owed w a + w_eth w' (w_stk_addr w')"
    using own by simp
  have "solvent w" using inv by (simp add: stk_inv_def)
  then have "solvent w'"
    using owed_frame [OF frame] bal by (rule solvent_step)
  then show ?thesis
    using inv wf env_same_minter_ok [OF env] by (simp add: stk_inv_def)
qed

lemma accrue_and_mint_inv:
  assumes inv: "stk_inv w" and ok: "accrue_and_mint s w = Inr w'"
  shows "stk_inv w'"
proof -
  have wf: "world_wf w" using inv by (simp add: stk_inv_def)
  note R = accrue_and_mint_refines [OF wf ok]
  show ?thesis
  proof (rule stk_inv_keep [OF inv])
    show "owed w' s = owed w s" using R by (simp add: owed_def)
  qed (use R in simp_all)
qed

lemma requestWithdrawAll_inv:
  assumes inv: "stk_inv w" and ok: "requestWithdrawAll s w = Inr w'"
  shows "stk_inv w'"
proof -
  have wf: "world_wf w" using inv by (simp add: stk_inv_def)
  note R = requestWithdrawAll_Inr [OF wf ok]
  show ?thesis
  proof (rule stk_inv_keep [OF inv])
    show "owed w' s = owed w s"
      using R owed_acct_request [of "w_now w" "view w s" "view w' s"] by (simp add: owed_def)
  qed (use R in simp_all)
qed

lemma finalizeWithdrawAll_inv:
  assumes inv: "stk_inv w" and ext: "s \<noteq> w_stk_addr w"
    and hon: "oracle_issued (w_kms w) (w_fhe w) p"
    and ok: "finalizeWithdrawAll s h v p w = Inr w'"
  shows "stk_inv w'"
proof -
  let ?amt = "unat v * micro_unit" and ?stk = "w_stk_addr w"
  from ok have p: "s_pending (w_stk w) s = Some h" and vfy: "verify (w_kms w) h v p"
    and funds: "?amt \<le> w_eth w ?stk"
    and w': "w' = w\<lparr>w_eth := ((w_eth w)(?stk := w_eth w ?stk - ?amt))
                       (s := ((w_eth w)(?stk := w_eth w ?stk - ?amt)) s + ?amt),
                     w_stk := (w_stk w)\<lparr>s_pending := (s_pending (w_stk w))(s := None)\<rparr>\<rparr>"
    by (auto simp: finalizeWithdrawAll_def send_eth_def rbind_eq_Inr Let_def
             split: option.splits if_splits)
  have v: "v = fhe_dec (w_fhe w) h"
    using oracle_issued_verify [OF hon vfy] .
  have wf: "world_wf w" using inv by (simp add: stk_inv_def)
  have "world_wf w'"
    using wf unfolding w' world_wf_def coin_wf_def by auto
  moreover have "minter_ok w'"
    using inv unfolding w' by (simp add: stk_inv_def minter_ok_def)
  moreover have "solvent w'"
  proof -
    have "solvent w" using inv by (simp add: stk_inv_def)
    moreover have "\<forall>b. b \<noteq> s \<longrightarrow> owed w' b = owed w b"
      by (simp add: owed_def view_def w')
    moreover have "micro_unit * owed w' s + w_eth w ?stk \<le> micro_unit * owed w s + w_eth w' (w_stk_addr w')"
    proof -
      have "owed w s = owed w' s + unat v"
        using p v by (simp add: owed_def owed_acct_def view_def w')
      moreover have "w_eth w' (w_stk_addr w') = w_eth w ?stk - ?amt"
        using ext by (simp add: w')
      ultimately show ?thesis
        using funds by (simp add: algebra_simps)
    qed
    ultimately show ?thesis by (rule solvent_step)
  qed
  ultimately show ?thesis
    by (simp add: stk_inv_def)
qed

text \<open>An external account cannot mint, and the minter is set once for all.\<close>

lemma coin_exec_reverts:
  assumes "minter_ok w" and "s \<noteq> w_stk_addr w"
  shows "\<exists>e. coin_exec s c (w_coin w, w_fhe w) = Inl e"
  using assms by (cases c) (auto simp: minter_ok_def setMinter_def mint_def)

lemma advance_time_inv [simp]: "stk_inv (advance_time dt w) = stk_inv w"
  by (simp add: stk_inv_def advance_time_def world_wf_def minter_ok_def solvent_def owed_def view_def)

theorem apply_tx_inv:
  assumes inv: "stk_inv w" and ext: "s \<noteq> w_stk_addr w" and hon: "honest_tx w t"
  shows "stk_inv (apply_tx s t w)"
proof (cases "send_tx s t w")
  case (Inl e)
  then show ?thesis using inv by simp
next
  case (Inr w')
  then have ex: "exec_tx s t w = Inr w'" and paid: "tx_value t \<le> w_eth w s"
    by (auto simp: send_tx_def split: if_splits sum.splits)
  have "stk_inv w'"
  proof (cases t)
    case (ToStaking c)
    then show ?thesis
    proof (cases c)
      case (CallStake v)
      with ex ToStaking show ?thesis
        using stake_inv [OF inv ext] by simp
    next
      case CallClaimInterest
      with ex ToStaking show ?thesis
        using accrue_and_mint_inv [OF inv] by (simp add: claimInterest_def)
    next
      case CallRequestWithdrawAll
      with ex ToStaking show ?thesis
        using requestWithdrawAll_inv [OF inv] by simp
    next
      case (CallFinalizeWithdrawAll h v p)
      with ex ToStaking hon show ?thesis
        using finalizeWithdrawAll_inv [OF inv ext] by simp
    qed
  next
    case (ToCoin c)
    then show ?thesis
      using ex coin_exec_reverts [of w s c] inv ext by (auto simp: stk_inv_def)
  qed
  with Inr show ?thesis by simp
qed

text \<open>A solvent contract holds at least the wei of any single pending withdrawal.\<close>

lemma stk_inv_pending_funds:
  assumes "stk_inv w" and "s_pending (w_stk w) a = Some h"
  shows "unat (fhe_dec (w_fhe w) h) * micro_unit \<le> w_eth w (w_stk_addr w)"
proof -
  have m: "micro_unit * owed w a \<le> w_eth w (w_stk_addr w)"
    using assms(1) unfolding stk_inv_def solvent_def by (metis finite.emptyI finite_insert sum.insert
      empty_iff sum.empty add.right_neutral)
  have "unat (fhe_dec (w_fhe w) h) \<le> owed w a"
    using assms(2) by (simp add: owed_def owed_acct_def)
  then have "micro_unit * unat (fhe_dec (w_fhe w) h) \<le> micro_unit * owed w a"
    by (rule mult_le_mono2)
  moreover have "unat (fhe_dec (w_fhe w) h) * micro_unit = micro_unit * unat (fhe_dec (w_fhe w) h)"
    by (rule mult.commute)
  ultimately show ?thesis
    using m by linarith
qed

end
