(* ===== verification/Units.thy ===== *)
theory Units
  imports Prelude
begin

text \<open>
  Number text as the clients produce and read it. JavaScript's \<open>BigInt.toString()\<close>
  (\<open>dec_digits\<close>), \<open>padStart\<close> and the trailing-zero \<open>replace(/0+$/, '')\<close>
  build the UI's \<open>formatCcoinUnits\<close> (\<open>src/ui/src/components/StakingApp.tsx\<close>), which
  shows a cCoin amount of 6 decimals. ethers' \<open>parseUnits\<close> (\<open>FixedNumber.fromString\<close>:
  the regular expression \<open>^(-?)([0-9]*)\.?([0-9]*)$\<close>, padding the fraction to the
  decimals and refusing non-zero digits beyond them) is what \<open>ethers.parseEther\<close> runs on
  the UI's and the tasks' ETH amounts; values beyond ethers' 512-bit width are not modelled.
  Handles are printed as ethers prints a bytes32, \<open>0x\<close> and 64 hex digits.
\<close>

definition is_digit :: "char \<Rightarrow> bool" where
  "is_digit c \<longleftrightarrow> 48 \<le> (of_char c :: nat) \<and> (of_char c :: nat) \<le> 57"

definition digit_char :: "nat \<Rightarrow> char" where
  "digit_char d = char_of (48 + d)"

fun dec_digits :: "nat \<Rightarrow> string" where
  "dec_digits n = (if n < 10 then [digit_char n] else dec_digits (n div 10) @ [digit_char (n mod 10)])"

definition dec_val :: "string \<Rightarrow> nat" where
  "dec_val s = foldl (\<lambda>acc c. 10 * acc + (of_char c - 48)) 0 s"

definition pad_start :: "nat \<Rightarrow> char \<Rightarrow> string \<Rightarrow> string" where
  "pad_start n c s = replicate (n - length s) c @ s"

definition strip_trailing_zeros :: "string \<Rightarrow> string" where
  "strip_trailing_zeros s = rev (dropWhile (\<lambda>c. c = CHR ''0'') (rev s))"

definition formatCcoinUnits :: "int \<Rightarrow> string" where
  "formatCcoinUnits units =
     (let sign = (if units < 0 then ''-'' else '''');
          abs = nat \<bar>units\<bar>;
          whole = abs div 1000000;
          frac = strip_trailing_zeros (pad_start 6 CHR ''0'' (dec_digits (abs mod 1000000)))
      in if frac \<noteq> [] then sign @ dec_digits whole @ ''.'' @ frac else sign @ dec_digits whole)"

definition split_digits :: "string \<Rightarrow> (string \<times> string) option" where
  "split_digits r =
     (let whole = takeWhile is_digit r; rest = dropWhile is_digit r
      in if rest = [] then Some (whole, [])
         else if hd rest = CHR ''.'' \<and> list_all is_digit (tl rest) then Some (whole, tl rest)
         else None)"

definition split_fixed :: "string \<Rightarrow> (bool \<times> string \<times> string) option" where
  "split_fixed s =
     (if take 1 s = ''-'' then map_option (\<lambda>(w, f). (True, w, f)) (split_digits (drop 1 s))
      else map_option (\<lambda>(w, f). (False, w, f)) (split_digits s))"

definition parse_units :: "nat \<Rightarrow> string \<Rightarrow> string + int" where
  "parse_units d s =
     (case split_fixed s of
       None \<Rightarrow> Inl ''invalid FixedNumber string value''
     | Some (neg, whole, frac) \<Rightarrow>
         if whole = [] \<and> frac = [] then Inl ''invalid FixedNumber string value''
         else if \<not> list_all (\<lambda>c. c = CHR ''0'') (drop d frac) then Inl ''too many decimals for format''
         else let w = (if whole = [] then ''0'' else whole);
                  dp = take d (frac @ replicate d CHR ''0'')
              in Inr ((if neg then -1 else 1) * int (dec_val (w @ dp))))"

definition parseEther :: "string \<Rightarrow> string + int" where
  "parseEther s = parse_units 18 s"

definition hex_char :: "nat \<Rightarrow> char" where
  "hex_char d = (if d < 10 then char_of (48 + d) else char_of (87 + d))"

fun hex_digits :: "nat \<Rightarrow> string" where
  "hex_digits n = (if n < 16 then [hex_char n] else hex_digits (n div 16) @ [hex_char (n mod 16)])"

definition hex32 :: "nat \<Rightarrow> string" where
  "hex32 n = ''0x'' @ pad_start 64 CHR ''0'' (hex_digits n)"

text \<open>The UI's \<open>ZERO_HASH\<close>, the bytes32 zero it shows for an absent query result.\<close>

definition ZERO_HASH :: string where
  "ZERO_HASH = ''0x'' @ replicate 64 CHR ''0''"

text \<open>
  The reference for a bytes32 value printed as hex: exactly \<open>k\<close> digits, most
  significant first, as \<open>ethers.toBeHex(v, 32)\<close> lays out 32 bytes.
\<close>

primrec hex_fixed :: "nat \<Rightarrow> nat \<Rightarrow> string" where
  "hex_fixed 0 n = []"
| "hex_fixed (Suc k) n = hex_fixed k (n div 16) @ [hex_char (n mod 16)]"

declare dec_digits.simps [simp del] hex_digits.simps [simp del]


lemma is_digit_digit_char: "d < 10 \<Longrightarrow> is_digit (digit_char d)"
  by (simp add: is_digit_def digit_char_def of_char_of)

lemma of_char_digit_char: "d < 10 \<Longrightarrow> of_char (digit_char d) - 48 = (d :: nat)"
  by (simp add: digit_char_def of_char_of)

lemma dec_digits_all_digits: "list_all is_digit (dec_digits n)"
proof (induction n rule: dec_digits.induct)
  case (1 n)
  then show ?case
    by (subst dec_digits.simps) (simp add: is_digit_digit_char)
qed

lemma dec_digits_not_Nil [simp]: "dec_digits n \<noteq> []"
  by (subst dec_digits.simps) simp

lemma dec_val_snoc: "dec_val (xs @ [c]) = 10 * dec_val xs + (of_char c - 48)"
  by (simp add: dec_val_def)

lemma dec_val_Nil [simp]: "dec_val [] = 0"
  by (simp add: dec_val_def)

lemma dec_val_append: "dec_val (xs @ ys) = dec_val xs * 10 ^ length ys + dec_val ys"
proof (induction ys rule: rev_induct)
  case Nil
  then show ?case by simp
next
  case (snoc y ys)
  have "dec_val (xs @ ys @ [y]) = 10 * dec_val (xs @ ys) + (of_char y - 48)"
    using dec_val_snoc [of "xs @ ys" y] by simp
  also have "\<dots> = dec_val xs * 10 ^ length (ys @ [y]) + dec_val (ys @ [y])"
    using snoc by (simp add: dec_val_snoc algebra_simps)
  finally show ?case by simp
qed

lemma dec_val_dec_digits [simp]: "dec_val (dec_digits n) = n"
proof (induction n rule: dec_digits.induct)
  case (1 n)
  show ?case
  proof (cases "n < 10")
    case True
    then show ?thesis
      by (subst dec_digits.simps) (simp add: dec_val_def of_char_digit_char)
  next
    case False
    with "1" have "dec_val (dec_digits (n div 10)) = n div 10" by simp
    with False show ?thesis
      by (subst dec_digits.simps) (simp add: dec_val_snoc of_char_digit_char)
  qed
qed

lemma length_dec_digits: "n < 10 ^ Suc k \<Longrightarrow> length (dec_digits n) \<le> Suc k"
proof (induction n arbitrary: k rule: dec_digits.induct)
  case (1 n)
  show ?case
  proof (cases "n < 10")
    case True
    then show ?thesis by (subst dec_digits.simps) simp
  next
    case False
    then obtain j where k: "k = Suc j"
      using "1.prems" by (cases k) auto
    with "1.prems" have "n div 10 < 10 ^ Suc j" by simp
    with False "1.IH" have "length (dec_digits (n div 10)) \<le> Suc j" by simp
    with False k show ?thesis by (subst dec_digits.simps) simp
  qed
qed

lemma dec_val_replicate_zero [simp]: "dec_val (replicate m CHR ''0'') = 0"
  by (induction m) (simp_all add: dec_val_def)

lemma strip_trailing_zeros_app:
  "strip_trailing_zeros s @ replicate (length s - length (strip_trailing_zeros s)) CHR ''0'' = s"
proof -
  let ?z = "\<lambda>c. c = CHR ''0''"
  let ?T = "takeWhile ?z (rev s)" and ?D = "dropWhile ?z (rev s)"
  have split: "rev s = ?T @ ?D" by simp
  then have len: "length s - length ?D = length ?T"
    by (metis add_diff_cancel_right' length_append length_rev)
  have T: "replicate (length ?T) CHR ''0'' = ?T"
    by (rule replicate_length_same) (auto dest: set_takeWhileD)
  then have "rev ?T = ?T"
    by (metis rev_replicate)
  then have "rev ?D @ ?T = s"
    by (metis split rev_append rev_rev_ident)
  with len T show ?thesis
    by (simp add: strip_trailing_zeros_def)
qed

lemma strip_trailing_zeros_length: "length (strip_trailing_zeros s) \<le> length s"
  using length_dropWhile_le [of _ "rev s"] by (simp add: strip_trailing_zeros_def)

lemma strip_trailing_zeros_digits:
  "list_all is_digit s \<Longrightarrow> list_all is_digit (strip_trailing_zeros s)"
  by (auto simp: strip_trailing_zeros_def list_all_iff dest: set_dropWhileD)

lemma dec_val_leading_zeros [simp]: "dec_val (replicate m CHR ''0'' @ s) = dec_val s"
  by (simp add: dec_val_append)

lemma is_digit_not_dot [simp]: "\<not> is_digit CHR ''.''"
  by (simp add: is_digit_def)

lemma is_digit_not_minus [simp]: "\<not> is_digit CHR ''-''"
  by (simp add: is_digit_def)

lemma split_digits_digits:
  assumes "list_all is_digit W" and "list_all is_digit F"
  shows "split_digits (W @ (if F \<noteq> [] then CHR ''.'' # F else [])) = Some (W, F)"
proof -
  have tw: "takeWhile is_digit (W @ X) = W" "dropWhile is_digit (W @ X) = X"
    if "X = [] \<or> (\<exists>Y. X = CHR ''.'' # Y)" for X
    using assms(1) that by (auto simp: list_all_iff takeWhile_append dropWhile_append)
  show ?thesis
  proof (cases "F = []")
    case True
    then show ?thesis using tw [of "[]"] by (simp add: split_digits_def)
  next
    case False
    then show ?thesis using tw [of "CHR ''.'' # F"] assms(2) by (simp add: split_digits_def)
  qed
qed

lemma split_fixed_digits:
  assumes "list_all is_digit W" and "W \<noteq> []" and "list_all is_digit F"
  shows "split_fixed ((if neg then ''-'' else []) @ W @ (if F \<noteq> [] then CHR ''.'' # F else []))
       = Some (neg, W, F)"
proof -
  have "take 1 (W @ X) \<noteq> ''-''" for X
    using assms(1,2) by (cases W) auto
  then show ?thesis
    using split_digits_digits [OF assms(1,3)] by (simp add: split_fixed_def)
qed

lemma is_digit_zero [simp]: "is_digit CHR ''0''"
  by (simp add: is_digit_def)

lemma pad_start_facts:
  assumes "r < 1000000"
  defines "P \<equiv> pad_start 6 CHR ''0'' (dec_digits r)"
  shows "length P = 6" and "list_all is_digit P" and "dec_val P = r"
proof -
  have "length (dec_digits r) \<le> 6"
    using length_dec_digits [of r 5] assms(1) by simp
  then show "length P = 6" by (simp add: P_def pad_start_def)
  show "list_all is_digit P"
    using dec_digits_all_digits [of r] by (auto simp: P_def pad_start_def list_all_iff)
  show "dec_val P = r" by (simp add: P_def pad_start_def)
qed

lemma take_strip_pad:
  assumes "length P = n"
  shows "take n (strip_trailing_zeros P @ replicate n CHR ''0'') = P"
proof -
  let ?F = "strip_trailing_zeros P"
  have "P = ?F @ replicate (n - length ?F) CHR ''0''"
    using strip_trailing_zeros_app [of P] assms by simp
  moreover have "length ?F \<le> n" using strip_trailing_zeros_length [of P] assms by simp
  ultimately show ?thesis
    by (simp add: min_def)
qed

lemma parse_units_formatCcoinUnits_scaled:
  "parse_units (6 + j) (formatCcoinUnits u) = Inr (u * 10 ^ j)"
proof -
  define A where "A = nat \<bar>u\<bar>"
  define P where "P = pad_start 6 CHR ''0'' (dec_digits (A mod 1000000))"
  define F where "F = strip_trailing_zeros P"
  define W where "W = dec_digits (A div 1000000)"
  have r: "A mod 1000000 < 1000000" by simp
  note PF = pad_start_facts [OF r, folded P_def]
  have F6: "length F \<le> 6" using strip_trailing_zeros_length [of P] PF(1) by (simp add: F_def)
  have Fd: "list_all is_digit F" using strip_trailing_zeros_digits [OF PF(2)] by (simp add: F_def)
  have Wd: "list_all is_digit W" "W \<noteq> []" using dec_digits_all_digits by (simp_all add: W_def)
  have fmt: "formatCcoinUnits u = (if u < 0 then ''-'' else []) @ W @ (if F \<noteq> [] then CHR ''.'' # F else [])"
    by (simp add: formatCcoinUnits_def Let_def A_def P_def F_def W_def)
  have "P = F @ replicate (6 - length F) CHR ''0''"
    using strip_trailing_zeros_app [of P] PF(1) by (simp add: F_def)
  hence "F @ replicate (6 + j) CHR ''0'' = P @ replicate (length F + j) CHR ''0''"
    using F6 by (simp add: replicate_add [symmetric])
  hence dp: "take (6 + j) (F @ replicate (6 + j) CHR ''0'') = P @ replicate j CHR ''0''"
    using PF(1) by simp
  have val0: "dec_val (W @ P) = A"
    using PF(1,3) by (simp add: W_def dec_val_append)
  have val: "dec_val (W @ P @ replicate j CHR ''0'') = A * 10 ^ j"
    using val0 dec_val_append [of "W @ P" "replicate j CHR ''0''"] by simp
  have drop: "drop (6 + j) F = []" using F6 by simp
  show ?thesis
    using split_fixed_digits [OF Wd(1,2) Fd, of "u < 0"] fmt dp val drop Wd(2)
    by (simp add: parse_units_def A_def)
qed

lemma parse_units_formatCcoinUnits: "parse_units 6 (formatCcoinUnits u) = Inr u"
  using parse_units_formatCcoinUnits_scaled [of 0 u] by simp

text \<open>
  C5: The UI's cCoin formatter is exact: for every amount of reward units, positive,
  zero or negative, reading the displayed text back with 6 decimals (ethers'
  \<open>parseUnits(text, 6)\<close>) gives the amount again, so no digit is lost or invented by
  the padding and the trailing-zero trimming.
\<close>

theorem formatCcoinUnits_roundtrip: "parse_units 6 (formatCcoinUnits u) = Inr u"
  by (rule parse_units_formatCcoinUnits)

subsection \<open>Printing handles\<close>

lemma hex_digits_small: "n < 16 \<Longrightarrow> hex_digits n = [hex_char n]"
  by (simp add: hex_digits.simps)

lemma hex_digits_big: "16 \<le> n \<Longrightarrow> hex_digits n = hex_digits (n div 16) @ [hex_char (n mod 16)]"
  by (simp add: hex_digits.simps [of n])

lemma hex_char_zero: "hex_char 0 = CHR ''0''"
  by (simp add: hex_char_def char_of_def bit_0)

lemma hex_char_eq_zero: "d < 16 \<Longrightarrow> hex_char d = CHR ''0'' \<longleftrightarrow> d = 0"
  by (auto simp: hex_char_zero) (auto simp: hex_char_def dest: arg_cong [where f = "of_char :: char \<Rightarrow> nat"] simp: of_char_of split: if_splits)

lemma hex_digits_zeros: "set (hex_digits n) \<subseteq> {CHR ''0''} \<Longrightarrow> n = 0"
proof (induction n rule: hex_digits.induct)
  case (1 n)
  show ?case
  proof (cases "n < 16")
    case True
    thus ?thesis using "1.prems" hex_char_eq_zero [of n] by (simp add: hex_digits_small)
  next
    case False
    hence "set (hex_digits (n div 16)) \<subseteq> {CHR ''0''}" "hex_char (n mod 16) = CHR ''0''"
      using "1.prems" by (simp_all add: hex_digits_big)
    hence "n div 16 = 0" "n mod 16 = 0" using "1.IH" False hex_char_eq_zero [of "n mod 16"] by simp_all
    thus ?thesis by (metis div_mult_mod_eq mult_0 add_0)
  qed
qed

text \<open>
  Comparing a printed handle with \<open>ZERO_HASH\<close>, as the UI's handlers do, is testing
  the handle for zero.
\<close>

lemma hex32_ZERO_HASH_iff: "hex32 h = ZERO_HASH \<longleftrightarrow> h = 0"
proof
  assume "hex32 h = ZERO_HASH"
  hence "replicate (64 - length (hex_digits h)) CHR ''0'' @ hex_digits h = replicate 64 CHR ''0''"
    by (simp add: hex32_def ZERO_HASH_def pad_start_def)
  hence "set (hex_digits h) \<subseteq> set (replicate 64 CHR ''0'')"
    by (metis set_append sup.cobounded2)
  thus "h = 0" by (intro hex_digits_zeros) auto
next
  assume "h = 0"
  thus "hex32 h = ZERO_HASH"
    by (simp add: hex32_def ZERO_HASH_def pad_start_def hex_digits_small hex_char_zero
        replicate_append_same numeral_eq_Suc)
qed

lemma hex_fixed_pad:
  "0 < k \<Longrightarrow> n < 16 ^ k \<Longrightarrow> hex_fixed k n = replicate (k - length (hex_digits n)) CHR ''0'' @ hex_digits n"
proof (induction k arbitrary: n)
  case 0
  then show ?case by simp
next
  case (Suc k)
  show ?case
  proof (cases "k = 0")
    case True
    with Suc.prems show ?thesis by (simp add: hex_digits_small)
  next
    case False
    have lt: "n div 16 < 16 ^ k"
      using Suc.prems(2) by (simp add: less_mult_imp_div_less mult.commute)
    have ih: "hex_fixed k (n div 16) = replicate (k - length (hex_digits (n div 16))) CHR ''0'' @ hex_digits (n div 16)"
      using Suc.IH [OF _ lt] False by simp
    show ?thesis
    proof (cases "n < 16")
      case True
      have "hex_fixed k (n div 16) = replicate k CHR ''0''"
        using ih True False hex_char_zero by (cases k) (simp_all add: hex_digits_small replicate_append_same)
      with True False show ?thesis
        by (simp add: hex_digits_small)
    next
      case False
      with ih show ?thesis
        by (simp add: hex_digits_big)
    qed
  qed
qed

lemma length_hex_fixed [simp]: "length (hex_fixed k n) = k"
  by (induction k arbitrary: n) simp_all

end
