(* ===== verification/Client.thy ===== *)
theory Client
  imports Chain Units
begin

text \<open>
  The web UI, \<open>src/ui/src/components/StakingApp.tsx\<close> with its configuration
  \<open>src/ui/src/config/contracts.ts\<close>. The component's React state is the record \<open>ui\<close>:
  the amount field, the busy tag, the error banner, the two decrypted values and the data
  of the three contract queries (\<open>useReadContract\<close>; \<open>None\<close> is \<open>undefined\<close>, shown as
  \<open>ZERO_HASH\<close>). The wallet and the Zama relayer SDK are the \<open>session\<close>. Each click
  handler is one function from the UI state and the chain to the next ones; it runs
  \<open>setError(null); setBusy(tag); try {...} catch (e) { setError(msg || default) }
  finally { setBusy(null) }\<close> (\<open>run_handler\<close>) around its body, whose \<open>throw\<close>s are the
  \<open>Inl\<close> results. Its transactions go through \<open>send_tx\<close>; the relayer's user decryption
  reads the backend's plaintext and its public decryption is the oracle of theory
  \<open>Verifier\<close>. The text of errors raised inside ethers and the relayer is not the
  libraries' exact wording: only whether and where an error is raised is modelled.
\<close>

subsection \<open>Configuration and session\<close>

text \<open>
  \<open>contracts.ts\<close>: the addresses and ABIs the UI calls. The committed file holds
  placeholders with empty ABIs; \<open>cfg_abi_loaded\<close> says whether the ABIs name the
  contracts' functions.
\<close>

record ui_config =
  cfg_chain_id :: nat
  cfg_ccoin_address :: addr
  cfg_staking_address :: addr
  cfg_abi_loaded :: bool

definition contracts_ts :: ui_config where
  "contracts_ts =
     \<lparr>cfg_chain_id = 11155111,
      cfg_ccoin_address = 0x9CfdCcC596f147bd8aE6CE988e3427cC481c17cf,
      cfg_staking_address = 0x7bB94948F79008DF7f9B825Fd83d562535950f76,
      cfg_abi_loaded = False\<rparr>"

text \<open>
  \<open>wagmi.ts\<close>: the wallet client's configuration. The chains it connects to (\<open>sepolia.id\<close>
  is 11155111), its connectors, the JSON-RPC URL of each chain's transport, whether the
  connection state persists across page loads (\<open>noopStorage\<close>: it does not) and
  server-side rendering.
\<close>

record wagmi_cfg =
  wg_chains :: "nat list"
  wg_connectors :: "string list"
  wg_transports :: "nat \<rightharpoonup> string"
  wg_persist :: bool
  wg_ssr :: bool

definition SEPOLIA_RPC_URL :: string where
  "SEPOLIA_RPC_URL = ''https://ethereum-sepolia-rpc.publicnode.com''"

definition wagmi_config :: wagmi_cfg where
  "wagmi_config =
     \<lparr>wg_chains = [11155111], wg_connectors = [''injected''],
      wg_transports = [11155111 \<mapsto> SEPOLIA_RPC_URL], wg_persist = False, wg_ssr = False\<rparr>"

text \<open>A configuration regenerated for a deployment (the comment's \<open>task:sync-ui\<close>).\<close>

definition config_synced :: "ui_config \<Rightarrow> world \<Rightarrow> bool" where
  "config_synced cfg w \<longleftrightarrow> cfg_abi_loaded cfg \<and> cfg_staking_address cfg = w_stk_addr w
     \<and> cfg_ccoin_address cfg = w_coin_addr w"

text \<open>\<open>useAccount\<close>, \<open>useZamaInstance\<close>: the connected address and the relayer instance.\<close>

record session =
  ses_address :: "addr option"
  ses_zama_loading :: bool
  ses_instance :: bool

record ui =
  stakeEth :: string
  busy :: "string option"
  uerror :: "string option"
  decryptedStakeMicroEth :: "int option"
  decryptedCcoinUnits :: "int option"
  stakeCipher :: "handle option"
  pendingWithdrawCipher :: "handle option"
  ccoinBalanceCipher :: "handle option"

definition ui_init :: ui where
  "ui_init =
     \<lparr>stakeEth = ''0.1'', busy = None, uerror = None, decryptedStakeMicroEth = None,
      decryptedCcoinUnits = None, stakeCipher = None, pendingWithdrawCipher = None,
      ccoinBalanceCipher = None\<rparr>"

definition isConfigured :: bool where
  "isConfigured = True"

subsection \<open>Queries\<close>

text \<open>
  A query runs when connected and configured; with an ABI that lacks the function it
  fails and its data stays \<open>undefined\<close>.
\<close>

definition read_query :: "ui_config \<Rightarrow> session \<Rightarrow> (world \<Rightarrow> addr \<Rightarrow> handle) \<Rightarrow> world \<Rightarrow> handle option" where
  "read_query cfg ses f w =
     (if isConfigured \<and> cfg_abi_loaded cfg then map_option (f w) (ses_address ses) else None)"

definition refetch_stake :: "ui_config \<Rightarrow> session \<Rightarrow> world \<Rightarrow> ui \<Rightarrow> ui" where
  "refetch_stake cfg ses w u = u\<lparr>stakeCipher := read_query cfg ses getEncryptedStakedMicroEth w\<rparr>"

definition refetch_pending :: "ui_config \<Rightarrow> session \<Rightarrow> world \<Rightarrow> ui \<Rightarrow> ui" where
  "refetch_pending cfg ses w u = u\<lparr>pendingWithdrawCipher := read_query cfg ses getPendingWithdrawCipher w\<rparr>"

definition refetch_ccoin :: "ui_config \<Rightarrow> session \<Rightarrow> world \<Rightarrow> ui \<Rightarrow> ui" where
  "refetch_ccoin cfg ses w u = u\<lparr>ccoinBalanceCipher := read_query cfg ses coinBalanceOf w\<rparr>"

text \<open>\<open>(query.data as string | undefined) ?? ZERO_HASH\<close>.\<close>

definition shown_handle :: "handle option \<Rightarrow> handle" where
  "shown_handle q = (case q of None \<Rightarrow> 0 | Some h \<Rightarrow> h)"

subsection \<open>Calls\<close>

definition getSigner :: "session \<Rightarrow> string + addr" where
  "getSigner ses = (case ses_address ses of None \<Rightarrow> Inl ''Wallet not connected'' | Some a \<Rightarrow> Inr a)"

fun error_name :: "error \<Rightarrow> string" where
  "error_name InvalidAmount = ''InvalidAmount''"
| "error_name Unauthorized = ''Unauthorized''"
| "error_name AlreadySet = ''AlreadySet''"
| "error_name NoStake = ''NoStake''"
| "error_name NoPendingWithdrawal = ''NoPendingWithdrawal''"
| "error_name WithdrawalAlreadyPending = ''WithdrawalAlreadyPending''"
| "error_name InvalidProof = ''InvalidProof''"
| "error_name TransferFailed = ''TransferFailed''"

fun tx_message :: "tx_error \<Rightarrow> string" where
  "tx_message (Reverted e) = ''execution reverted: '' @ error_name e"
| "tx_message InsufficientFunds = ''insufficient funds''"

text \<open>
  \<open>staking.f(...)\<close> then \<open>tx.wait()\<close>. With an ABI that lacks \<open>f\<close> the call is a
  \<open>TypeError\<close>; ethers refuses a negative \<open>value\<close> before sending.
\<close>

definition contract_call :: "ui_config \<Rightarrow> string \<Rightarrow> addr \<Rightarrow> tx \<Rightarrow> world \<Rightarrow> string + world" where
  "contract_call cfg fname signer t w =
     (if \<not> cfg_abi_loaded cfg then Inl (''staking.'' @ fname @ '' is not a function'')
      else case send_tx signer t w of Inl e \<Rightarrow> Inl (tx_message e) | Inr w' \<Rightarrow> Inr w')"

definition stake_call :: "ui_config \<Rightarrow> addr \<Rightarrow> int \<Rightarrow> world \<Rightarrow> string + world" where
  "stake_call cfg signer value w =
     (if value < 0 then Inl ''value must be non-negative''
      else contract_call cfg ''stake'' signer (ToStaking (CallStake (nat value))) w)"

text \<open>JavaScript's BigInt remainder: the sign of the dividend.\<close>

definition js_rem :: "int \<Rightarrow> int \<Rightarrow> int" where
  "js_rem a b = sgn a * (\<bar>a\<bar> mod \<bar>b\<bar>)"

text \<open>\<open>userDecrypt(handle, contractAddress)\<close>: the relayer returns the plaintext.\<close>

definition userDecrypt :: "session \<Rightarrow> handle \<Rightarrow> world \<Rightarrow> string + int" where
  "userDecrypt ses h w =
     (if \<not> ses_instance ses then Inl ''Encryption service not ready''
      else if ses_address ses = None then Inl ''Wallet not connected''
      else Inr (int (unat (fhe_dec (w_fhe w) h))))"

subsection \<open>Handlers\<close>

definition run_handler ::
  "string \<Rightarrow> string \<Rightarrow> (ui \<Rightarrow> world \<Rightarrow> string + ui \<times> world) \<Rightarrow> ui \<Rightarrow> world \<Rightarrow> ui \<times> world" where
  "run_handler tag dflt body u w =
     (let u0 = u\<lparr>uerror := None, busy := Some tag\<rparr> in
      case body u0 w of
        Inl m \<Rightarrow> (u0\<lparr>uerror := Some (if m = [] then dflt else m), busy := None\<rparr>, w)
      | Inr (u1, w1) \<Rightarrow> (u1\<lparr>busy := None\<rparr>, w1))"

definition onStake_try :: "ui_config \<Rightarrow> session \<Rightarrow> ui \<Rightarrow> world \<Rightarrow> string + ui \<times> world" where
  "onStake_try cfg ses u w =
     (rbind (getSigner ses) (\<lambda>a.
       rbind (parseEther (stakeEth u)) (\<lambda>value.
         if value = 0 \<or> js_rem value (int micro_unit) \<noteq> 0
         then Inl ''Amount must be a multiple of 0.000001 ETH''
         else rbind (stake_call cfg a value w) (\<lambda>w'.
           Inr (refetch_pending cfg ses w' (refetch_ccoin cfg ses w' (refetch_stake cfg ses w' u)), w')))))"

definition onStake :: "ui_config \<Rightarrow> session \<Rightarrow> ui \<Rightarrow> world \<Rightarrow> ui \<times> world" where
  "onStake cfg ses = run_handler ''staking'' ''Failed to stake'' (onStake_try cfg ses)"

definition onClaim_try :: "ui_config \<Rightarrow> session \<Rightarrow> ui \<Rightarrow> world \<Rightarrow> string + ui \<times> world" where
  "onClaim_try cfg ses u w =
     (rbind (getSigner ses) (\<lambda>a.
       rbind (contract_call cfg ''claimInterest'' a (ToStaking CallClaimInterest) w) (\<lambda>w'.
         Inr (refetch_ccoin cfg ses w' u, w'))))"

definition onClaim :: "ui_config \<Rightarrow> session \<Rightarrow> ui \<Rightarrow> world \<Rightarrow> ui \<times> world" where
  "onClaim cfg ses = run_handler ''claim'' ''Failed to claim'' (onClaim_try cfg ses)"

definition onDecryptStake_try :: "session \<Rightarrow> ui \<Rightarrow> world \<Rightarrow> string + ui \<times> world" where
  "onDecryptStake_try ses u w =
     (let h = shown_handle (stakeCipher u) in
       if h = 0 then Inr (u\<lparr>decryptedStakeMicroEth := Some 0\<rparr>, w)
       else rbind (userDecrypt ses h w) (\<lambda>c. Inr (u\<lparr>decryptedStakeMicroEth := Some c\<rparr>, w)))"

definition onDecryptStake :: "session \<Rightarrow> ui \<Rightarrow> world \<Rightarrow> ui \<times> world" where
  "onDecryptStake ses = run_handler ''decryptStake'' ''Failed to decrypt stake'' (onDecryptStake_try ses)"

definition onDecryptCcoin_try :: "session \<Rightarrow> ui \<Rightarrow> world \<Rightarrow> string + ui \<times> world" where
  "onDecryptCcoin_try ses u w =
     (let h = shown_handle (ccoinBalanceCipher u) in
       if h = 0 then Inr (u\<lparr>decryptedCcoinUnits := Some 0\<rparr>, w)
       else rbind (userDecrypt ses h w) (\<lambda>c. Inr (u\<lparr>decryptedCcoinUnits := Some c\<rparr>, w)))"

definition onDecryptCcoin :: "session \<Rightarrow> ui \<Rightarrow> world \<Rightarrow> ui \<times> world" where
  "onDecryptCcoin ses = run_handler ''decryptCcoin'' ''Failed to decrypt balance'' (onDecryptCcoin_try ses)"

definition onRequestWithdraw_try :: "ui_config \<Rightarrow> session \<Rightarrow> ui \<Rightarrow> world \<Rightarrow> string + ui \<times> world" where
  "onRequestWithdraw_try cfg ses u w =
     (rbind (getSigner ses) (\<lambda>a.
       rbind (contract_call cfg ''requestWithdrawAll'' a (ToStaking CallRequestWithdrawAll) w) (\<lambda>w'.
         Inr (refetch_pending cfg ses w' u, w'))))"

definition onRequestWithdraw :: "ui_config \<Rightarrow> session \<Rightarrow> ui \<Rightarrow> world \<Rightarrow> ui \<times> world" where
  "onRequestWithdraw cfg ses = run_handler ''requestWithdraw'' ''Failed to request withdraw'' (onRequestWithdraw_try cfg ses)"

definition onFinalizeWithdraw_try :: "ui_config \<Rightarrow> session \<Rightarrow> ui \<Rightarrow> world \<Rightarrow> string + ui \<times> world" where
  "onFinalizeWithdraw_try cfg ses u w =
     (if \<not> ses_instance ses then Inl ''Encryption service not ready''
       else rbind (getSigner ses) (\<lambda>a.
         let h = shown_handle (pendingWithdrawCipher u) in
         if h = 0 then Inl ''No pending withdraw request''
         else case publicDecrypt (w_kms w) (w_fhe w) [h] of
           None \<Rightarrow> Inl ''public decryption refused''
         | Some d \<Rightarrow>
             (case clear_value d h of
               None \<Rightarrow> Inl ''invalid BigNumberish value''
             | Some v \<Rightarrow>
                 rbind (contract_call cfg ''finalizeWithdrawAll'' a
                          (ToStaking (CallFinalizeWithdrawAll h v (decryptionProof d))) w) (\<lambda>w'.
                   Inr (refetch_pending cfg ses w' (refetch_stake cfg ses w'
                          (u\<lparr>decryptedStakeMicroEth := None\<rparr>)), w')))))"

definition onFinalizeWithdraw :: "ui_config \<Rightarrow> session \<Rightarrow> ui \<Rightarrow> world \<Rightarrow> ui \<times> world" where
  "onFinalizeWithdraw cfg ses = run_handler ''finalizeWithdraw'' ''Failed to finalize withdraw'' (onFinalizeWithdraw_try cfg ses)"

subsection \<open>Buttons\<close>

text \<open>The \<open>disabled\<close> conditions of the six buttons: a handler runs only when enabled.\<close>

datatype ui_action = ActStake | ActClaim | ActDecryptStake | ActDecryptCcoin | ActRequestWithdraw | ActFinalizeWithdraw

fun enabled :: "session \<Rightarrow> ui \<Rightarrow> ui_action \<Rightarrow> bool" where
  "enabled ses u ActDecryptStake =
     (ses_address ses \<noteq> None \<and> \<not> ses_zama_loading ses \<and> ses_instance ses \<and> isConfigured \<and> busy u = None)"
| "enabled ses u ActDecryptCcoin =
     (ses_address ses \<noteq> None \<and> \<not> ses_zama_loading ses \<and> ses_instance ses \<and> isConfigured \<and> busy u = None)"
| "enabled ses u ActFinalizeWithdraw =
     (ses_address ses \<noteq> None \<and> \<not> ses_zama_loading ses \<and> ses_instance ses \<and> isConfigured \<and> busy u = None)"
| "enabled ses u _ = (ses_address ses \<noteq> None \<and> \<not> ses_zama_loading ses \<and> isConfigured \<and> busy u = None)"

fun ui_handle :: "ui_config \<Rightarrow> session \<Rightarrow> ui_action \<Rightarrow> ui \<Rightarrow> world \<Rightarrow> ui \<times> world" where
  "ui_handle cfg ses ActStake = onStake cfg ses"
| "ui_handle cfg ses ActClaim = onClaim cfg ses"
| "ui_handle cfg ses ActDecryptStake = onDecryptStake ses"
| "ui_handle cfg ses ActDecryptCcoin = onDecryptCcoin ses"
| "ui_handle cfg ses ActRequestWithdraw = onRequestWithdraw cfg ses"
| "ui_handle cfg ses ActFinalizeWithdraw = onFinalizeWithdraw cfg ses"

subsection \<open>The page\<close>

text \<open>
  The rendered page, in document order: the \<open>Header\<close> component, the warning and error
  cards, then the Stake, Balances and Withdraw cards with their inputs, buttons (label
  and whether enabled), the handles shown in monospace and the value lines. Handles are
  the query data, 32-byte hex strings, or \<open>ZERO_HASH\<close>. The stake's clear value goes
  through \<open>microEthToEthString\<close> (IEEE-754 division and \<open>Number.toString\<close>), the
  parameter \<open>eth_str\<close> here; \<open>EthString\<close> models it and instantiates the page with it
  (\<open>stakingApp_page\<close>). \<open>zamaError\<close> is the relayer hook's error.
\<close>

datatype element =
    Title string
  | Subtitle string
  | ConnectButton
  | Card string string
  | Input string
  | Button string bool
  | Mono string
  | Line string

definition header_elements :: "element list" where
  "header_elements = [Title ''SecureAPR'', Subtitle ''Stake ETH privately, earn cCoin'', ConnectButton]"

definition busy_label :: "ui \<Rightarrow> string \<Rightarrow> string \<Rightarrow> string \<Rightarrow> string" where
  "busy_label u tag running idle = (if busy u = Some tag then running else idle)"

definition render :: "(int \<Rightarrow> string) \<Rightarrow> string option \<Rightarrow> session \<Rightarrow> ui \<Rightarrow> element list" where
  "render eth_str zamaError ses u =
     header_elements
     @ (if \<not> isConfigured then [Card ''Contracts not configured''
          ''Deploy to Sepolia and run npx hardhat task:sync-ui --networkName sepolia.''] else [])
     @ (case zamaError of Some e \<Rightarrow> [Card ''Encryption service error'' e] | None \<Rightarrow> [])
     @ (case uerror u of Some e \<Rightarrow> [Card ''Error'' e] | None \<Rightarrow> [])
     @ [Subtitle ''Stake'', Input (stakeEth u),
        Button (busy_label u ''staking'' ''Staking...'' ''Stake ETH'') (enabled ses u ActStake),
        Button (busy_label u ''claim'' ''Claiming...'' ''Claim interest'') (enabled ses u ActClaim),
        Line ''Minimum precision: 0.000001 ETH'',
        Subtitle ''Balances'', Subtitle ''Staked ETH (encrypted)'', Mono (hex32 (shown_handle (stakeCipher u))),
        Button (busy_label u ''decryptStake'' ''Decrypting...'' ''Decrypt'') (enabled ses u ActDecryptStake),
        Line (''Clear: '' @ (case decryptedStakeMicroEth u of None \<Rightarrow> ''-'' | Some x \<Rightarrow> eth_str x @ '' ETH'')),
        Subtitle ''cCoin balance (encrypted)'', Mono (hex32 (shown_handle (ccoinBalanceCipher u))),
        Button (busy_label u ''decryptCcoin'' ''Decrypting...'' ''Decrypt'') (enabled ses u ActDecryptCcoin),
        Line (''Clear: '' @ (case decryptedCcoinUnits u of None \<Rightarrow> ''-'' | Some x \<Rightarrow> formatCcoinUnits x @ '' cCoin'')),
        Subtitle ''Withdraw'', Subtitle ''Pending withdraw handle'', Mono (hex32 (shown_handle (pendingWithdrawCipher u))),
        Button (busy_label u ''requestWithdraw'' ''Requesting...'' ''Request withdraw'') (enabled ses u ActRequestWithdraw),
        Button (busy_label u ''finalizeWithdraw'' ''Finalizing...'' ''Finalize withdraw'') (enabled ses u ActFinalizeWithdraw),
        Line ''Finalize uses a public decryption proof to release ETH.'']"

subsection \<open>Configuration\<close>

text \<open>The wallet connects only to the chain \<open>contracts.ts\<close> names, over the configured RPC.\<close>

lemma wagmi_contracts_same_chain:
  "wg_chains wagmi_config = [cfg_chain_id contracts_ts]
   \<and> wg_transports wagmi_config (cfg_chain_id contracts_ts) = Some SEPOLIA_RPC_URL"
  by (simp add: wagmi_config_def contracts_ts_def)

subsection \<open>Properties of the handlers\<close>


lemma stake_Inl:
  "stake a v w = Inl e \<Longrightarrow> (e = InvalidAmount \<and> (v = 0 \<or> v mod micro_unit \<noteq> 0)) \<or> e = Unauthorized"
  by (auto simp: stake_def accrue_and_mint_def mint_def Let_def prod.case_eq_if split: if_splits)

lemma js_rem_eq_0: "js_rem v m = 0 \<longleftrightarrow> \<bar>v\<bar> mod \<bar>m\<bar> = 0 \<or> v = 0"
  by (auto simp: js_rem_def sgn_if)

lemma ui_guard_nat:
  assumes "0 \<le> v" and "\<not> (v = 0 \<or> js_rem v (int micro_unit) \<noteq> 0)"
  shows "nat v \<noteq> 0 \<and> nat v mod micro_unit = 0"
proof -
  have "v mod int micro_unit = 0" "v \<noteq> 0"
    using assms by (auto simp: js_rem_eq_0)
  moreover have "nat (v mod int micro_unit) = nat v mod micro_unit"
    using assms(1) by (simp add: nat_mod_distrib)
  ultimately show ?thesis
    using assms(1) by simp
qed

lemma parse_units_Inl:
  "parse_units d s = Inl m \<Longrightarrow> m = ''invalid FixedNumber string value'' \<or> m = ''too many decimals for format''"
  by (auto simp: parse_units_def Let_def split: option.splits if_splits)

lemma run_handler_Inl:
  "body (u\<lparr>uerror := None, busy := Some tag\<rparr>) w = Inl m \<Longrightarrow>
   run_handler tag d body u w = (u\<lparr>uerror := Some (if m = [] then d else m), busy := None\<rparr>, w)"
  by (simp add: run_handler_def)

lemma run_handler_Inr:
  "body (u\<lparr>uerror := None, busy := Some tag\<rparr>) w = Inr (u1, w1) \<Longrightarrow>
   run_handler tag d body u w = (u1\<lparr>busy := None\<rparr>, w1)"
  by (simp add: run_handler_def)

lemma error_name_InvalidAmount: "error_name e = ''InvalidAmount'' \<Longrightarrow> e = InvalidAmount"
  by (cases e) simp_all

lemma stake_call_Inl_not_invalid:
  assumes "stake_call cfg a v w = Inl m" and "v \<noteq> 0" and "js_rem v (int micro_unit) = 0"
  shows "m \<noteq> tx_message (Reverted InvalidAmount)"
proof (cases "v < 0")
  case True
  with assms(1) show ?thesis by (auto simp: stake_call_def)
next
  case False
  then have g: "nat v \<noteq> 0 \<and> nat v mod micro_unit = 0"
    using ui_guard_nat assms(2,3) by simp
  show ?thesis
  proof
    assume m: "m = tx_message (Reverted InvalidAmount)"
    with assms(1) False obtain e where "send_tx a (ToStaking (CallStake (nat v))) w = Inl e"
      and "tx_message e = tx_message (Reverted InvalidAmount)"
      by (auto simp: stake_call_def contract_call_def split: if_splits sum.splits)
    then have "exec_tx a (ToStaking (CallStake (nat v))) w = Inl InvalidAmount"
      by (cases e) (auto simp: send_tx_def dest: error_name_InvalidAmount split: if_splits sum.splits)
    then show False
      using g stake_Inl by fastforce
  qed
qed

text \<open>
  C3: The UI's amount check makes the contract's \<open>InvalidAmount\<close> revert unreachable:
  whatever the amount field holds, the wallet state and the chain, clicking "Stake ETH"
  never ends with the error banner showing an \<open>InvalidAmount\<close> revert, because
  \<open>onStake\<close> sends only positive multiples of one microETH.
\<close>

theorem onStake_never_InvalidAmount:
  "uerror (fst (onStake cfg ses u w)) \<noteq> Some (tx_message (Reverted InvalidAmount))"
proof -
  let ?u0 = "u\<lparr>uerror := None, busy := Some ''staking''\<rparr>"
  show ?thesis
  proof (cases "onStake_try cfg ses ?u0 w")
    case (Inl m)
    have "m \<noteq> tx_message (Reverted InvalidAmount)"
    proof (cases "getSigner ses")
      case (Inl m')
      with \<open>onStake_try cfg ses ?u0 w = Inl m\<close> show ?thesis
        by (auto simp: onStake_try_def getSigner_def split: option.splits)
    next
      case (Inr a)
      show ?thesis
      proof (cases "parseEther (stakeEth ?u0)")
        case (Inl m')
        with \<open>getSigner ses = Inr a\<close> \<open>onStake_try cfg ses ?u0 w = Inl m\<close> parse_units_Inl [of 18 "stakeEth u" m']
        show ?thesis by (auto simp: onStake_try_def parseEther_def)
      next
        case (Inr v)
        with \<open>getSigner ses = Inr a\<close> \<open>onStake_try cfg ses ?u0 w = Inl m\<close>
        show ?thesis
          by (auto simp: onStake_try_def rbind_eq_Inl dest: stake_call_Inl_not_invalid split: if_splits)
      qed
    qed
    with Inl show ?thesis
      by (simp add: onStake_def run_handler_Inl)
  next
    case (Inr r)
    then obtain u1 w1 where r: "r = (u1, w1)" by fastforce
    with Inr have "uerror u1 = None"
      by (auto simp: onStake_try_def rbind_eq_Inr refetch_stake_def refetch_ccoin_def
               refetch_pending_def split: if_splits)
    with Inr r show ?thesis
      by (simp add: onStake_def run_handler_Inr)
  qed
qed

lemma run_handler_fails:
  assumes "\<And>r. body (u\<lparr>uerror := None, busy := Some tag\<rparr>) w \<noteq> Inr r"
  shows "snd (run_handler tag d body u w) = w \<and> uerror (fst (run_handler tag d body u w)) \<noteq> None"
proof -
  obtain m where "body (u\<lparr>uerror := None, busy := Some tag\<rparr>) w = Inl m"
    using assms by (cases "body (u\<lparr>uerror := None, busy := Some tag\<rparr>) w") auto
  then show ?thesis by (simp add: run_handler_Inl)
qed

lemma contract_call_placeholder:
  "contract_call contracts_ts f a t w = Inl (''staking.'' @ f @ '' is not a function'')"
  by (simp add: contract_call_def contracts_ts_def)

lemma stake_call_placeholder: "stake_call contracts_ts a v w \<noteq> Inr w'"
  by (simp add: stake_call_def contract_call_placeholder)

text \<open>
  C35: With the committed \<open>contracts.ts\<close> (placeholder ABIs) and \<open>isConfigured\<close>
  hard-wired to true, every query reads \<open>undefined\<close> and every write handler of the UI
  fails with an error banner and leaves the chain unchanged, while no "Contracts not
  configured" warning is shown.
\<close>

theorem placeholder_config_breaks_ui:
  "snd (onStake contracts_ts ses u w) = w \<and> uerror (fst (onStake contracts_ts ses u w)) \<noteq> None
   \<and> snd (onClaim contracts_ts ses u w) = w \<and> uerror (fst (onClaim contracts_ts ses u w)) \<noteq> None
   \<and> snd (onRequestWithdraw contracts_ts ses u w) = w
   \<and> uerror (fst (onRequestWithdraw contracts_ts ses u w)) \<noteq> None
   \<and> snd (onFinalizeWithdraw contracts_ts ses u w) = w
   \<and> uerror (fst (onFinalizeWithdraw contracts_ts ses u w)) \<noteq> None
   \<and> read_query contracts_ts ses q w = None
   \<and> (\<forall>b. Card ''Contracts not configured'' b \<notin> set (render eth_str zerr ses u))"
proof -
  have "\<And>u r. onStake_try contracts_ts ses u w \<noteq> Inr r"
    by (auto simp: onStake_try_def rbind_eq_Inr stake_call_placeholder)
  moreover have "\<And>u r. onClaim_try contracts_ts ses u w \<noteq> Inr r"
    by (auto simp: onClaim_try_def rbind_eq_Inr contract_call_placeholder)
  moreover have "\<And>u r. onRequestWithdraw_try contracts_ts ses u w \<noteq> Inr r"
    by (auto simp: onRequestWithdraw_try_def rbind_eq_Inr contract_call_placeholder)
  moreover have "\<And>u r. onFinalizeWithdraw_try contracts_ts ses u w \<noteq> Inr r"
    by (auto simp: onFinalizeWithdraw_try_def rbind_eq_Inr contract_call_placeholder Let_def
             split: option.splits)
  ultimately show ?thesis
    by (simp add: onStake_def onClaim_def onRequestWithdraw_def onFinalizeWithdraw_def
        run_handler_fails read_query_def contracts_ts_def render_def header_elements_def isConfigured_def)
qed

lemma run_handler_idle:
  assumes "d \<noteq> []" and "\<And>u1 w1. body (u\<lparr>uerror := None, busy := Some tag\<rparr>) w = Inr (u1, w1) \<Longrightarrow> uerror u1 = None"
  shows "busy (fst (run_handler tag d body u w)) = None
    \<and> (case uerror (fst (run_handler tag d body u w)) of None \<Rightarrow> True | Some m \<Rightarrow> m \<noteq> [])"
  using assms by (cases "body (u\<lparr>uerror := None, busy := Some tag\<rparr>) w") (auto simp: run_handler_def Let_def)

lemma refetch_uerror [simp]:
  "uerror (refetch_stake cfg ses w u) = uerror u" "uerror (refetch_pending cfg ses w u) = uerror u"
  "uerror (refetch_ccoin cfg ses w u) = uerror u"
  by (simp_all add: refetch_stake_def refetch_pending_def refetch_ccoin_def)

text \<open>
  C6: Every click handler ends with the page idle again (\<open>busy\<close> is cleared on success
  and on failure, as the handlers' \<open>finally\<close> blocks do), so the buttons re-enable; and
  an error banner, when shown, is never empty (an empty message falls back to the
  handler's default text).
\<close>

theorem ui_handle_idle:
  "busy (fst (ui_handle cfg ses act u w)) = None
   \<and> (case uerror (fst (ui_handle cfg ses act u w)) of None \<Rightarrow> True | Some m \<Rightarrow> m \<noteq> [])"
proof (cases act)
  case ActStake
  show ?thesis
    unfolding ActStake ui_handle.simps onStake_def
    by (rule run_handler_idle) (auto simp: onStake_try_def rbind_eq_Inr split: if_splits)
next
  case ActClaim
  show ?thesis
    unfolding ActClaim ui_handle.simps onClaim_def
    by (rule run_handler_idle) (auto simp: onClaim_try_def rbind_eq_Inr)
next
  case ActDecryptStake
  show ?thesis
    unfolding ActDecryptStake ui_handle.simps onDecryptStake_def
    by (rule run_handler_idle) (auto simp: onDecryptStake_try_def rbind_eq_Inr Let_def split: if_splits)
next
  case ActDecryptCcoin
  show ?thesis
    unfolding ActDecryptCcoin ui_handle.simps onDecryptCcoin_def
    by (rule run_handler_idle) (auto simp: onDecryptCcoin_try_def rbind_eq_Inr Let_def split: if_splits)
next
  case ActRequestWithdraw
  show ?thesis
    unfolding ActRequestWithdraw ui_handle.simps onRequestWithdraw_def
    by (rule run_handler_idle) (auto simp: onRequestWithdraw_try_def rbind_eq_Inr)
next
  case ActFinalizeWithdraw
  show ?thesis
    unfolding ActFinalizeWithdraw ui_handle.simps onFinalizeWithdraw_def
    by (rule run_handler_idle) (auto simp: onFinalizeWithdraw_try_def rbind_eq_Inr Let_def split: if_splits option.splits)
qed

text \<open>
  C30: While a handler runs (\<open>busy\<close> is set), every button on the page is disabled, so
  no second action can start.
\<close>

theorem render_while_busy:
  assumes "busy u = Some t"
  shows "list_all (\<lambda>x. case x of Button l e \<Rightarrow> \<not> e | _ \<Rightarrow> True) (render eth_str zerr ses u)"
  using assms by (auto simp: render_def header_elements_def split: option.splits)

theorem render_while_busy_witness:
  "list_all (\<lambda>x. case x of Button l e \<Rightarrow> \<not> e | _ \<Rightarrow> True)
     (render (\<lambda>_. ''1'') None \<lparr>ses_address = Some 4, ses_zama_loading = False, ses_instance = True\<rparr>
       (ui_init\<lparr>busy := Some ''staking''\<rparr>))"
  by (rule render_while_busy) simp

lemma userDecrypt_range: "userDecrypt ses h w = Inr c \<Longrightarrow> 0 \<le> c \<and> c < 2 ^ 64"
  using unsigned_less [of "fhe_dec (w_fhe w) h"]
  by (auto simp: userDecrypt_def split: if_splits)

end
