(* ===== verification/Tasks.thy ===== *)
theory Tasks
  imports Client
begin

text \<open>
  The Hardhat tasks of \<open>src/tasks/SecureAPR.ts\<close>: command-line clients that act as the
  first signer on the deployed contracts (\<open>deployments.get\<close> gives the addresses
  \<open>w_coin_addr\<close> and \<open>w_stk_addr\<close>, the compiled ABIs are complete). A task either throws
  (\<open>Inl\<close>, its message) or ends with the lines it printed and the chain after its
  transaction. \<open>console.log(`Wait for tx:${tx.hash}...`)\<close> is the line \<open>LogTxWait\<close>: the
  transaction hash is not modelled. Handles print as 32-byte hex strings and decrypted
  values as decimal BigInts.
\<close>

datatype console = Log string | LogTxWait

text \<open>
  \<open>task:secureapr:addresses\<close>: \<open>deployments.get(name)\<close> reads the addresses
  hardhat-deploy saved under each contract name and throws when there is none; the task
  prints both. \<open>addr_str\<close> is ethers' printing of an address.
\<close>

definition task_addresses :: "(string \<rightharpoonup> addr) \<Rightarrow> (addr \<Rightarrow> string) \<Rightarrow> string + console list" where
  "task_addresses deployments addr_str =
     (case deployments ''ConfidentialCoin'' of
        None \<Rightarrow> Inl ''No deployment found for: ConfidentialCoin''
      | Some coin \<Rightarrow>
          (case deployments ''SecureAPRStaking'' of
             None \<Rightarrow> Inl ''No deployment found for: SecureAPRStaking''
           | Some staking \<Rightarrow>
               Inr [Log (''ConfidentialCoin: '' @ addr_str coin), Log (''SecureAPRStaking: '' @ addr_str staking)]))"

text \<open>\<open>contract.f(...)\<close> then \<open>tx.wait()\<close> through the task's signer; a revert throws.\<close>

definition task_send :: "addr \<Rightarrow> tx \<Rightarrow> world \<Rightarrow> string + world" where
  "task_send signer t w = (case send_tx signer t w of Inl e \<Rightarrow> Inl (tx_message e) | Inr w' \<Rightarrow> Inr w')"

definition task_stake :: "addr \<Rightarrow> string \<Rightarrow> world \<Rightarrow> string + console list \<times> world" where
  "task_stake signer eth w =
     rbind (parseEther eth) (\<lambda>value.
       if value < 0 then Inl ''value must be non-negative''
       else rbind (task_send signer (ToStaking (CallStake (nat value))) w) (\<lambda>w'.
         Inr ([LogTxWait, Log (''Staked '' @ eth @ '' ETH'')], w')))"

definition task_claim :: "addr \<Rightarrow> world \<Rightarrow> string + console list \<times> world" where
  "task_claim signer w =
     rbind (task_send signer (ToStaking CallClaimInterest) w) (\<lambda>w'.
       Inr ([LogTxWait, Log ''Interest claimed''], w'))"

definition task_decrypt_stake :: "addr \<Rightarrow> world \<Rightarrow> console list" where
  "task_decrypt_stake signer w =
     (let encrypted = getEncryptedStakedMicroEth w signer in
      if encrypted = 0
      then [Log (''Encrypted stake: '' @ hex32 encrypted), Log ''Clear stake (microETH): 0'']
      else [Log (''Encrypted stake: '' @ hex32 encrypted),
            Log (''Clear stake (microETH): '' @ dec_digits (unat (fhe_dec (w_fhe w) encrypted)))])"

definition task_decrypt_ccoin :: "addr \<Rightarrow> world \<Rightarrow> console list" where
  "task_decrypt_ccoin signer w =
     (let encrypted = coinBalanceOf w signer in
      if encrypted = 0
      then [Log (''Encrypted cCoin balance: '' @ hex32 encrypted), Log ''Clear cCoin balance (units): 0'']
      else [Log (''Encrypted cCoin balance: '' @ hex32 encrypted),
            Log (''Clear cCoin balance (units): '' @ dec_digits (unat (fhe_dec (w_fhe w) encrypted)))])"

definition task_request_withdraw :: "addr \<Rightarrow> world \<Rightarrow> string + console list \<times> world" where
  "task_request_withdraw signer w =
     rbind (task_send signer (ToStaking CallRequestWithdrawAll) w) (\<lambda>w'.
       Inr ([LogTxWait, Log ''Withdraw requested''], w'))"

text \<open>
  \<open>fhevm.publicDecrypt([pending])\<close>, \<open>decrypted.clearValues[pending]\<close>, then
  \<open>finalizeWithdrawAll(pending, clear, decrypted.decryptionProof)\<close> and \<open>tx.wait()\<close>:
  the finalization step the task and the withdrawal test share.
\<close>

definition oracle_finalize :: "addr \<Rightarrow> handle \<Rightarrow> world \<Rightarrow> string + world" where
  "oracle_finalize signer pending w =
     (case publicDecrypt (w_kms w) (w_fhe w) [pending] of
        None \<Rightarrow> Inl ''public decryption refused''
      | Some decrypted \<Rightarrow>
          (case clear_value decrypted pending of
            None \<Rightarrow> Inl ''invalid BigNumberish value''
          | Some clearMicroEth \<Rightarrow>
              task_send signer
                (ToStaking (CallFinalizeWithdrawAll pending clearMicroEth (decryptionProof decrypted))) w))"

definition task_finalize_withdraw :: "addr \<Rightarrow> world \<Rightarrow> string + console list \<times> world" where
  "task_finalize_withdraw signer w =
     (let pending = getPendingWithdrawCipher w signer in
      if pending = 0 then Inr ([Log ''No pending withdraw request.''], w)
      else rbind (oracle_finalize signer pending w) (\<lambda>w'. Inr ([LogTxWait, Log ''Withdraw finalized.''], w')))"

subsection \<open>Properties of the tasks\<close>

lemma task_send_unpaid:
  "tx_value t = 0 \<Longrightarrow> exec_tx s t w = Inr w' \<Longrightarrow> task_send s t w = Inr w'"
  by (simp add: task_send_def send_tx_unpaid)

lemma oracle_finalize_Inr:
  assumes wf: "world_wf w" and p: "s_pending (w_stk w) a = Some h"
    and pay: "w_payable w a" and ne: "a \<noteq> w_stk_addr w"
    and funds: "unat (fhe_dec (w_fhe w) h) * micro_unit \<le> w_eth w (w_stk_addr w)"
  shows "oracle_finalize a h w = Inr
    (w\<lparr>w_eth := (w_eth w)(w_stk_addr w := w_eth w (w_stk_addr w) - unat (fhe_dec (w_fhe w) h) * micro_unit,
                          a := w_eth w a + unat (fhe_dec (w_fhe w) h) * micro_unit),
      w_stk := (w_stk w)\<lparr>s_pending := (s_pending (w_stk w))(a := None)\<rparr>\<rparr>)"
  using world_wf_pending_public [OF wf p] finalizeWithdrawAll_Inr [OF p pay ne funds]
  by (simp add: oracle_finalize_def publicDecrypt_single clear_value_def task_send_unpaid)

text \<open>
  A pending request is finalized with the oracle's proof: the signer gets the decrypted
  stake in wei from the contract and the request is cleared.
\<close>

lemma task_finalize_withdraw_Inr:
  assumes wf: "world_wf w" and p: "s_pending (w_stk w) a = Some h"
    and pay: "w_payable w a" and ne: "a \<noteq> w_stk_addr w"
    and funds: "unat (fhe_dec (w_fhe w) h) * micro_unit \<le> w_eth w (w_stk_addr w)"
  shows "task_finalize_withdraw a w = Inr ([LogTxWait, Log ''Withdraw finalized.''],
    w\<lparr>w_eth := (w_eth w)(w_stk_addr w := w_eth w (w_stk_addr w) - unat (fhe_dec (w_fhe w) h) * micro_unit,
                          a := w_eth w a + unat (fhe_dec (w_fhe w) h) * micro_unit),
      w_stk := (w_stk w)\<lparr>s_pending := (s_pending (w_stk w))(a := None)\<rparr>\<rparr>)"
proof -
  have h: "0 < h" "h \<in> set (fpublic (w_fhe w))"
    using world_wf_pending_public [OF wf p] by simp_all
  have pend: "getPendingWithdrawCipher w a = h"
    using p by (simp add: getPendingWithdrawCipher_def)
  show ?thesis
    using oracle_finalize_Inr [OF wf p pay ne funds] h(1)
    by (simp add: task_finalize_withdraw_def pend)
qed

text \<open>
  C2: \<open>task:secureapr:finalize-withdraw\<close> completes a pending withdrawal: when the signer
  has a pending request, the staking contract holds the amount and the signer accepts
  ETH, the task succeeds, pays the signer exactly the decrypted stake in wei
  (microETH times \<open>10^12\<close>), takes it from the contract and clears the request.
\<close>

theorem task_finalize_withdraw_pays:
  assumes wf: "world_wf w" and p: "s_pending (w_stk w) a = Some h"
    and pay: "w_payable w a" and ne: "a \<noteq> w_stk_addr w"
    and funds: "unat (fhe_dec (w_fhe w) h) * micro_unit \<le> w_eth w (w_stk_addr w)"
  shows "\<exists>w'. task_finalize_withdraw a w = Inr ([LogTxWait, Log ''Withdraw finalized.''], w')
           \<and> w_eth w' a = w_eth w a + unat (fhe_dec (w_fhe w) h) * micro_unit
           \<and> w_eth w' (w_stk_addr w) = w_eth w (w_stk_addr w) - unat (fhe_dec (w_fhe w) h) * micro_unit
           \<and> getPendingWithdrawCipher w' a = 0"
  using task_finalize_withdraw_Inr [OF wf p pay ne funds] ne
  by (simp add: getPendingWithdrawCipher_def)

theorem task_finalize_withdraw_pays_witness:
  "\<exists>w'. task_finalize_withdraw 1
      \<lparr>w_fhe = \<lparr>fvals = [(1, 3)], fnext = 2, fpublic = [1]\<rparr>,
       w_coin = \<lparr>c_owner = 0, c_minter = Some 10, c_balances = (\<lambda>_. 0)\<rparr>,
       w_stk = \<lparr>s_stake = (\<lambda>_. 0), s_last = (\<lambda>_. 0), s_pending = (\<lambda>_. None)(1 := Some 1)\<rparr>,
       w_eth = (\<lambda>_. 0)(10 := 5000000000000), w_payable = (\<lambda>_. True), w_kms = 7,
       w_coin_addr = 9, w_stk_addr = 10, w_now = 0\<rparr>
      = Inr ([LogTxWait, Log ''Withdraw finalized.''], w')
    \<and> w_eth w' 1 = 3000000000000 \<and> w_eth w' 10 = 2000000000000 \<and> getPendingWithdrawCipher w' 1 = 0"
  using task_finalize_withdraw_pays
    [of "\<lparr>w_fhe = \<lparr>fvals = [(1, 3)], fnext = 2, fpublic = [1]\<rparr>,
       w_coin = \<lparr>c_owner = 0, c_minter = Some 10, c_balances = (\<lambda>_. 0)\<rparr>,
       w_stk = \<lparr>s_stake = (\<lambda>_. 0), s_last = (\<lambda>_. 0), s_pending = (\<lambda>_. None)(1 := Some 1)\<rparr>,
       w_eth = (\<lambda>_. 0)(10 := 5000000000000), w_payable = (\<lambda>_. True), w_kms = 7,
       w_coin_addr = 9, w_stk_addr = 10, w_now = 0\<rparr>" 1 1]
  by (simp add: world_wf_def fhe_wf_def coin_wf_def fhe_dec_def micro_unit_def)

lemma dec_digits_zero: "dec_digits 0 = ''0''"
  by (simp add: dec_digits.simps digit_char_def char_of_def bit_0)

text \<open>
  C28: The decrypt tasks print exactly the account's plaintext: on a well-formed world,
  \<open>task:secureapr:decrypt-stake\<close> and \<open>task:secureapr:decrypt-ccoin\<close> print the handle
  and the decimal of its plaintext, whether the handle is the zero hash (the early
  return printing 0) or one the relayer decrypts.
\<close>

theorem task_decrypt_prints_plaintext:
  assumes "world_wf w"
  shows "task_decrypt_stake a w = [Log (''Encrypted stake: '' @ hex32 (getEncryptedStakedMicroEth w a)),
           Log (''Clear stake (microETH): '' @ dec_digits (unat (a_stake (view w a))))]
    \<and> task_decrypt_ccoin a w = [Log (''Encrypted cCoin balance: '' @ hex32 (coinBalanceOf w a)),
           Log (''Clear cCoin balance (units): '' @ dec_digits (unat (a_balance (view w a))))]"
  using assms
  by (simp add: task_decrypt_stake_def task_decrypt_ccoin_def view_def getEncryptedStakedMicroEth_def
      coinBalanceOf_def confidentialBalanceOf_def dec_digits_zero world_wf_def Let_def)

theorem task_decrypt_prints_plaintext_witness:
  "task_decrypt_stake 4 \<lparr>w_fhe = \<lparr>fvals = [(1, 1000000)], fnext = 2, fpublic = []\<rparr>,
       w_coin = coin_init 0, w_stk = staking_init\<lparr>s_stake := (\<lambda>_. 0)(4 := 1)\<rparr>,
       w_eth = (\<lambda>_. 0), w_payable = (\<lambda>_. True), w_kms = 7, w_coin_addr = 2, w_stk_addr = 3, w_now = 0\<rparr> = [Log (''Encrypted stake: '' @ hex32 (getEncryptedStakedMicroEth \<lparr>w_fhe = \<lparr>fvals = [(1, 1000000)], fnext = 2, fpublic = []\<rparr>,
       w_coin = coin_init 0, w_stk = staking_init\<lparr>s_stake := (\<lambda>_. 0)(4 := 1)\<rparr>,
       w_eth = (\<lambda>_. 0), w_payable = (\<lambda>_. True), w_kms = 7, w_coin_addr = 2, w_stk_addr = 3, w_now = 0\<rparr> 4)),
       Log (''Clear stake (microETH): '' @ dec_digits (unat (a_stake (view \<lparr>w_fhe = \<lparr>fvals = [(1, 1000000)], fnext = 2, fpublic = []\<rparr>,
       w_coin = coin_init 0, w_stk = staking_init\<lparr>s_stake := (\<lambda>_. 0)(4 := 1)\<rparr>,
       w_eth = (\<lambda>_. 0), w_payable = (\<lambda>_. True), w_kms = 7, w_coin_addr = 2, w_stk_addr = 3, w_now = 0\<rparr> 4))))]
   \<and> task_decrypt_ccoin 4 \<lparr>w_fhe = \<lparr>fvals = [(1, 1000000)], fnext = 2, fpublic = []\<rparr>,
       w_coin = coin_init 0, w_stk = staking_init\<lparr>s_stake := (\<lambda>_. 0)(4 := 1)\<rparr>,
       w_eth = (\<lambda>_. 0), w_payable = (\<lambda>_. True), w_kms = 7, w_coin_addr = 2, w_stk_addr = 3, w_now = 0\<rparr> = [Log (''Encrypted cCoin balance: '' @ hex32 (coinBalanceOf \<lparr>w_fhe = \<lparr>fvals = [(1, 1000000)], fnext = 2, fpublic = []\<rparr>,
       w_coin = coin_init 0, w_stk = staking_init\<lparr>s_stake := (\<lambda>_. 0)(4 := 1)\<rparr>,
       w_eth = (\<lambda>_. 0), w_payable = (\<lambda>_. True), w_kms = 7, w_coin_addr = 2, w_stk_addr = 3, w_now = 0\<rparr> 4)),
       Log (''Clear cCoin balance (units): '' @ dec_digits (unat (a_balance (view \<lparr>w_fhe = \<lparr>fvals = [(1, 1000000)], fnext = 2, fpublic = []\<rparr>,
       w_coin = coin_init 0, w_stk = staking_init\<lparr>s_stake := (\<lambda>_. 0)(4 := 1)\<rparr>,
       w_eth = (\<lambda>_. 0), w_payable = (\<lambda>_. True), w_kms = 7, w_coin_addr = 2, w_stk_addr = 3, w_now = 0\<rparr> 4))))]"
  by (rule task_decrypt_prints_plaintext)
     (simp add: world_wf_def fhe_wf_def coin_wf_def coin_init_def staking_init_def)

end
