(* ===== verification/Deploy.thy ===== *)
theory Deploy
  imports Solvency Tasks
begin

text \<open>
  Deployment, \<open>src/deploy/secureapr.ts\<close> and the fixture of
  \<open>src/test/SecureAPRStaking.ts\<close>: deploy \<open>ConfidentialCoin\<close>, deploy
  \<open>SecureAPRStaking\<close> with the coin's address, then \<open>setMinter(staking)\<close> from the
  deployer. The new contracts' addresses are parameters (hardhat-deploy derives them from
  the deployer's nonce). \<open>deploy_run\<close> is the whole script against the saved
  deployments, which hardhat-deploy reuses; \<open>deploy_secureapr\<close> is its run on a chain
  without them (\<open>deploy_run_fresh\<close>). The worlds reachable from a
  deployment by transactions of external accounts and by the passing of time are the
  inductive predicate \<open>reachable\<close>; every reachable world satisfies the staking
  invariant of theory \<open>Solvency\<close>.
\<close>

record deploy_env =
  network_name :: string
  PRIVATE_KEY :: "string option"
  INFURA_API_KEY :: "string option"

text \<open>\<open>!process.env.X\<close>: unset or empty.\<close>

definition env_missing :: "string option \<Rightarrow> bool" where
  "env_missing x \<longleftrightarrow> (case x of None \<Rightarrow> True | Some v \<Rightarrow> v = [])"

definition deploy_contracts :: "addr \<Rightarrow> addr \<Rightarrow> addr \<Rightarrow> world \<Rightarrow> world" where
  "deploy_contracts deployer coin_addr stk_addr w =
     w\<lparr>w_coin := coin_init deployer, w_stk := staking_init,
       w_coin_addr := coin_addr, w_stk_addr := stk_addr\<rparr>"

definition deploy_secureapr :: "deploy_env \<Rightarrow> addr \<Rightarrow> addr \<Rightarrow> addr \<Rightarrow> world \<Rightarrow> string + world" where
  "deploy_secureapr env deployer coin_addr stk_addr w =
     (if network_name env = ''sepolia'' \<and> env_missing (PRIVATE_KEY env)
      then Inl ''Missing PRIVATE_KEY in .env (required for Sepolia deployment).''
      else if network_name env = ''sepolia'' \<and> env_missing (INFURA_API_KEY env)
      then Inl ''Missing INFURA_API_KEY in .env (required for Sepolia deployment).''
      else task_send deployer (ToCoin (SetMinter stk_addr)) (deploy_contracts deployer coin_addr stk_addr w))"

text \<open>
  What a successful run leaves beside the chain: hardhat-deploy saves each contract's
  address under the name given to \<open>deploy\<close>, and the script prints both addresses.
\<close>

definition deploy_registry :: "addr \<Rightarrow> addr \<Rightarrow> string \<rightharpoonup> addr" where
  "deploy_registry coin_addr stk_addr = [''ConfidentialCoin'' \<mapsto> coin_addr, ''SecureAPRStaking'' \<mapsto> stk_addr]"

definition deploy_log :: "(addr \<Rightarrow> string) \<Rightarrow> addr \<Rightarrow> addr \<Rightarrow> console list" where
  "deploy_log addr_str coin_addr stk_addr =
     [Log (''ConfidentialCoin: '' @ addr_str coin_addr), Log (''SecureAPRStaking: '' @ addr_str stk_addr)]"

text \<open>
  hardhat-deploy's \<open>deploy(name, ...)\<close> reuses the deployment saved under \<open>name\<close> when
  the contract and its constructor arguments are unchanged, and then sends no
  transaction; the staking contract's argument is the coin's address, so it is reused
  only with the coin. A saved address is the address of that contract on the chain.
  Deployments are saved as they happen, so a later throw of the script keeps them.
\<close>

definition hh_deploy :: "(string \<rightharpoonup> addr) \<Rightarrow> addr \<Rightarrow> addr \<Rightarrow> addr \<Rightarrow> world \<Rightarrow> addr \<times> addr \<times> world" where
  "hh_deploy reg deployer coin_addr stk_addr w =
     (case reg ''ConfidentialCoin'' of
        Some c \<Rightarrow>
          (case reg ''SecureAPRStaking'' of
             Some s \<Rightarrow> (c, s, w)
           | None \<Rightarrow> (c, stk_addr, w\<lparr>w_stk := staking_init, w_stk_addr := stk_addr\<rparr>))
      | None \<Rightarrow> (coin_addr, stk_addr, deploy_contracts deployer coin_addr stk_addr w))"

definition deploy_run ::
  "deploy_env \<Rightarrow> addr \<Rightarrow> (string \<rightharpoonup> addr) \<Rightarrow> addr \<Rightarrow> addr \<Rightarrow> (addr \<Rightarrow> string) \<Rightarrow> world \<Rightarrow>
     (string + console list) \<times> (string \<rightharpoonup> addr) \<times> world" where
  "deploy_run env deployer reg coin_addr stk_addr addr_str w =
     (if network_name env = ''sepolia'' \<and> env_missing (PRIVATE_KEY env)
      then (Inl ''Missing PRIVATE_KEY in .env (required for Sepolia deployment).'', reg, w)
      else if network_name env = ''sepolia'' \<and> env_missing (INFURA_API_KEY env)
      then (Inl ''Missing INFURA_API_KEY in .env (required for Sepolia deployment).'', reg, w)
      else case hh_deploy reg deployer coin_addr stk_addr w of
        (coin, staking, w1) \<Rightarrow>
          let reg' = reg(''ConfidentialCoin'' \<mapsto> coin, ''SecureAPRStaking'' \<mapsto> staking) in
          case task_send deployer (ToCoin (SetMinter staking)) w1 of
            Inl e \<Rightarrow> (Inl e, reg', w1)
          | Inr w2 \<Rightarrow> (Inr (deploy_log addr_str coin staking), reg', w2))"

definition deployFixture :: "addr \<Rightarrow> addr \<Rightarrow> addr \<Rightarrow> world \<Rightarrow> string + world" where
  "deployFixture deployer coin_addr stk_addr w =
     task_send deployer (ToCoin (SetMinter stk_addr)) (deploy_contracts deployer coin_addr stk_addr w)"

inductive reachable :: "world \<Rightarrow> bool" where
  deploy: "fhe_wf (w_fhe w) \<Longrightarrow> deploy_secureapr env d ca sa w = Inr w' \<Longrightarrow> reachable w'"
| tx: "reachable w \<Longrightarrow> s \<noteq> w_stk_addr w \<Longrightarrow> honest_tx w t \<Longrightarrow> reachable (apply_tx s t w)"
| time: "reachable w \<Longrightarrow> reachable (advance_time dt w)"

subsection \<open>Deployment\<close>

lemma deploy_set_minter:
  "task_send d (ToCoin (SetMinter sa)) (deploy_contracts d ca sa w) =
     Inr (w\<lparr>w_coin := (coin_init d)\<lparr>c_minter := Some sa\<rparr>, w_stk := staking_init,
            w_coin_addr := ca, w_stk_addr := sa\<rparr>)"
  by (simp add: task_send_def send_tx_def deploy_contracts_def setMinter_def coin_init_def)

lemma deployed_inv:
  assumes "fhe_wf (w_fhe w)"
  shows "stk_inv (w\<lparr>w_coin := (coin_init d)\<lparr>c_minter := Some sa\<rparr>, w_stk := staking_init,
            w_coin_addr := ca, w_stk_addr := sa\<rparr>)"
proof -
  have "0 < fnext (w_fhe w)" using assms by (simp add: fhe_wf_def)
  then show ?thesis
    using assms
    by (simp add: stk_inv_def world_wf_def coin_wf_def minter_ok_def coin_init_def staking_init_def
        solvent_def owed_def owed_acct_def view_def)
qed

lemma deploy_secureapr_Inr:
  "deploy_secureapr env d ca sa w = Inr w' \<Longrightarrow>
   w' = w\<lparr>w_coin := (coin_init d)\<lparr>c_minter := Some sa\<rparr>, w_stk := staking_init,
          w_coin_addr := ca, w_stk_addr := sa\<rparr>"
  by (simp add: deploy_secureapr_def deploy_set_minter split: if_splits)

text \<open>
  C32: Deployment on a configured network succeeds from any backend state and yields a
  world with the invariant: the staking contract is the coin's minter, every handle
  is well formed and the contract's ETH covers every claim (there are none yet).
\<close>

theorem deploy_secureapr_ok:
  assumes "\<not> (network_name env = ''sepolia'' \<and> (env_missing (PRIVATE_KEY env) \<or> env_missing (INFURA_API_KEY env)))"
    and "fhe_wf (w_fhe w)"
  shows "\<exists>w'. deploy_secureapr env d ca sa w = Inr w' \<and> stk_inv w' \<and> c_owner (w_coin w') = d
           \<and> w_stk_addr w' = sa \<and> w_coin_addr w' = ca \<and> (\<forall>a. owed w' a = 0)"
  using assms deployed_inv [OF assms(2), where d = d and sa = sa and ca = ca]
  by (auto simp: deploy_secureapr_def deploy_set_minter coin_init_def owed_def owed_acct_def
      view_def staking_init_def)

subsection \<open>Reachable worlds\<close>

lemma reachable_inv: "reachable w \<Longrightarrow> stk_inv w"
proof (induction rule: reachable.induct)
  case (deploy w env d ca sa w')
  then show ?case using deploy_secureapr_Inr deployed_inv by metis
next
  case (tx w s t)
  then show ?case by (simp add: apply_tx_inv)
next
  case (time w dt)
  then show ?case by simp
qed

text \<open>
  C1: Every world reachable from a deployment, by transactions of external accounts that
  pass on only oracle-issued proofs and by the passing of time, satisfies the invariant:
  handles are well formed, the staking contract stays the coin's minter, and the ETH the
  staking contract holds covers in wei every account's staked and pending microETH.
\<close>

theorem reachable_stk_inv:
  assumes "reachable w"
  shows "world_wf w \<and> minter_ok w \<and> solvent w"
  using reachable_inv [OF assms] by (simp add: stk_inv_def)

theorem deploy_secureapr_ok_witness:
  "\<exists>w'. deploy_secureapr \<lparr>network_name = ''sepolia'', PRIVATE_KEY = Some ''k'', INFURA_API_KEY = Some ''i''\<rparr> 1 2 3
          \<lparr>w_fhe = fhe_init, w_coin = coin_init 0, w_stk = staking_init, w_eth = (\<lambda>_. 0),
           w_payable = (\<lambda>_. True), w_kms = 7, w_coin_addr = 0, w_stk_addr = 0, w_now = 0\<rparr> = Inr w'
        \<and> stk_inv w' \<and> c_owner (w_coin w') = 1 \<and> w_stk_addr w' = 3 \<and> w_coin_addr w' = 2 \<and> (\<forall>a. owed w' a = 0)"
  by (rule deploy_secureapr_ok) (simp_all add: env_missing_def fhe_init_wf)

theorem reachable_stk_inv_witness:
  "world_wf (apply_tx 4 (ToStaking (CallStake 1000000000000000000))
     \<lparr>w_fhe = fhe_init, w_coin = (coin_init 1)\<lparr>c_minter := Some 3\<rparr>, w_stk = staking_init,
      w_eth = (\<lambda>_. 2000000000000000000), w_payable = (\<lambda>_. True), w_kms = 7, w_coin_addr = 2,
      w_stk_addr = 3, w_now = 0\<rparr>)
   \<and> minter_ok (apply_tx 4 (ToStaking (CallStake 1000000000000000000))
     \<lparr>w_fhe = fhe_init, w_coin = (coin_init 1)\<lparr>c_minter := Some 3\<rparr>, w_stk = staking_init,
      w_eth = (\<lambda>_. 2000000000000000000), w_payable = (\<lambda>_. True), w_kms = 7, w_coin_addr = 2,
      w_stk_addr = 3, w_now = 0\<rparr>)
   \<and> solvent (apply_tx 4 (ToStaking (CallStake 1000000000000000000))
     \<lparr>w_fhe = fhe_init, w_coin = (coin_init 1)\<lparr>c_minter := Some 3\<rparr>, w_stk = staking_init,
      w_eth = (\<lambda>_. 2000000000000000000), w_payable = (\<lambda>_. True), w_kms = 7, w_coin_addr = 2,
      w_stk_addr = 3, w_now = 0\<rparr>)"
proof -
  let ?w0 = "\<lparr>w_fhe = fhe_init, w_coin = coin_init 0, w_stk = staking_init,
      w_eth = (\<lambda>_. 2000000000000000000), w_payable = (\<lambda>_. True), w_kms = 7, w_coin_addr = 0,
      w_stk_addr = 0, w_now = 0\<rparr>"
  have "deploy_secureapr \<lparr>network_name = ''hardhat'', PRIVATE_KEY = None, INFURA_API_KEY = None\<rparr> 1 2 3 ?w0
      = Inr \<lparr>w_fhe = fhe_init, w_coin = (coin_init 1)\<lparr>c_minter := Some 3\<rparr>, w_stk = staking_init,
      w_eth = (\<lambda>_. 2000000000000000000), w_payable = (\<lambda>_. True), w_kms = 7, w_coin_addr = 2,
      w_stk_addr = 3, w_now = 0\<rparr>"
    by (simp add: deploy_secureapr_def deploy_set_minter)
  then have "reachable \<lparr>w_fhe = fhe_init, w_coin = (coin_init 1)\<lparr>c_minter := Some 3\<rparr>, w_stk = staking_init,
      w_eth = (\<lambda>_. 2000000000000000000), w_payable = (\<lambda>_. True), w_kms = 7, w_coin_addr = 2,
      w_stk_addr = 3, w_now = 0\<rparr>"
    by (rule reachable.deploy [rotated]) (simp add: fhe_init_wf)
  then have "reachable (apply_tx 4 (ToStaking (CallStake 1000000000000000000))
     \<lparr>w_fhe = fhe_init, w_coin = (coin_init 1)\<lparr>c_minter := Some 3\<rparr>, w_stk = staking_init,
      w_eth = (\<lambda>_. 2000000000000000000), w_payable = (\<lambda>_. True), w_kms = 7, w_coin_addr = 2,
      w_stk_addr = 3, w_now = 0\<rparr>)"
    by (rule reachable.tx) simp_all
  then show ?thesis by (rule reachable_stk_inv)
qed


lemma deploy_run_fresh:
  "deploy_secureapr env d ca sa w = Inr w' \<Longrightarrow>
   deploy_run env d Map.empty ca sa addr_str w = (Inr (deploy_log addr_str ca sa), deploy_registry ca sa, w')"
  by (auto simp: deploy_run_def deploy_secureapr_def hh_deploy_def deploy_registry_def split: if_splits)

text \<open>
  C33: The addresses task reads back what the deploy script wrote: after a successful
  deployment, \<open>task:secureapr:addresses\<close> prints exactly the two lines the script printed,
  and the saved addresses are those of the deployed contracts on the chain; before any
  deployment the task throws on the coin's missing entry.
\<close>

theorem task_addresses_after_deploy:
  assumes "deploy_run env d Map.empty ca sa addr_str w = (Inr out, reg, w')"
  shows "task_addresses reg addr_str = Inr out
    \<and> reg ''ConfidentialCoin'' = Some (w_coin_addr w') \<and> reg ''SecureAPRStaking'' = Some (w_stk_addr w')
    \<and> task_addresses Map.empty addr_str = Inl ''No deployment found for: ConfidentialCoin''"
  using assms
  by (auto simp: deploy_run_def hh_deploy_def deploy_set_minter deploy_registry_def
      deploy_log_def task_addresses_def split: if_splits)

text \<open>
  C34: The deploy script cannot be run twice. On a chain where it already ran,
  hardhat-deploy reuses both contracts, the script sends \<open>setMinter\<close> again, the coin
  refuses a second minter, and the run throws \<open>execution reverted: AlreadySet\<close>,
  leaving the deployments and the chain as they were.
\<close>

theorem deploy_rerun_AlreadySet:
  assumes first: "deploy_run env d Map.empty ca sa addr_str w = (Inr out, reg, w1)"
  shows "deploy_run env d reg ca' sa' addr_str w1 = (Inl ''execution reverted: AlreadySet'', reg, w1)"
proof -
  have env: "\<not> (network_name env = ''sepolia'' \<and> env_missing (PRIVATE_KEY env))"
    "\<not> (network_name env = ''sepolia'' \<and> env_missing (INFURA_API_KEY env))"
    using first by (auto simp: deploy_run_def split: if_splits)
  have run: "\<And>r c s w0. deploy_run env d r c s addr_str w0 =
      (case hh_deploy r d c s w0 of
        (coin, staking, w1) \<Rightarrow>
          let reg' = r(''ConfidentialCoin'' \<mapsto> coin, ''SecureAPRStaking'' \<mapsto> staking) in
          case task_send d (ToCoin (SetMinter staking)) w1 of
            Inl e \<Rightarrow> (Inl e, reg', w1)
          | Inr w2 \<Rightarrow> (Inr (deploy_log addr_str coin staking), reg', w2))"
    by (simp only: deploy_run_def if_not_P [OF env(1)] if_not_P [OF env(2)])
  have "reg = deploy_registry ca sa"
    "w1 = w\<lparr>w_coin := (coin_init d)\<lparr>c_minter := Some sa\<rparr>, w_stk := staking_init,
            w_coin_addr := ca, w_stk_addr := sa\<rparr>"
    using first by (simp_all add: run hh_deploy_def deploy_set_minter deploy_registry_def)
  then show ?thesis
    by (simp add: run hh_deploy_def deploy_registry_def task_send_def send_tx_def setMinter_def
        coin_init_def fun_upd_twist)
qed

theorem task_addresses_after_deploy_witness:
  "task_addresses (deploy_registry 2 3) (\<lambda>a. ''0x'' @ hex_fixed 40 a) = Inr (deploy_log (\<lambda>a. ''0x'' @ hex_fixed 40 a) 2 3)
   \<and> deploy_registry 2 3 ''ConfidentialCoin'' = Some (w_coin_addr \<lparr>w_fhe = fhe_init, w_coin = (coin_init 1)\<lparr>c_minter := Some 3\<rparr>, w_stk = staking_init, w_eth = (\<lambda>_. 0),
      w_payable = (\<lambda>_. True), w_kms = 7, w_coin_addr = 2, w_stk_addr = 3, w_now = 0\<rparr>)
   \<and> deploy_registry 2 3 ''SecureAPRStaking'' = Some (w_stk_addr \<lparr>w_fhe = fhe_init, w_coin = (coin_init 1)\<lparr>c_minter := Some 3\<rparr>, w_stk = staking_init, w_eth = (\<lambda>_. 0),
      w_payable = (\<lambda>_. True), w_kms = 7, w_coin_addr = 2, w_stk_addr = 3, w_now = 0\<rparr>)
   \<and> task_addresses Map.empty (\<lambda>a. ''0x'' @ hex_fixed 40 a) = Inl ''No deployment found for: ConfidentialCoin''"
  by (rule task_addresses_after_deploy [where env = "\<lparr>network_name = ''hardhat'', PRIVATE_KEY = None, INFURA_API_KEY = None\<rparr>" and d = 1 and w = "\<lparr>w_fhe = fhe_init, w_coin = coin_init 0, w_stk = staking_init, w_eth = (\<lambda>_. 0),
      w_payable = (\<lambda>_. True), w_kms = 7, w_coin_addr = 0, w_stk_addr = 0, w_now = 0\<rparr>"])
     (simp add: deploy_run_def hh_deploy_def deploy_set_minter deploy_registry_def)


theorem deploy_rerun_AlreadySet_witness:
  "deploy_run \<lparr>network_name = ''sepolia'', PRIVATE_KEY = Some ''k'', INFURA_API_KEY = Some ''i''\<rparr> 1 (deploy_registry 2 3) 5 6 (\<lambda>a. ''0x'' @ hex_fixed 40 a) \<lparr>w_fhe = fhe_init, w_coin = (coin_init 1)\<lparr>c_minter := Some 3\<rparr>, w_stk = staking_init, w_eth = (\<lambda>_. 0),
      w_payable = (\<lambda>_. True), w_kms = 7, w_coin_addr = 2, w_stk_addr = 3, w_now = 0\<rparr>
     = (Inl ''execution reverted: AlreadySet'', deploy_registry 2 3, \<lparr>w_fhe = fhe_init, w_coin = (coin_init 1)\<lparr>c_minter := Some 3\<rparr>, w_stk = staking_init, w_eth = (\<lambda>_. 0),
      w_payable = (\<lambda>_. True), w_kms = 7, w_coin_addr = 2, w_stk_addr = 3, w_now = 0\<rparr>)"
  by (rule deploy_rerun_AlreadySet [where w = "\<lparr>w_fhe = fhe_init, w_coin = coin_init 0, w_stk = staking_init, w_eth = (\<lambda>_. 0),
      w_payable = (\<lambda>_. True), w_kms = 7, w_coin_addr = 0, w_stk_addr = 0, w_now = 0\<rparr>" and ca = 2 and sa = 3 and out = "deploy_log (\<lambda>a. ''0x'' @ hex_fixed 40 a) 2 3"])
     (simp add: deploy_run_def hh_deploy_def deploy_set_minter deploy_registry_def env_missing_def)

end
