(* ===== verification/Calls.thy ===== *)
theory Calls
  imports Deploy
begin

text \<open>
  The outcome of each staking entry point when an external account sends it through
  ethers (\<open>contract.f(...)\<close> then \<open>tx.wait()\<close>, the function \<open>task_send\<close>) to a world
  that satisfies the staking invariant. These are the facts the clients' proofs share:
  the UI handlers, the tasks and the test scenarios all reach the contract this way.
\<close>

lemma task_send_Inr: "task_send s t w = Inr w' \<longleftrightarrow> send_tx s t w = Inr w'"
  by (simp add: task_send_def split: sum.split)

lemma task_send_Inl: "send_tx s t w = Inl e \<Longrightarrow> task_send s t w = Inl (tx_message e)"
  by (simp add: task_send_def)

lemma stake_call_ok:
  assumes inv: "stk_inv w" and ext: "s \<noteq> w_stk_addr w" and funds: "v \<le> w_eth w s"
    and valid: "v \<noteq> 0" "v mod micro_unit = 0"
  shows "\<exists>w'. task_send s (ToStaking (CallStake v)) w = Inr w' \<and> stk_inv w'
     \<and> spec_stake (w_now w) v (view w s) = Inr (view w' s) \<and> (\<forall>b. b \<noteq> s \<longrightarrow> view w' b = view w b)
     \<and> env_same (pay_in s v w) w'"
proof -
  have wf: "world_wf (pay_in s v w)" and mo: "minter_ok (pay_in s v w)"
    using inv by (simp_all add: stk_inv_def)
  obtain w1 where "accrue_and_mint s (pay_in s v w) = Inr w1"
    using accrue_and_mint_ok [OF mo] by blast
  with valid obtain w' where st: "stake s v (pay_in s v w) = Inr w'"
    by (cases "s_stake (w_stk w) s = 0") (auto simp: stake_def)
  have "task_send s (ToStaking (CallStake v)) w = Inr w'"
    using funds st by (simp add: task_send_def send_tx_def)
  with stake_Inr [OF wf st] stake_inv [OF inv ext st] show ?thesis
    by auto
qed

lemma claim_call_ok:
  assumes inv: "stk_inv w"
  shows "\<exists>w'. task_send s (ToStaking CallClaimInterest) w = Inr w' \<and> stk_inv w'
     \<and> view w' s = spec_accrue (w_now w) (view w s) \<and> (\<forall>b. b \<noteq> s \<longrightarrow> view w' b = view w b)
     \<and> env_same w w'"
proof -
  have wf: "world_wf w" and mo: "minter_ok w" using inv by (simp_all add: stk_inv_def)
  obtain w' where acc: "accrue_and_mint s w = Inr w'"
    using accrue_and_mint_ok [OF mo] by blast
  then have "task_send s (ToStaking CallClaimInterest) w = Inr w'"
    by (simp add: task_send_def send_tx_def claimInterest_def)
  with accrue_and_mint_refines [OF wf acc] accrue_and_mint_inv [OF inv acc] show ?thesis
    by auto
qed

lemma request_call:
  assumes inv: "stk_inv w"
  shows "map_sum id view (send_tx s (ToStaking CallRequestWithdrawAll) w)
       = map_sum Reverted (\<lambda>x. (view w)(s := x)) (spec_request (w_now w) (view w s))"
  using requestWithdrawAll_refines [of w s] inv
  by (cases "requestWithdrawAll s w"; cases "spec_request (w_now w) (view w s)")
     (simp_all add: stk_inv_def send_tx_def)

lemma request_call_Inr:
  assumes inv: "stk_inv w" and ok: "send_tx s (ToStaking CallRequestWithdrawAll) w = Inr w'"
  shows "stk_inv w' \<and> env_same w w' \<and> spec_request (w_now w) (view w s) = Inr (view w' s)
     \<and> (\<forall>b. b \<noteq> s \<longrightarrow> view w' b = view w b)
     \<and> s_pending (w_stk w') s = Some (s_stake (w_stk w) s) \<and> s_stake (w_stk w') s = 0"
proof -
  have r: "requestWithdrawAll s w = Inr w'"
    using ok by (simp add: send_tx_def split: sum.splits)
  have wf: "world_wf w" using inv by (simp add: stk_inv_def)
  from requestWithdrawAll_Inr [OF wf r] requestWithdrawAll_inv [OF inv r] show ?thesis
    by simp
qed


text \<open>The accrual's 64-bit arithmetic is exact while the product and the sum fit.\<close>

lemma accrual_factor_unat:
  "rate_per_eth_per_day * e < 2 ^ 64 \<Longrightarrow> unat (accrual_factor e) = rate_per_eth_per_day * e"
  unfolding accrual_factor_def by (rule unat_of_nat_u64)

lemma spec_accrue_exact:
  assumes f: "rate_per_eth_per_day * (n - a_last x) < 2 ^ 64"
    and m: "unat (a_stake x) * (rate_per_eth_per_day * (n - a_last x)) < 2 ^ 64"
    and b: "unat (a_balance x) + unat (a_stake x) * rate_per_eth_per_day * (n - a_last x) div seconds_per_day < 2 ^ 64"
  shows "unat (a_balance (spec_accrue n x))
       = unat (a_balance x) + unat (a_stake x) * rate_per_eth_per_day * (n - a_last x) div seconds_per_day"
proof -
  let ?p = "a_stake x * accrual_factor (n - a_last x)"
  have p: "unat ?p = unat (a_stake x) * (rate_per_eth_per_day * (n - a_last x))"
    using m unat_mult_u64 [of "a_stake x" "accrual_factor (n - a_last x)"] accrual_factor_unat [OF f] by simp
  have d: "unat (?p div word_of_nat seconds_per_day) = unat (a_stake x) * rate_per_eth_per_day * (n - a_last x) div seconds_per_day"
    using p by (simp add: seconds_per_day_def mult.assoc)
  show ?thesis
    using unat_add_u64 [of "a_balance x" "?p div word_of_nat seconds_per_day"] b d
    by (simp add: spec_accrue_def)
qed

end
