(* ===== verification/Tests.thy ===== *)
theory Tests
  imports Calls
begin

text \<open>
  The test suite \<open>src/test/SecureAPRStaking.ts\<close>, run against the model. Each test is a
  function of the gaps between its blocks, the deployer, Alice, the two contract
  addresses and the chain it starts from; it returns the values its expectations
  compare and the chain it leaves. The theorems prove that every expectation holds for
  every starting chain with a well-formed backend on which Alice holds the ETH she
  stakes, not only for Hardhat's accounts, and for every schedule of block times, and
  that the whole suite passes when its tests share one chain. Gas is not
  modelled, so Alice's balance grows by exactly the withdrawn amount.
\<close>

text \<open>
  Hardhat's default network automines: every transaction is mined into a block of its
  own, and a block's timestamp is \<open>max(previous + 1, clock + offset)\<close>, where the offset
  is what \<open>evm_increaseTime\<close> has added to the wall clock. How much wall-clock time passes
  between two blocks is not under the test's control, so each block of a test run comes
  with a free gap: it is mined \<open>gap + 1\<close> seconds after the previous block.
\<close>

definition hh_block :: "nat \<Rightarrow> world \<Rightarrow> world" where
  "hh_block gap w = advance_time (Suc gap) w"

definition hh_send :: "nat \<Rightarrow> addr \<Rightarrow> tx \<Rightarrow> world \<Rightarrow> string + world" where
  "hh_send gap signer t w = task_send signer t (hh_block gap w)"

text \<open>
  The fixture's three transactions (the two deployments and \<open>setMinter\<close>) mine three
  blocks; no test reads their timestamps, so the clock moves once by their total.
\<close>

definition hh_deployFixture :: "nat \<Rightarrow> addr \<Rightarrow> addr \<Rightarrow> addr \<Rightarrow> world \<Rightarrow> string + world" where
  "hh_deployFixture gap deployer ca sa w = deployFixture deployer ca sa (advance_time (3 + gap) w)"

definition stake_1eth :: "nat \<Rightarrow> addr \<Rightarrow> world \<Rightarrow> string + world" where
  "stake_1eth gap alice w =
     rbind (parseEther ''1.0'') (\<lambda>value. hh_send gap alice (ToStaking (CallStake (nat value))) w)"

text \<open>
  A test runs its steps in order; a step that throws ends the test and leaves the chain
  as it was before that step (a reverted transaction changes nothing), so a failed test
  reports its message with the chain at the throw.
\<close>

type_synonym 'a test_run = "(string \<times> world) + 'a \<times> world"

definition tbind :: "world \<Rightarrow> string + world \<Rightarrow> (world \<Rightarrow> 'a test_run) \<Rightarrow> 'a test_run" where
  "tbind w r k = (case r of Inl m \<Rightarrow> Inl (m, w) | Inr w' \<Rightarrow> k w')"

definition test_stakes_1eth :: "(nat \<Rightarrow> nat) \<Rightarrow> addr \<Rightarrow> addr \<Rightarrow> addr \<Rightarrow> addr \<Rightarrow> world \<Rightarrow> (handle \<times> u64) test_run" where
  "test_stakes_1eth g deployer alice ca sa w =
     tbind (deploy_contracts deployer ca sa (advance_time (3 + g 0) w)) (hh_deployFixture (g 0) deployer ca sa w) (\<lambda>w1.
     tbind w1 (stake_1eth (g 1) alice w1) (\<lambda>w2.
       let encryptedStake = getEncryptedStakedMicroEth w2 alice
       in Inr ((encryptedStake, fhe_dec (w_fhe w2) encryptedStake), w2)))"

text \<open>
  \<open>evm_increaseTime(86400)\<close> then \<open>evm_mine\<close> mines an empty block (gap \<open>g 2\<close>, about a day
  with the new offset); the claim is mined in the next block (gap \<open>g 3\<close>), and the test
  reads the elapsed time back from the contract's accrual timestamps.
\<close>

definition test_mints_pro_rata :: "(nat \<Rightarrow> nat) \<Rightarrow> addr \<Rightarrow> addr \<Rightarrow> addr \<Rightarrow> addr \<Rightarrow> world \<Rightarrow> (int \<times> int) test_run" where
  "test_mints_pro_rata g deployer alice ca sa w =
     tbind (deploy_contracts deployer ca sa (advance_time (3 + g 0) w)) (hh_deployFixture (g 0) deployer ca sa w) (\<lambda>w1.
     tbind w1 (stake_1eth (g 1) alice w1) (\<lambda>w2.
       let lastAccrual = int (getLastAccrual w2 alice); w3 = hh_block (g 2) w2 in
       tbind w3 (hh_send (g 3) alice (ToStaking CallClaimInterest) w3) (\<lambda>w4.
         let lastAccrualAfter = int (getLastAccrual w4 alice);
             elapsed = lastAccrualAfter - lastAccrual;
             expected = (1000000 * 10 * elapsed) div 86400;
             clearBal = int (unat (fhe_dec (w_fhe w4) (coinBalanceOf w4 alice)))
         in Inr ((clearBal, expected), w4))))"

definition test_withdraws_all ::
  "(nat \<Rightarrow> nat) \<Rightarrow> addr \<Rightarrow> addr \<Rightarrow> addr \<Rightarrow> addr \<Rightarrow> world \<Rightarrow> (nat \<times> nat \<times> handle \<times> handle \<times> nat) test_run" where
  "test_withdraws_all g deployer alice ca sa w =
     tbind (deploy_contracts deployer ca sa (advance_time (3 + g 0) w)) (hh_deployFixture (g 0) deployer ca sa w) (\<lambda>w1.
     tbind w1 (stake_1eth (g 1) alice w1) (\<lambda>w2.
       let balBefore = w_eth w2 alice in
       tbind w2 (hh_send (g 2) alice (ToStaking CallRequestWithdrawAll) w2) (\<lambda>w3.
         let pending = getPendingWithdrawCipher w3 alice in
         if pending = 0 then Inl (''AssertionError'', w3)
         else tbind w3 (oracle_finalize alice pending (hh_block (g 3) w3)) (\<lambda>w4.
           Inr ((balBefore, w_eth w4 alice, pending, getEncryptedStakedMicroEth w4 alice, w_eth w4 sa), w4)))))"

text \<open>
  The suite: \<open>before\<close> takes the first two signers as deployer and Alice; \<open>beforeEach\<close>
  skips every test, with a warning, unless the network is the fhEVM mock; each \<open>it\<close> runs
  its test on the chain the previous one left, and its \<open>expect\<close>s decide whether it
  passes. Each test deploys fresh contracts, at addresses given as parameters, and its
  blocks are mined with the gaps \<open>gs i\<close> of the \<open>i\<close>-th test. The text of chai's
  assertion messages is not modelled.
\<close>

datatype test_status = Passed | Failed string | Skipped

definition mocha_it :: "bool \<Rightarrow> (world \<Rightarrow> 'a test_run) \<Rightarrow> ('a \<Rightarrow> bool) \<Rightarrow> world \<Rightarrow> test_status \<times> world" where
  "mocha_it isMock body expect w =
     (if \<not> isMock then (Skipped, w)
      else case body w of
        Inl (m, w') \<Rightarrow> (Failed m, w')
      | Inr (v, w') \<Rightarrow> (if expect v then Passed else Failed ''AssertionError'', w'))"

fun expect_stakes :: "handle \<times> u64 \<Rightarrow> bool" where
  "expect_stakes (encryptedStake, clearStakeMicroEth) \<longleftrightarrow> encryptedStake \<noteq> 0 \<and> clearStakeMicroEth = 1000000"

fun expect_mints :: "int \<times> int \<Rightarrow> bool" where
  "expect_mints (clearBal, expected) \<longleftrightarrow> clearBal = expected"

fun expect_withdraws :: "nat \<times> nat \<times> handle \<times> handle \<times> nat \<Rightarrow> bool" where
  "expect_withdraws (balBefore, balAfter, pending, encryptedStakeAfter, stakingBal) \<longleftrightarrow>
     balBefore < balAfter \<and> encryptedStakeAfter = 0 \<and> stakingBal = 0"

definition test_suite ::
  "bool \<Rightarrow> (nat \<Rightarrow> nat \<Rightarrow> nat) \<Rightarrow> addr \<Rightarrow> addr \<Rightarrow> addr \<times> addr \<Rightarrow> addr \<times> addr \<Rightarrow> addr \<times> addr \<Rightarrow> world \<Rightarrow>
     (string \<times> test_status) list \<times> console list \<times> world" where
  "test_suite isMock gs deployer alice f1 f2 f3 w =
     (let (r1, w1) = mocha_it isMock (test_stakes_1eth (gs 0) deployer alice (fst f1) (snd f1)) expect_stakes w;
          (r2, w2) = mocha_it isMock (test_mints_pro_rata (gs 1) deployer alice (fst f2) (snd f2)) expect_mints w1;
          (r3, w3) = mocha_it isMock (test_withdraws_all (gs 2) deployer alice (fst f3) (snd f3)) expect_withdraws w2;
          warn = (if isMock then [] else replicate 3 (Log ''This hardhat test suite cannot run on Sepolia Testnet''))
      in ([(''stakes 1 ETH and tracks encrypted stake'', r1),
           (''mints 10 cCoin per 1 ETH per day (pro-rata)'', r2),
           (''withdraws all staked ETH using public decryption proof'', r3)], warn, w3))"

subsection \<open>The deployed fixture\<close>

definition fresh_acct :: acct where
  "fresh_acct = \<lparr>a_staked = False, a_stake = 0, a_balance = 0, a_last = 0, a_pending = None\<rparr>"

lemma view_advance_time [simp]: "view (advance_time dt w) = view w"
  by (simp add: advance_time_def view_def fun_eq_iff)

lemma hh_block_simps [simp]:
  "view (hh_block g w) = view w" "stk_inv (hh_block g w) = stk_inv w" "w_now (hh_block g w) = w_now w + Suc g"
  "w_eth (hh_block g w) = w_eth w" "w_payable (hh_block g w) = w_payable w" "w_stk_addr (hh_block g w) = w_stk_addr w"
  "w_fhe (hh_block g w) = w_fhe w" "w_stk (hh_block g w) = w_stk w" "w_kms (hh_block g w) = w_kms w"
  by (simp_all add: hh_block_def) (simp_all add: advance_time_def)

lemma deployFixture_Inr:
  assumes "fhe_wf (w_fhe w)"
  shows "\<exists>w1. deployFixture d ca sa w = Inr w1 \<and> stk_inv w1 \<and> view w1 = (\<lambda>_. fresh_acct)
     \<and> w_eth w1 = w_eth w \<and> w_stk_addr w1 = sa \<and> w_now w1 = w_now w \<and> w_payable w1 = w_payable w
     \<and> w_kms w1 = w_kms w"
  using assms deployed_inv [OF assms, where d = d and sa = sa and ca = ca]
  by (simp add: deployFixture_def deploy_set_minter fun_eq_iff view_def fresh_acct_def
      staking_init_def coin_init_def)

lemma hh_deployFixture_Inr:
  assumes "fhe_wf (w_fhe w)"
  shows "\<exists>w1. hh_deployFixture g d ca sa w = Inr w1 \<and> stk_inv w1 \<and> view w1 = (\<lambda>_. fresh_acct)
     \<and> w_eth w1 = w_eth w \<and> w_stk_addr w1 = sa \<and> w_now w1 = w_now w + (3 + g) \<and> w_payable w1 = w_payable w"
  using deployFixture_Inr [of "advance_time (3 + g) w" d ca sa] assms
  by (simp add: hh_deployFixture_def advance_time_def) blast

lemma parseEther_1: "parseEther ''1.0'' = Inr 1000000000000000000"
proof -
  have sp: "split_fixed ''1.0'' = Some (False, ''1'', ''0'')"
    by (simp add: split_fixed_def split_digits_def is_digit_def)
  have "take 18 ([CHR ''0''] @ replicate 18 CHR ''0'') = replicate 18 CHR ''0''"
    using take_replicate [of 18 "Suc 18" "CHR ''0''"] by (simp only: replicate_Suc append.simps) simp
  moreover have "dec_val ''1'' = 1"
    by (simp add: dec_val_def)
  ultimately show ?thesis
    using sp by (simp add: parseEther_def parse_units_def dec_val_append)
qed

lemma stake_1eth_fresh:
  assumes inv: "stk_inv w" and ext: "alice \<noteq> w_stk_addr w"
    and funds: "1000000000000000000 \<le> w_eth w alice" and fresh: "view w alice = fresh_acct"
  shows "\<exists>w'. stake_1eth g alice w = Inr w' \<and> stk_inv w'
     \<and> view w' alice = \<lparr>a_staked = True, a_stake = 1000000, a_balance = 0, a_last = w_now w + Suc g, a_pending = None\<rparr>
     \<and> env_same (pay_in alice 1000000000000000000 (hh_block g w)) w'"
proof -
  have valid: "(1000000000000000000::nat) \<noteq> 0" "1000000000000000000 mod micro_unit = 0"
    by (simp_all add: micro_unit_def)
  obtain w' where S: "task_send alice (ToStaking (CallStake 1000000000000000000)) (hh_block g w) = Inr w'"
    "stk_inv w'" "spec_stake (w_now w + Suc g) 1000000000000000000 (view w alice) = Inr (view w' alice)"
    "env_same (pay_in alice 1000000000000000000 (hh_block g w)) w'"
    using stake_call_ok [of "hh_block g w" alice 1000000000000000000] inv ext funds valid by auto
  have "view w' alice = \<lparr>a_staked = True, a_stake = 1000000, a_balance = 0, a_last = w_now w + Suc g, a_pending = None\<rparr>"
    using S(3) by (simp add: fresh spec_stake_def fresh_acct_def micro_unit_def)
  with S show ?thesis
    by (simp add: stake_1eth_def parseEther_1 hh_send_def)
qed

subsection \<open>Runs of the three tests\<close>

lemma tbind_Inr [simp]: "tbind w (Inr w') k = k w'"
  by (simp add: tbind_def)

lemma view_accessors:
  "getLastAccrual w a = a_last (view w a)"
  "fhe_dec (w_fhe w) (coinBalanceOf w a) = a_balance (view w a)"
  "fhe_dec (w_fhe w) (getEncryptedStakedMicroEth w a) = a_stake (view w a)"
  by (simp_all add: getLastAccrual_def coinBalanceOf_def confidentialBalanceOf_def
      getEncryptedStakedMicroEth_def view_def)

lemma pay_in_eth_payable:
  "s \<noteq> w_stk_addr w \<Longrightarrow> w_eth (pay_in s v w) = (w_eth w)(s := w_eth w s - v, w_stk_addr w := w_eth w (w_stk_addr w) + v)"
  "w_payable (pay_in s v w) = w_payable w"
  by (simp_all add: pay_in_def Let_def fun_eq_iff)

lemma stk_inv_fhe_wf: "stk_inv w \<Longrightarrow> fhe_wf (w_fhe w)"
  by (simp add: stk_inv_def world_wf_def)

text \<open>The fixture, then Alice's stake of 1 ETH: the steps the three tests share.\<close>

lemma fixture_then_stake:
  assumes wf: "fhe_wf (w_fhe w)" and ne: "alice \<noteq> sa" and funds: "1000000000000000000 \<le> w_eth w alice"
  shows "\<exists>w1 w2. hh_deployFixture g0 d ca sa w = Inr w1 \<and> stake_1eth g1 alice w1 = Inr w2 \<and> stk_inv w2
     \<and> view w2 alice = \<lparr>a_staked = True, a_stake = 1000000, a_balance = 0, a_last = w_now w2, a_pending = None\<rparr>
     \<and> w_eth w2 = (w_eth w)(alice := w_eth w alice - 1000000000000000000, sa := w_eth w sa + 1000000000000000000)
     \<and> w_payable w2 = w_payable w \<and> w_stk_addr w2 = sa"
proof -
  obtain w1 where D: "hh_deployFixture g0 d ca sa w = Inr w1" "stk_inv w1" "view w1 = (\<lambda>_. fresh_acct)"
    "w_eth w1 = w_eth w" "w_stk_addr w1 = sa" "w_payable w1 = w_payable w"
    using hh_deployFixture_Inr [OF wf, of g0 d ca sa] by blast
  obtain w2 where S: "stake_1eth g1 alice w1 = Inr w2" "stk_inv w2"
    "view w2 alice = \<lparr>a_staked = True, a_stake = 1000000, a_balance = 0, a_last = w_now w1 + Suc g1, a_pending = None\<rparr>"
    "env_same (pay_in alice 1000000000000000000 (hh_block g1 w1)) w2"
    using stake_1eth_fresh [OF D(2), of alice g1] D ne funds by fastforce
  have "w_eth w2 = (w_eth w)(alice := w_eth w alice - 1000000000000000000, sa := w_eth w sa + 1000000000000000000)"
    "w_payable w2 = w_payable w" "w_stk_addr w2 = sa" "w_now w2 = w_now w1 + Suc g1"
    using S(4) D(4-6) ne pay_in_eth_payable [where s = alice and w = "hh_block g1 w1"] by (simp_all add: env_same_def)
  with D(1) S(1-3) show ?thesis by auto
qed

lemma test_stakes_1eth_run:
  assumes wf: "fhe_wf (w_fhe w)" and ne: "alice \<noteq> sa" and funds: "1000000000000000000 \<le> w_eth w alice"
  shows "\<exists>enc w'. test_stakes_1eth g d alice ca sa w = Inr ((enc, 1000000), w') \<and> enc \<noteq> 0 \<and> fhe_wf (w_fhe w')
     \<and> w_eth w' = (w_eth w)(alice := w_eth w alice - 1000000000000000000, sa := w_eth w sa + 1000000000000000000)
     \<and> w_payable w' = w_payable w"
proof -
  obtain w1 w2 where F: "hh_deployFixture (g 0) d ca sa w = Inr w1" "stake_1eth (g 1) alice w1 = Inr w2" "stk_inv w2"
    "view w2 alice = \<lparr>a_staked = True, a_stake = 1000000, a_balance = 0, a_last = w_now w2, a_pending = None\<rparr>"
    "w_eth w2 = (w_eth w)(alice := w_eth w alice - 1000000000000000000, sa := w_eth w sa + 1000000000000000000)"
    "w_payable w2 = w_payable w"
    using fixture_then_stake [OF wf ne funds, of "g 0" d ca "g 1"] by blast
  have "s_stake (w_stk w2) alice \<noteq> 0" "fhe_dec (w_fhe w2) (s_stake (w_stk w2) alice) = 1000000"
    using F(4) by (simp_all add: view_def)
  with F(1,2,5,6) stk_inv_fhe_wf [OF F(3)] show ?thesis
    by (simp add: test_stakes_1eth_def getEncryptedStakedMicroEth_def)
qed

text \<open>
  The claim mints \<open>floor(1000000 * 10 * elapsed / 86400)\<close> units exactly, where elapsed is
  the time from the stake's block to the claim's, while the product fits in 64 bits.
\<close>

lemma test_mints_pro_rata_run:
  assumes wf: "fhe_wf (w_fhe w)" and ne: "alice \<noteq> sa" and funds: "1000000000000000000 \<le> w_eth w alice"
    and gaps: "g 2 + g 3 < 10 ^ 12"
  defines "m \<equiv> int (10000000 * (Suc (g 2) + Suc (g 3)) div 86400)"
  shows "\<exists>w'. test_mints_pro_rata g d alice ca sa w = Inr ((m, m), w') \<and> fhe_wf (w_fhe w')
     \<and> w_eth w' = (w_eth w)(alice := w_eth w alice - 1000000000000000000, sa := w_eth w sa + 1000000000000000000)
     \<and> w_payable w' = w_payable w"
proof -
  obtain w1 w2 where F: "hh_deployFixture (g 0) d ca sa w = Inr w1" "stake_1eth (g 1) alice w1 = Inr w2" "stk_inv w2"
    "view w2 alice = \<lparr>a_staked = True, a_stake = 1000000, a_balance = 0, a_last = w_now w2, a_pending = None\<rparr>"
    "w_eth w2 = (w_eth w)(alice := w_eth w alice - 1000000000000000000, sa := w_eth w sa + 1000000000000000000)"
    "w_payable w2 = w_payable w"
    using fixture_then_stake [OF wf ne funds, of "g 0" d ca "g 1"] by blast
  let ?w3 = "hh_block (g 3) (hh_block (g 2) w2)"
  define e where "e = Suc (g 2) + Suc (g 3)"
  have inv3: "stk_inv ?w3" using F(3) by simp
  obtain w4 where C: "task_send alice (ToStaking CallClaimInterest) ?w3 = Inr w4" "stk_inv w4"
    "view w4 alice = spec_accrue (w_now ?w3) (view ?w3 alice)" "env_same ?w3 w4"
    using claim_call_ok [OF inv3] by blast
  have now: "w_now ?w3 = w_now w2 + e" by (simp add: e_def)
  have e: "e < 10 ^ 12 + 2" using gaps by (simp add: e_def)
  have x: "view ?w3 alice = \<lparr>a_staked = True, a_stake = 1000000, a_balance = 0, a_last = w_now w2, a_pending = None\<rparr>"
    using F(4) by simp
  have "unat (a_balance (spec_accrue (w_now ?w3) (view ?w3 alice))) = 1000000 * rate_per_eth_per_day * e div seconds_per_day"
    using spec_accrue_exact [of "w_now ?w3" "view ?w3 alice"] e unfolding x now
    by (simp add: rate_per_eth_per_day_def seconds_per_day_def)
  hence bal: "unat (a_balance (view w4 alice)) = 10000000 * e div 86400"
    using C(3) by (simp add: rate_per_eth_per_day_def seconds_per_day_def)
  have last: "a_last (view w4 alice) = w_now w2 + e" using C(3) now by simp
  have run: "test_mints_pro_rata g d alice ca sa w = Inr ((int (unat (a_balance (view w4 alice))),
      (1000000 * 10 * (int (a_last (view w4 alice)) - int (a_last (view w2 alice)))) div 86400), w4)"
    using F(1,2) C(1) unfolding test_mints_pro_rata_def Let_def hh_send_def view_accessors by simp
  have m: "m = int (10000000 * e div 86400)" by (simp only: m_def e_def)
  have "(1000000 * 10 * (int (a_last (view w4 alice)) - int (a_last (view w2 alice)))) div 86400 = m"
    unfolding last F(4) m by (simp add: zdiv_int)
  moreover have "int (unat (a_balance (view w4 alice))) = m" unfolding bal m ..
  moreover have "w_eth w4 = w_eth w2" "w_payable w4 = w_payable w2"
    using C(4) by (simp_all add: env_same_def)
  ultimately show ?thesis
    using run F(5,6) stk_inv_fhe_wf [OF C(2)] by simp
qed

lemma test_withdraws_all_run:
  assumes wf: "fhe_wf (w_fhe w)" and ne: "alice \<noteq> sa" and funds: "1000000000000000000 \<le> w_eth w alice"
    and pay: "w_payable w alice" and empty: "w_eth w sa = 0"
  shows "\<exists>bal pending w'. test_withdraws_all g d alice ca sa w = Inr ((bal, bal + 1000000000000000000, pending, 0, 0), w')
     \<and> pending \<noteq> 0 \<and> fhe_wf (w_fhe w') \<and> w_eth w' = w_eth w \<and> w_payable w' = w_payable w"
proof -
  obtain w1 w2 where F: "hh_deployFixture (g 0) d ca sa w = Inr w1" "stake_1eth (g 1) alice w1 = Inr w2" "stk_inv w2"
    "view w2 alice = \<lparr>a_staked = True, a_stake = 1000000, a_balance = 0, a_last = w_now w2, a_pending = None\<rparr>"
    "w_eth w2 = (w_eth w)(alice := w_eth w alice - 1000000000000000000, sa := w_eth w sa + 1000000000000000000)"
    "w_payable w2 = w_payable w" "w_stk_addr w2 = sa"
    using fixture_then_stake [OF wf ne funds, of "g 0" d ca "g 1"] by blast
  let ?w2 = "hh_block (g 2) w2"
  have inv2: "stk_inv ?w2" using F(3) by simp
  have SR: "spec_request (w_now ?w2) (view ?w2 alice) = Inr ((spec_accrue (w_now ?w2) (view w2 alice))
      \<lparr>a_staked := False, a_stake := 0, a_pending := Some 1000000\<rparr>)"
    using F(4) by (simp add: spec_request_def Let_def)
  with request_call [OF inv2, of alice] obtain w3
    where R: "send_tx alice (ToStaking CallRequestWithdrawAll) ?w2 = Inr w3"
    by (cases "send_tx alice (ToStaking CallRequestWithdrawAll) ?w2") auto
  note Q = request_call_Inr [OF inv2 R]
  let ?h = "s_stake (w_stk w2) alice"
  have h: "?h \<noteq> 0" using F(4) by (simp add: view_def)
  let ?w3 = "hh_block (g 3) w3"
  have wf3: "world_wf ?w3" using Q by (simp add: stk_inv_def world_wf_def hh_block_def advance_time_def)
  have "a_pending (view w3 alice) = Some 1000000"
    using Q SR by simp
  then have "map_option (fhe_dec (w_fhe w3)) (s_pending (w_stk w3) alice) = Some 1000000"
    unfolding view_def by simp
  then have dec: "fhe_dec (w_fhe w3) ?h = 1000000"
    using Q by simp
  have E3: "w_eth w3 = w_eth w2" "w_payable w3 = w_payable w2" "w_stk_addr w3 = w_stk_addr w2"
    using Q by (simp_all add: env_same_def)
  have O: "oracle_finalize alice ?h ?w3 = Inr
    (?w3\<lparr>w_eth := (w_eth ?w3)(w_stk_addr ?w3 := w_eth ?w3 (w_stk_addr ?w3) - unat (fhe_dec (w_fhe ?w3) ?h) * micro_unit,
                          alice := w_eth ?w3 alice + unat (fhe_dec (w_fhe ?w3) ?h) * micro_unit),
      w_stk := (w_stk ?w3)\<lparr>s_pending := (s_pending (w_stk ?w3))(alice := None)\<rparr>\<rparr>)"
    using F(5,6,7) E3 dec ne pay empty by (intro oracle_finalize_Inr [OF wf3]) (simp_all add: Q micro_unit_def)
  have T: "hh_send (g 2) alice (ToStaking CallRequestWithdrawAll) w2 = Inr w3"
    using R by (simp add: task_send_Inr hh_send_def)
  have "fhe_wf (w_fhe w3)" using Q by (simp add: stk_inv_def world_wf_def)
  moreover have "(w_eth w2)(sa := w_eth w2 sa - 1000000000000000000,
      alice := w_eth w2 alice + 1000000000000000000) = w_eth w"
    using F(5) ne funds empty by (simp add: fun_eq_iff)
  ultimately show ?thesis
    using F(1,2,5,6,7) T O Q E3 dec h ne funds empty
    by (simp add: test_withdraws_all_def getPendingWithdrawCipher_def
        getEncryptedStakedMicroEth_def micro_unit_def)
qed

subsection \<open>The tests pass\<close>

text \<open>
  C31: The suite passes as Hardhat runs it: on the fhEVM mock, the three tests run in
  order on one chain, each on what the previous left, each deploying fresh contracts,
  and all three pass, whatever time passes between their blocks as long as the day of
  the second test stays below \<open>10^12\<close> seconds (beyond it \<open>stake * 10 * elapsed\<close> leaves
  the 64-bit range), provided Alice holds 3 ETH, can receive ETH, and the third
  staking contract's address holds no ETH and differs from the first two.
\<close>

theorem test_suite_passes:
  assumes wf: "fhe_wf (w_fhe w)" and ne: "alice \<noteq> snd f1" "alice \<noteq> snd f2" "alice \<noteq> snd f3"
    and fresh: "snd f3 \<noteq> snd f1" "snd f3 \<noteq> snd f2" "w_eth w (snd f3) = 0"
    and funds: "3000000000000000000 \<le> w_eth w alice" and pay: "w_payable w alice"
    and gaps: "gs 1 2 + gs 1 3 < 10 ^ 12"
  shows "map snd (fst (test_suite True gs d alice f1 f2 f3 w)) = [Passed, Passed, Passed]"
proof -
  obtain enc w1 where T1: "test_stakes_1eth (gs 0) d alice (fst f1) (snd f1) w = Inr ((enc, 1000000), w1)" "enc \<noteq> 0"
    "fhe_wf (w_fhe w1)"
    "w_eth w1 = (w_eth w)(alice := w_eth w alice - 1000000000000000000,
        snd f1 := w_eth w (snd f1) + 1000000000000000000)"
    "w_payable w1 = w_payable w"
    using test_stakes_1eth_run [OF wf ne(1), of "gs 0" d "fst f1"] funds by auto
  have funds1: "1000000000000000000 \<le> w_eth w1 alice" using T1(4) ne(1) funds by simp
  obtain m w2 where T2: "test_mints_pro_rata (gs 1) d alice (fst f2) (snd f2) w1 = Inr ((m, m), w2)"
    "fhe_wf (w_fhe w2)"
    "w_eth w2 = (w_eth w1)(alice := w_eth w1 alice - 1000000000000000000,
        snd f2 := w_eth w1 (snd f2) + 1000000000000000000)"
    "w_payable w2 = w_payable w1"
    using test_mints_pro_rata_run [OF T1(3) ne(2) funds1 gaps, of d "fst f2"] by blast
  have funds2: "1000000000000000000 \<le> w_eth w2 alice" "w_payable w2 alice" "w_eth w2 (snd f3) = 0"
    using T1(4,5) T2(3,4) ne fresh funds pay by simp_all
  obtain bal pending w3 where
    T3: "test_withdraws_all (gs 2) d alice (fst f3) (snd f3) w2 = Inr ((bal, bal + 1000000000000000000, pending, 0, 0), w3)"
    using test_withdraws_all_run [OF T2(2) ne(3) funds2, of "gs 2" d "fst f3"] by blast
  show ?thesis
    using T1(1,2) T2(1) T3 by (simp add: test_suite_def mocha_it_def)
qed

theorem test_suite_passes_witness:
  "map snd (fst (test_suite True (\<lambda>i j. 0) 1 4 (2, 3) (5, 6) (7, 8) \<lparr>w_fhe = fhe_init, w_coin = coin_init 0, w_stk = staking_init,
       w_eth = (\<lambda>_. 0)(4 := 3000000000000000000), w_payable = (\<lambda>_. True), w_kms = 7,
       w_coin_addr = 0, w_stk_addr = 0, w_now = 0\<rparr>)) = [Passed, Passed, Passed]"
  by (rule test_suite_passes) (simp_all add: fhe_init_wf)

end
