(* ===== verification/UI_Flows.thy ===== *)
theory UI_Flows
  imports Tests
begin

text \<open>
  The UI handlers of \<open>StakingApp.tsx\<close> composed with the contracts. With a configuration
  synced to the deployment and a connected wallet, each write handler refines the
  plaintext operation of the spec on the user's account (theory \<open>Staking\<close>): the chain's
  accounts after the click are the spec's, and a spec error leaves them unchanged.
  The handlers' refetches decide what the page shows next; \<open>onRequestWithdraw\<close>
  refetches only the pending handle, so the stake shown stays the old one.
\<close>

text \<open>Small worlds on which the theorems below are exercised.\<close>

abbreviation example_deployed :: world where
  "example_deployed \<equiv> \<lparr>w_fhe = fhe_init, w_coin = (coin_init 5)\<lparr>c_minter := Some 3\<rparr>, w_stk = staking_init,
      w_eth = (\<lambda>_. 2000000000000000000), w_payable = (\<lambda>_. True), w_kms = 7, w_coin_addr = 2,
      w_stk_addr = 3, w_now = 0\<rparr>"

abbreviation example_staked :: world where
  "example_staked \<equiv> apply_tx 4 (ToStaking (CallStake 1000000000000000000)) example_deployed"

abbreviation example_requested :: world where
  "example_requested \<equiv> apply_tx 4 (ToStaking CallRequestWithdrawAll) example_staked"

abbreviation example_cfg :: ui_config where
  "example_cfg \<equiv> \<lparr>cfg_chain_id = 31337, cfg_ccoin_address = 2, cfg_staking_address = 3, cfg_abi_loaded = True\<rparr>"

abbreviation example_session :: session where
  "example_session \<equiv> \<lparr>ses_address = Some 4, ses_zama_loading = False, ses_instance = True\<rparr>"

lemma contract_call_loaded:
  "cfg_abi_loaded cfg \<Longrightarrow> contract_call cfg f a t w = task_send a t w"
  by (simp add: contract_call_def task_send_def)

lemma synced_loaded: "config_synced cfg w \<Longrightarrow> cfg_abi_loaded cfg"
  by (simp add: config_synced_def)

lemma getSigner_Some: "ses_address ses = Some a \<Longrightarrow> getSigner ses = Inr a"
  by (simp add: getSigner_def)

lemma onStake_eq:
  assumes "ses_address ses = Some a" and "parseEther (stakeEth u) = Inr v"
  shows "snd (onStake cfg ses u w) =
     (if v = 0 \<or> js_rem v (int micro_unit) \<noteq> 0 then w
      else case stake_call cfg a v w of Inl _ \<Rightarrow> w | Inr w' \<Rightarrow> w')"
  using assms
  by (auto simp: onStake_def run_handler_def onStake_try_def getSigner_Some Let_def
      split: sum.splits)

lemma js_rem_guard:
  assumes "0 \<le> v"
  shows "(v = 0 \<or> js_rem v (int micro_unit) \<noteq> 0) \<longleftrightarrow> (nat v = 0 \<or> nat v mod micro_unit \<noteq> 0)"
proof -
  obtain n where "v = int n" using assms zero_le_imp_eq_int by blast
  then show ?thesis by (auto simp: js_rem_eq_0 simp flip: of_nat_mod)
qed

subsection \<open>Write handlers refine the plaintext ledger\<close>

text \<open>
  C4: With a synced configuration and a connected wallet holding the ETH, clicking
  "Stake ETH" changes the chain's accounts exactly as the spec's \<open>stake\<close> of the parsed
  amount does on the user's account; when the spec rejects the amount (zero, not a
  multiple of 1 microETH, negative), the chain is left unchanged.
\<close>

theorem onStake_refines:
  assumes inv: "stk_inv w" and sync: "config_synced cfg w" and ses: "ses_address ses = Some a"
    and ext: "a \<noteq> w_stk_addr w" and p: "parseEther (stakeEth u) = Inr v" and funds: "nat v \<le> w_eth w a"
  shows "view (snd (onStake cfg ses u w)) =
    (case spec_stake (w_now w) (nat v) (view w a) of Inl _ \<Rightarrow> view w | Inr x \<Rightarrow> (view w)(a := x))"
proof (cases "v < 0")
  case True
  then have "snd (onStake cfg ses u w) = w"
    using onStake_eq [OF ses p] by (auto simp: stake_call_def split: sum.splits)
  with True show ?thesis by (simp add: spec_stake_def)
next
  case False
  show ?thesis
  proof (cases "nat v = 0 \<or> nat v mod micro_unit \<noteq> 0")
    case True
    with False have "snd (onStake cfg ses u w) = w"
      using onStake_eq [OF ses p] js_rem_guard [of v] by simp
    with True show ?thesis by (auto simp: spec_stake_def)
  next
    case good: False
    obtain w' where S: "task_send a (ToStaking (CallStake (nat v))) w = Inr w'"
      "spec_stake (w_now w) (nat v) (view w a) = Inr (view w' a)"
      "\<forall>b. b \<noteq> a \<longrightarrow> view w' b = view w b"
      using stake_call_ok [OF inv ext funds] good by auto
    have "snd (onStake cfg ses u w) = w'"
      using onStake_eq [OF ses p] js_rem_guard [of v] False good S(1)
      by (simp add: stake_call_def contract_call_loaded [OF synced_loaded [OF sync]])
    moreover have "view w' = (view w)(a := view w' a)"
      using S(3) by (intro view_upd) simp_all
    ultimately show ?thesis using S(2) by simp
  qed
qed

lemma read_query_synced:
  "config_synced cfg w' \<Longrightarrow> ses_address ses = Some a \<Longrightarrow> read_query cfg ses f w = Some (f w a)"
  by (simp add: read_query_def config_synced_def isConfigured_def)

lemma onClaim_eq:
  assumes "ses_address ses = Some a" and "cfg_abi_loaded cfg"
    and "task_send a (ToStaking CallClaimInterest) w = Inr w'"
  shows "onClaim cfg ses u w = (refetch_ccoin cfg ses w' (u\<lparr>uerror := None, busy := None\<rparr>), w')"
  using assms
  by (simp add: onClaim_def run_handler_def onClaim_try_def getSigner_Some contract_call_loaded
      refetch_ccoin_def)

lemma config_synced_env_same: "env_same w w' \<Longrightarrow> config_synced cfg w' = config_synced cfg w"
  by (simp add: config_synced_def env_same_def)

lemma onClaim_step:
  assumes inv: "stk_inv w" and sync: "config_synced cfg w" and ses: "ses_address ses = Some a"
  shows "view (snd (onClaim cfg ses u w)) = (view w)(a := spec_accrue (w_now w) (view w a))
    \<and> stk_inv (snd (onClaim cfg ses u w)) \<and> env_same w (snd (onClaim cfg ses u w))
    \<and> fst (onClaim cfg ses u w) = refetch_ccoin cfg ses (snd (onClaim cfg ses u w)) (u\<lparr>uerror := None, busy := None\<rparr>)"
proof -
  obtain w' where C: "task_send a (ToStaking CallClaimInterest) w = Inr w'" "stk_inv w'"
    "view w' a = spec_accrue (w_now w) (view w a)" "\<forall>b. b \<noteq> a \<longrightarrow> view w' b = view w b"
    "env_same w w'"
    using claim_call_ok [OF inv] by blast
  have "view w' = (view w)(a := spec_accrue (w_now w) (view w a))"
    using C(3,4) by (intro view_upd) simp_all
  then show ?thesis
    using onClaim_eq [OF ses synced_loaded [OF sync] C(1)] C(2,5) by simp
qed

text \<open>
  C17: With a synced configuration and a connected wallet, "Claim interest" always
  succeeds: the chain's accounts become the spec's accrual of the user's account, no
  error is shown, and the coin balance handle the page holds is the new one.
\<close>

theorem onClaim_refines:
  assumes inv: "stk_inv w" and sync: "config_synced cfg w" and ses: "ses_address ses = Some a"
  shows "view (snd (onClaim cfg ses u w)) = (view w)(a := spec_accrue (w_now w) (view w a))
    \<and> uerror (fst (onClaim cfg ses u w)) = None
    \<and> ccoinBalanceCipher (fst (onClaim cfg ses u w)) = Some (coinBalanceOf (snd (onClaim cfg ses u w)) a)"
  using onClaim_step [OF inv sync ses, of u] read_query_synced [OF sync ses]
    config_synced_env_same [of w "snd (onClaim cfg ses u w)" cfg] sync
  by (simp add: refetch_ccoin_def)

text \<open>
  C29: Accounts are independent (spec section 5): two users who press "Claim interest"
  in the same block leave the decrypted accounts the same whichever click is mined
  first.
\<close>

theorem onClaim_commute:
  assumes inv: "stk_inv w" and sync: "config_synced cfg w"
    and sa: "ses_address sa = Some a" and sb: "ses_address sb = Some b"
  shows "view (snd (onClaim cfg sb ub (snd (onClaim cfg sa ua w))))
       = view (snd (onClaim cfg sa ua (snd (onClaim cfg sb ub w))))"
proof -
  let ?wa = "snd (onClaim cfg sa ua w)" and ?wb = "snd (onClaim cfg sb ub w)"
  have A: "view ?wa = (view w)(a := spec_accrue (w_now w) (view w a))" "stk_inv ?wa" "env_same w ?wa"
    using onClaim_step [OF inv sync sa] by simp_all
  have B: "view ?wb = (view w)(b := spec_accrue (w_now w) (view w b))" "stk_inv ?wb" "env_same w ?wb"
    using onClaim_step [OF inv sync sb] by simp_all
  have sa': "config_synced cfg ?wa" and sb': "config_synced cfg ?wb"
    using config_synced_env_same [OF A(3)] config_synced_env_same [OF B(3)] sync by simp_all
  have "w_now ?wa = w_now w" "w_now ?wb = w_now w"
    using A(3) B(3) by (simp_all add: env_same_def)
  then show ?thesis
    using onClaim_step [OF A(2) sa' sb, of ub] onClaim_step [OF B(2) sb' sa, of ua] A(1) B(1)
    by (cases "a = b") (simp_all add: fun_upd_twist)
qed

lemma onRequestWithdraw_eq:
  assumes "ses_address ses = Some a" and "cfg_abi_loaded cfg"
  shows "onRequestWithdraw cfg ses u w =
    (case send_tx a (ToStaking CallRequestWithdrawAll) w of
       Inl e \<Rightarrow> (u\<lparr>uerror := Some (tx_message e), busy := None\<rparr>, w)
     | Inr w' \<Rightarrow> (refetch_pending cfg ses w' (u\<lparr>uerror := None, busy := None\<rparr>), w'))"
proof (cases "send_tx a (ToStaking CallRequestWithdrawAll) w")
  case (Inl e)
  have "tx_message e \<noteq> []" by (cases e) simp_all
  with Inl assms show ?thesis
    by (simp add: onRequestWithdraw_def run_handler_def onRequestWithdraw_try_def getSigner_Some
        contract_call_loaded task_send_def)
next
  case (Inr w')
  with assms show ?thesis
    by (simp add: onRequestWithdraw_def run_handler_def onRequestWithdraw_try_def getSigner_Some
        contract_call_loaded task_send_def refetch_pending_def)
qed

text \<open>
  C18: With a synced configuration and a connected wallet, "Request withdraw" changes
  the chain's accounts exactly as the spec's \<open>requestWithdrawAll\<close> on the user's
  account; when the spec fails (no stake, or a request already pending) the chain is
  unchanged and the banner shows that revert.
\<close>

theorem onRequestWithdraw_refines:
  assumes inv: "stk_inv w" and sync: "config_synced cfg w" and ses: "ses_address ses = Some a"
  shows "(case spec_request (w_now w) (view w a) of
            Inl e \<Rightarrow> snd (onRequestWithdraw cfg ses u w) = w
                     \<and> uerror (fst (onRequestWithdraw cfg ses u w)) = Some (tx_message (Reverted e))
          | Inr x \<Rightarrow> view (snd (onRequestWithdraw cfg ses u w)) = (view w)(a := x)
                     \<and> uerror (fst (onRequestWithdraw cfg ses u w)) = None)"
  using request_call [OF inv, of a] onRequestWithdraw_eq [OF ses synced_loaded [OF sync], of u w]
  by (cases "send_tx a (ToStaking CallRequestWithdrawAll) w"; cases "spec_request (w_now w) (view w a)")
     (simp_all add: refetch_pending_def)

subsection \<open>What the page shows after a withdrawal request\<close>

lemma onDecryptStake_shows:
  assumes "ses_instance ses" and "ses_address ses = Some a" and "stakeCipher u = Some h" and "h \<noteq> 0"
  shows "decryptedStakeMicroEth (fst (onDecryptStake ses u w)) = Some (int (unat (fhe_dec (w_fhe w) h)))"
  using assms
  by (simp add: onDecryptStake_def run_handler_def onDecryptStake_try_def shown_handle_def userDecrypt_def)

lemma request_pending_value:
  assumes inv: "stk_inv w" and R: "send_tx a (ToStaking CallRequestWithdrawAll) w = Inr w1"
  shows "s_pending (w_stk w1) a = Some (s_stake (w_stk w) a) \<and> s_stake (w_stk w) a \<noteq> 0
    \<and> fhe_dec (w_fhe w1) (s_stake (w_stk w) a) = a_stake (view w a) \<and> a_stake (view w1 a) = 0"
proof -
  note Q = request_call_Inr [OF inv R]
  obtain x where ok: "spec_request (w_now w) (view w a) = Inr x" and x: "view w1 a = x"
    using Q by blast
  have xs: "a_stake x = 0" "a_pending x = Some (a_stake (view w a))" "s_stake (w_stk w) a \<noteq> 0"
    using ok by (auto simp: spec_request_def Let_def split: if_splits)
  have "a_pending (view w1 a) = Some (fhe_dec (w_fhe w1) (s_stake (w_stk w) a))"
    using Q by (simp add: view_def)
  with x xs Q show ?thesis by simp
qed

text \<open>
  C20: After a successful "Request withdraw" the contract's stake is zero, but the page
  still holds the old stake handle, because \<open>onRequestWithdraw\<close> refetches only the
  pending handle: "Decrypt stake" then shows the stake the user had before the request.
\<close>

theorem onRequestWithdraw_stale_stake:
  assumes inv: "stk_inv w" and sync: "config_synced cfg w" and ses: "ses_address ses = Some a"
    and inst: "ses_instance ses"
    and fresh: "stakeCipher u = read_query cfg ses getEncryptedStakedMicroEth w"
    and ok: "spec_request (w_now w) (view w a) = Inr x"
  shows "a_stake (view (snd (onRequestWithdraw cfg ses u w)) a) = 0
    \<and> decryptedStakeMicroEth (fst (onDecryptStake ses (fst (onRequestWithdraw cfg ses u w))
          (snd (onRequestWithdraw cfg ses u w)))) = Some (int (unat (a_stake (view w a))))"
proof -
  obtain w' where R: "send_tx a (ToStaking CallRequestWithdrawAll) w = Inr w'"
    using request_call [OF inv, of a] ok
    by (cases "send_tx a (ToStaking CallRequestWithdrawAll) w") auto
  note P = request_pending_value [OF inv R]
  have u1: "onRequestWithdraw cfg ses u w = (refetch_pending cfg ses w' (u\<lparr>uerror := None, busy := None\<rparr>), w')"
    using onRequestWithdraw_eq [OF ses synced_loaded [OF sync], of u w] R by simp
  have "stakeCipher (fst (onRequestWithdraw cfg ses u w)) = Some (s_stake (w_stk w) a)"
    using u1 fresh read_query_synced [OF sync ses] by (simp add: refetch_pending_def getEncryptedStakedMicroEth_def)
  then show ?thesis
    using u1 P onDecryptStake_shows [OF inst ses _ conjunct1 [OF conjunct2 [OF P]]] by simp
qed

subsection \<open>Every pending withdrawal can be finalized\<close>

lemma onFinalizeWithdraw_try_eq:
  assumes "cfg_abi_loaded cfg" and "ses_instance ses" and "ses_address ses = Some a"
    and "pendingWithdrawCipher u = Some h" and "h \<noteq> 0"
  shows "onFinalizeWithdraw_try cfg ses u w =
    rbind (oracle_finalize a h w) (\<lambda>w'. Inr (refetch_pending cfg ses w' (refetch_stake cfg ses w'
      (u\<lparr>decryptedStakeMicroEth := None\<rparr>)), w'))"
  using assms
  by (simp add: onFinalizeWithdraw_try_def oracle_finalize_def getSigner_Some shown_handle_def
      contract_call_loaded split: option.splits)

lemma stk_inv_finalize_ready:
  assumes "stk_inv w" and "s_pending (w_stk w) a = Some h"
  shows "world_wf w" "h \<noteq> 0" "unat (fhe_dec (w_fhe w) h) * micro_unit \<le> w_eth w (w_stk_addr w)"
  using assms world_wf_pending_public [of w a h] stk_inv_pending_funds [OF assms]
  by (simp_all add: stk_inv_def)

text \<open>
  C19: "Finalize withdraw" completes any pending request the page shows: with a synced
  configuration, a connected wallet that accepts ETH and the relayer ready, in any world
  with the staking invariant, the click succeeds without an error, pays the user the
  decrypted stake in wei, clears the request on chain and resets the decrypted stake.
\<close>

theorem onFinalizeWithdraw_pays:
  assumes inv: "stk_inv w" and sync: "config_synced cfg w" and ses: "ses_address ses = Some a"
    and inst: "ses_instance ses" and ext: "a \<noteq> w_stk_addr w" and pay: "w_payable w a"
    and p: "s_pending (w_stk w) a = Some h" and cache: "pendingWithdrawCipher u = Some h"
  shows "uerror (fst (onFinalizeWithdraw cfg ses u w)) = None
    \<and> w_eth (snd (onFinalizeWithdraw cfg ses u w)) a = w_eth w a + unat (fhe_dec (w_fhe w) h) * micro_unit
    \<and> getPendingWithdrawCipher (snd (onFinalizeWithdraw cfg ses u w)) a = 0
    \<and> decryptedStakeMicroEth (fst (onFinalizeWithdraw cfg ses u w)) = None"
proof -
  note R = stk_inv_finalize_ready [OF inv p]
  have F: "onFinalizeWithdraw_try cfg ses (u\<lparr>uerror := None, busy := Some ''finalizeWithdraw''\<rparr>) w =
    rbind (oracle_finalize a h w) (\<lambda>w'. Inr (refetch_pending cfg ses w' (refetch_stake cfg ses w'
      ((u\<lparr>uerror := None, busy := Some ''finalizeWithdraw''\<rparr>)\<lparr>decryptedStakeMicroEth := None\<rparr>)), w'))"
    using onFinalizeWithdraw_try_eq [OF synced_loaded [OF sync] inst ses _ R(2)] cache by simp
  show ?thesis
    using F oracle_finalize_Inr [OF R(1) p pay ext R(3)] ext
    by (simp add: onFinalizeWithdraw_def run_handler_def refetch_pending_def refetch_stake_def
        getPendingWithdrawCipher_def)
qed

text \<open>
  C15: In every reachable world, a user with a pending withdrawal who accepts ETH can
  always finalize it with \<open>task:secureapr:finalize-withdraw\<close>: solvency guarantees the
  contract holds the amount, and the task pays exactly the decrypted stake.
\<close>

theorem reachable_finalize_live:
  assumes r: "reachable w" and p: "s_pending (w_stk w) a = Some h"
    and pay: "w_payable w a" and ext: "a \<noteq> w_stk_addr w"
  shows "\<exists>w'. task_finalize_withdraw a w = Inr ([LogTxWait, Log ''Withdraw finalized.''], w')
    \<and> w_eth w' a = w_eth w a + unat (fhe_dec (w_fhe w) h) * micro_unit
    \<and> s_pending (w_stk w') a = None"
proof -
  note R = stk_inv_finalize_ready [OF reachable_inv [OF r] p]
  show ?thesis
    using task_finalize_withdraw_Inr [OF R(1) p pay ext R(3)] ext by simp
qed

text \<open>
  C16: The withdrawal round trip through the UI: from any world with the staking
  invariant where the user has a stake and no pending request, clicking "Request
  withdraw" and then "Finalize withdraw" (with a synced configuration, a connected
  wallet that accepts ETH and the relayer ready) shows no error, pays back exactly the
  staked microETH in wei, and leaves no stake and no pending request.
\<close>

theorem ui_withdraw_roundtrip:
  assumes inv: "stk_inv w" and sync: "config_synced cfg w" and ses: "ses_address ses = Some a"
    and inst: "ses_instance ses" and ext: "a \<noteq> w_stk_addr w" and pay: "w_payable w a"
    and staked: "s_stake (w_stk w) a \<noteq> 0" and nopend: "s_pending (w_stk w) a = None"
  shows "uerror (fst (onFinalizeWithdraw cfg ses (fst (onRequestWithdraw cfg ses u w)) (snd (onRequestWithdraw cfg ses u w)))) = None
    \<and> w_eth (snd (onFinalizeWithdraw cfg ses (fst (onRequestWithdraw cfg ses u w)) (snd (onRequestWithdraw cfg ses u w)))) a
        = w_eth w a + unat (a_stake (view w a)) * micro_unit
    \<and> a_stake (view (snd (onFinalizeWithdraw cfg ses (fst (onRequestWithdraw cfg ses u w)) (snd (onRequestWithdraw cfg ses u w)))) a) = 0
    \<and> a_pending (view (snd (onFinalizeWithdraw cfg ses (fst (onRequestWithdraw cfg ses u w)) (snd (onRequestWithdraw cfg ses u w)))) a) = None"
proof -
  have "spec_request (w_now w) (view w a) = Inr ((spec_accrue (w_now w) (view w a))
      \<lparr>a_staked := False, a_stake := 0, a_pending := Some (a_stake (view w a))\<rparr>)"
    using staked nopend by (simp add: spec_request_def)
  then obtain w1 where R: "send_tx a (ToStaking CallRequestWithdrawAll) w = Inr w1"
    using request_call [OF inv, of a]
    by (cases "send_tx a (ToStaking CallRequestWithdrawAll) w") auto
  note Q = request_call_Inr [OF inv R]
  note P = request_pending_value [OF inv R]
  let ?h = "s_stake (w_stk w) a"
  have inv1: "stk_inv w1" and env: "env_same w w1" using Q by simp_all
  have E: "w_eth w1 = w_eth w" "w_payable w1 = w_payable w" "w_stk_addr w1 = w_stk_addr w"
    using env by (simp_all add: env_same_def)
  define u1 where "u1 = refetch_pending cfg ses w1 (u\<lparr>uerror := None, busy := None\<rparr>)"
  have U: "onRequestWithdraw cfg ses u w = (u1, w1)"
    using onRequestWithdraw_eq [OF ses synced_loaded [OF sync], of u w] R by (simp add: u1_def)
  have sync1: "config_synced cfg w1" using sync env by (simp add: config_synced_def env_same_def)
  have cache: "pendingWithdrawCipher u1 = Some ?h"
    using read_query_synced [OF sync1 ses] P by (simp add: u1_def refetch_pending_def getPendingWithdrawCipher_def)
  note F = stk_inv_finalize_ready [OF inv1 conjunct1 [OF P]]
  have T: "onFinalizeWithdraw_try cfg ses (u1\<lparr>uerror := None, busy := Some ''finalizeWithdraw''\<rparr>) w1 =
    rbind (oracle_finalize a ?h w1) (\<lambda>w'. Inr (refetch_pending cfg ses w' (refetch_stake cfg ses w'
      ((u1\<lparr>uerror := None, busy := Some ''finalizeWithdraw''\<rparr>)\<lparr>decryptedStakeMicroEth := None\<rparr>)), w'))"
    using onFinalizeWithdraw_try_eq [OF synced_loaded [OF sync] inst ses _ F(2)] cache by simp
  have O: "oracle_finalize a ?h w1 = Inr
    (w1\<lparr>w_eth := (w_eth w1)(w_stk_addr w1 := w_eth w1 (w_stk_addr w1) - unat (fhe_dec (w_fhe w1) ?h) * micro_unit,
                          a := w_eth w1 a + unat (fhe_dec (w_fhe w1) ?h) * micro_unit),
      w_stk := (w_stk w1)\<lparr>s_pending := (s_pending (w_stk w1))(a := None)\<rparr>\<rparr>)"
    using oracle_finalize_Inr [OF F(1) conjunct1 [OF P]] pay ext E F(3) by simp
  show ?thesis
    unfolding U using T O P E ext
    by (simp add: onFinalizeWithdraw_def run_handler_def view_def)
qed

subsection \<open>What the page shows after a decryption\<close>

subsection \<open>Examples\<close>

lemma example_reachable:
  "reachable example_deployed" "reachable example_staked" "reachable example_requested"
proof -
  have "deploy_secureapr \<lparr>network_name = ''hardhat'', PRIVATE_KEY = None, INFURA_API_KEY = None\<rparr> 5 2 3
      \<lparr>w_fhe = fhe_init, w_coin = coin_init 0, w_stk = staking_init,
       w_eth = (\<lambda>_. 2000000000000000000), w_payable = (\<lambda>_. True), w_kms = 7, w_coin_addr = 0,
       w_stk_addr = 0, w_now = 0\<rparr> = Inr example_deployed"
    by (simp add: deploy_secureapr_def deploy_set_minter)
  then show r1: "reachable example_deployed"
    by (rule reachable.deploy [rotated]) (simp add: fhe_init_wf)
  then show r2: "reachable example_staked"
    by (rule reachable.tx) simp_all
  then show "reachable example_requested"
    by (rule reachable.tx) (simp_all add: apply_tx_def send_tx_def pay_in_def stake_def start_clock_def
        add_stake_def fhe_ops fhe_new_def Let_def fhe_init_def staking_init_def micro_unit_def)
qed

lemmas example_inv = example_reachable [THEN reachable_inv]

lemmas example_eval = apply_tx_def send_tx_def pay_in_def stake_def start_clock_def add_stake_def fhe_ops
  fhe_new_def requestWithdrawAll_def accrue_and_mint_def accrue_def mint_def Let_def
  fhe_init_def staking_init_def coin_init_def micro_unit_def

lemma example_addrs:
  "w_stk_addr example_staked = 3" "w_coin_addr example_staked = 2"
  "w_stk_addr example_requested = 3" "w_coin_addr example_requested = 2"
  by (simp_all add: example_eval)

theorem onStake_refines_witness:
  "view (snd (onStake example_cfg example_session (ui_init\<lparr>stakeEth := ''1.0''\<rparr>) example_deployed)) =
    (case spec_stake (w_now example_deployed) (nat 1000000000000000000) (view example_deployed 4) of
       Inl _ \<Rightarrow> view example_deployed | Inr x \<Rightarrow> (view example_deployed)(4 := x))"
  by (rule onStake_refines) (simp_all add: example_inv config_synced_def parseEther_1 ui_init_def)

theorem onClaim_refines_witness:
  "view (snd (onClaim example_cfg example_session ui_init example_staked))
      = (view example_staked)(4 := spec_accrue (w_now example_staked) (view example_staked 4))
    \<and> uerror (fst (onClaim example_cfg example_session ui_init example_staked)) = None
    \<and> ccoinBalanceCipher (fst (onClaim example_cfg example_session ui_init example_staked))
      = Some (coinBalanceOf (snd (onClaim example_cfg example_session ui_init example_staked)) 4)"
  by (rule onClaim_refines) (simp_all add: example_inv config_synced_def example_addrs)

theorem onRequestWithdraw_refines_witness:
  "(case spec_request (w_now example_staked) (view example_staked 4) of
      Inl e \<Rightarrow> snd (onRequestWithdraw example_cfg example_session ui_init example_staked) = example_staked
        \<and> uerror (fst (onRequestWithdraw example_cfg example_session ui_init example_staked)) = Some (tx_message (Reverted e))
    | Inr x \<Rightarrow> view (snd (onRequestWithdraw example_cfg example_session ui_init example_staked)) = (view example_staked)(4 := x)
        \<and> uerror (fst (onRequestWithdraw example_cfg example_session ui_init example_staked)) = None)"
  by (rule onRequestWithdraw_refines) (simp_all add: example_inv config_synced_def example_addrs)

theorem onRequestWithdraw_stale_stake_witness:
  "a_stake (view (snd (onRequestWithdraw example_cfg example_session
        (ui_init\<lparr>stakeCipher := read_query example_cfg example_session getEncryptedStakedMicroEth example_staked\<rparr>)
        example_staked)) 4) = 0
   \<and> decryptedStakeMicroEth (fst (onDecryptStake example_session
        (fst (onRequestWithdraw example_cfg example_session
          (ui_init\<lparr>stakeCipher := read_query example_cfg example_session getEncryptedStakedMicroEth example_staked\<rparr>)
          example_staked))
        (snd (onRequestWithdraw example_cfg example_session
          (ui_init\<lparr>stakeCipher := read_query example_cfg example_session getEncryptedStakedMicroEth example_staked\<rparr>)
          example_staked)))) = Some (int (unat (a_stake (view example_staked 4))))"
proof (rule onRequestWithdraw_stale_stake)
  show "spec_request (w_now example_staked) (view example_staked 4) =
    Inr \<lparr>a_staked = False, a_stake = 0, a_balance = 0, a_last = 0, a_pending = Some 1000000\<rparr>"
    by (simp add: example_eval spec_request_def spec_accrue_def view_def fhe_dec_def accrual_factor_def)
qed (simp_all add: example_inv config_synced_def example_addrs)

theorem onFinalizeWithdraw_pays_witness:
  "uerror (fst (onFinalizeWithdraw example_cfg example_session (ui_init\<lparr>pendingWithdrawCipher := Some 2\<rparr>) example_requested)) = None
   \<and> w_eth (snd (onFinalizeWithdraw example_cfg example_session (ui_init\<lparr>pendingWithdrawCipher := Some 2\<rparr>) example_requested)) 4
       = w_eth example_requested 4 + unat (fhe_dec (w_fhe example_requested) 2) * micro_unit
   \<and> getPendingWithdrawCipher (snd (onFinalizeWithdraw example_cfg example_session (ui_init\<lparr>pendingWithdrawCipher := Some 2\<rparr>) example_requested)) 4 = 0
   \<and> decryptedStakeMicroEth (fst (onFinalizeWithdraw example_cfg example_session (ui_init\<lparr>pendingWithdrawCipher := Some 2\<rparr>) example_requested)) = None"
  proof (rule onFinalizeWithdraw_pays)
  show "s_pending (w_stk example_requested) 4 = Some 2" by (simp add: example_eval)
  show "(4::nat) \<noteq> w_stk_addr example_requested" by (simp add: example_addrs)
  show "w_payable example_requested 4" by (simp add: example_eval)
qed (simp_all add: example_inv config_synced_def example_addrs ui_init_def)

theorem reachable_finalize_live_witness:
  "\<exists>w'. task_finalize_withdraw 4 example_requested = Inr ([LogTxWait, Log ''Withdraw finalized.''], w')
    \<and> w_eth w' 4 = w_eth example_requested 4 + unat (fhe_dec (w_fhe example_requested) 2) * micro_unit
    \<and> s_pending (w_stk w') 4 = None"
proof (rule reachable_finalize_live)
  show "s_pending (w_stk example_requested) 4 = Some 2" by (simp add: example_eval)
  show "w_payable example_requested 4" by (simp add: example_eval)
qed (simp_all add: example_reachable example_addrs)

theorem ui_withdraw_roundtrip_witness:
  "uerror (fst (onFinalizeWithdraw example_cfg example_session (fst (onRequestWithdraw example_cfg example_session ui_init example_staked)) (snd (onRequestWithdraw example_cfg example_session ui_init example_staked)))) = None
    \<and> w_eth (snd (onFinalizeWithdraw example_cfg example_session (fst (onRequestWithdraw example_cfg example_session ui_init example_staked)) (snd (onRequestWithdraw example_cfg example_session ui_init example_staked)))) 4 = w_eth example_staked 4 + unat (a_stake (view example_staked 4)) * micro_unit
    \<and> a_stake (view (snd (onFinalizeWithdraw example_cfg example_session (fst (onRequestWithdraw example_cfg example_session ui_init example_staked)) (snd (onRequestWithdraw example_cfg example_session ui_init example_staked)))) 4) = 0
    \<and> a_pending (view (snd (onFinalizeWithdraw example_cfg example_session (fst (onRequestWithdraw example_cfg example_session ui_init example_staked)) (snd (onRequestWithdraw example_cfg example_session ui_init example_staked)))) 4) = None"
proof (rule ui_withdraw_roundtrip)
  show "stk_inv example_staked" by (rule example_inv(2))
  show "s_stake (w_stk example_staked) 4 \<noteq> 0" "s_pending (w_stk example_staked) 4 = None"
    "w_payable example_staked 4"
    by (simp_all add: example_eval)
qed (simp_all add: config_synced_def example_addrs)


theorem onClaim_commute_witness:
  "view (snd (onClaim example_cfg \<lparr>ses_address = Some 5, ses_zama_loading = False, ses_instance = True\<rparr> ui_init
       (snd (onClaim example_cfg example_session ui_init example_staked))))
   = view (snd (onClaim example_cfg example_session ui_init
       (snd (onClaim example_cfg \<lparr>ses_address = Some 5, ses_zama_loading = False, ses_instance = True\<rparr> ui_init example_staked))))"
  by (rule onClaim_commute) (simp_all add: example_inv config_synced_def example_addrs)

end
