(* ===== verification/Accrual.thy ===== *)
theory Accrual
  imports UI_Flows
begin

text \<open>
  Interest accrual through the clients, with the 64-bit arithmetic of \<open>euint64\<close>. While
  the product \<open>stake * rate * elapsed\<close> and the new balance fit in 64 bits, a claim mints
  exactly \<open>floor(stake * 10 * elapsed / 86400)\<close> units, the spec's formula. The section
  ends with the second withdrawal request, which fails with
  \<open>WithdrawalAlreadyPending\<close>.
\<close>

lemma task_claim_eq:
  "task_send a (ToStaking CallClaimInterest) w = Inr w' \<Longrightarrow>
   task_claim a w = Inr ([LogTxWait, Log ''Interest claimed''], w')"
  by (simp add: task_claim_def)

text \<open>
  C23: \<open>task:secureapr:claim\<close> on any world with the staking invariant succeeds and, while
  \<open>stake * 10 * elapsed\<close> and the new balance fit in 64 bits, mints exactly
  \<open>floor(stake * 10 * elapsed / 86400)\<close> reward units and moves the accrual time to now.
\<close>

theorem task_claim_mints_exact:
  assumes inv: "stk_inv w"
    and f: "rate_per_eth_per_day * (w_now w - a_last (view w a)) < 2 ^ 64"
    and m: "unat (a_stake (view w a)) * (rate_per_eth_per_day * (w_now w - a_last (view w a))) < 2 ^ 64"
    and b: "unat (a_balance (view w a))
        + unat (a_stake (view w a)) * rate_per_eth_per_day * (w_now w - a_last (view w a)) div seconds_per_day < 2 ^ 64"
  shows "\<exists>w'. task_claim a w = Inr ([LogTxWait, Log ''Interest claimed''], w')
    \<and> unat (a_balance (view w' a)) = unat (a_balance (view w a))
        + unat (a_stake (view w a)) * rate_per_eth_per_day * (w_now w - a_last (view w a)) div seconds_per_day
    \<and> a_last (view w' a) = w_now w"
proof -
  obtain w' where C: "task_send a (ToStaking CallClaimInterest) w = Inr w'"
    "view w' a = spec_accrue (w_now w) (view w a)"
    using claim_call_ok [OF inv] by blast
  show ?thesis
    using task_claim_eq [OF C(1)] C(2) spec_accrue_exact [OF f m b] by simp
qed

subsection \<open>A second withdrawal request\<close>

text \<open>
  C27: A second \<open>task:secureapr:request-withdraw\<close> right after a successful one fails with
  \<open>WithdrawalAlreadyPending\<close> (spec sections 5 and 8) and the chain is left as it was.
\<close>

theorem task_second_request_pending:
  assumes inv: "stk_inv w" and first: "task_request_withdraw a w = Inr (out, w1)"
  shows "task_request_withdraw a w1 = Inl ''execution reverted: WithdrawalAlreadyPending''
    \<and> apply_tx a (ToStaking CallRequestWithdrawAll) w1 = w1"
proof -
  have R: "send_tx a (ToStaking CallRequestWithdrawAll) w = Inr w1"
    using first by (auto simp: task_request_withdraw_def rbind_eq_Inr task_send_Inr)
  note Q = request_call_Inr [OF inv R]
  have "a_pending (view w1 a) \<noteq> None"
    using Q by (auto simp: spec_request_def Let_def split: if_splits)
  hence "spec_request (w_now w1) (view w1 a) = Inl WithdrawalAlreadyPending"
    by (simp add: spec_request_def)
  then have "send_tx a (ToStaking CallRequestWithdrawAll) w1 = Inl (Reverted WithdrawalAlreadyPending)"
    using request_call [of w1 a] Q
    by (cases "send_tx a (ToStaking CallRequestWithdrawAll) w1") auto
  then show ?thesis
    by (simp add: task_request_withdraw_def task_send_def)
qed

theorem task_second_request_pending_witness:
  "task_request_withdraw 4 example_requested = Inl ''execution reverted: WithdrawalAlreadyPending''
    \<and> apply_tx 4 (ToStaking CallRequestWithdrawAll) example_requested = example_requested"
proof (rule task_second_request_pending)
  show "stk_inv example_staked" by (rule example_inv(2))
  have "spec_request (w_now example_staked) (view example_staked 4) =
    Inr \<lparr>a_staked = False, a_stake = 0, a_balance = 0, a_last = 0, a_pending = Some 1000000\<rparr>"
    by (simp add: example_eval spec_request_def spec_accrue_def view_def fhe_dec_def accrual_factor_def)
  then obtain w' where "send_tx 4 (ToStaking CallRequestWithdrawAll) example_staked = Inr w'"
    using request_call [OF example_inv(2), of 4]
    by (cases "send_tx 4 (ToStaking CallRequestWithdrawAll) example_staked") auto
  then show "task_request_withdraw 4 example_staked = Inr ([LogTxWait, Log ''Withdraw requested''], example_requested)"
    by (simp add: task_request_withdraw_def task_send_def apply_tx_def)
qed

lemma example_staked_view:
  "view example_staked 4 = \<lparr>a_staked = True, a_stake = 1000000, a_balance = 0, a_last = 0, a_pending = None\<rparr>"
  "w_now example_staked = 0"
  by (simp_all add: example_eval view_def fhe_dec_def)

theorem task_claim_mints_exact_witness:
  "\<exists>w'. task_claim 4 (advance_time 86400 example_staked) = Inr ([LogTxWait, Log ''Interest claimed''], w')
    \<and> unat (a_balance (view w' 4)) = unat (a_balance (view (advance_time 86400 example_staked) 4))
        + unat (a_stake (view (advance_time 86400 example_staked) 4)) * rate_per_eth_per_day * (w_now (advance_time 86400 example_staked) - a_last (view (advance_time 86400 example_staked) 4)) div seconds_per_day
    \<and> a_last (view w' 4) = w_now (advance_time 86400 example_staked)"
proof (rule task_claim_mints_exact)
  show "stk_inv (advance_time 86400 example_staked)" using example_inv(2) by simp
  have "w_now (advance_time 86400 example_staked) = 86400"
    using example_staked_view(2) by (simp add: advance_time_def)
  then show "rate_per_eth_per_day * (w_now (advance_time 86400 example_staked)
      - a_last (view (advance_time 86400 example_staked) 4)) < 2 ^ 64"
    "unat (a_stake (view (advance_time 86400 example_staked) 4)) * (rate_per_eth_per_day *
      (w_now (advance_time 86400 example_staked) - a_last (view (advance_time 86400 example_staked) 4))) < 2 ^ 64"
    "unat (a_balance (view (advance_time 86400 example_staked) 4))
      + unat (a_stake (view (advance_time 86400 example_staked) 4)) * rate_per_eth_per_day
        * (w_now (advance_time 86400 example_staked) - a_last (view (advance_time 86400 example_staked) 4))
        div seconds_per_day < 2 ^ 64"
    by (simp_all add: example_staked_view rate_per_eth_per_day_def seconds_per_day_def)
qed

end
