(* ===== verification/System.thy ===== *)
theory System
  imports Accrual
begin

text \<open>
  The whole system as it runs: browsers clicking the buttons of \<open>StakingApp.tsx\<close>,
  operators running the Hardhat tasks of \<open>src/tasks/SecureAPR.ts\<close>, and blocks being
  mined, interleaved in any order on one chain. \<open>run_task\<close> is the dispatch of
  \<open>npx hardhat task:secureapr:...\<close> to the task registered under that name.
  \<open>sys_step\<close> is one such event; a browser may hold any page state and any
  configuration, stale or not. The theorems show that each event is either no change or
  one transaction of an external account whose finalize proofs the oracle issued, so
  that every world reachable by the system is reachable in the sense of theory
  \<open>Deploy\<close> and satisfies the staking invariant.
\<close>

datatype hh_task = TaskStake string | TaskClaim | TaskDecryptStake | TaskDecryptCcoin
  | TaskRequestWithdraw | TaskFinalizeWithdraw

fun run_task :: "addr \<Rightarrow> hh_task \<Rightarrow> world \<Rightarrow> string + console list \<times> world" where
  "run_task signer (TaskStake eth) w = task_stake signer eth w"
| "run_task signer TaskClaim w = task_claim signer w"
| "run_task signer TaskDecryptStake w = Inr (task_decrypt_stake signer w, w)"
| "run_task signer TaskDecryptCcoin w = Inr (task_decrypt_ccoin signer w, w)"
| "run_task signer TaskRequestWithdraw w = task_request_withdraw signer w"
| "run_task signer TaskFinalizeWithdraw w = task_finalize_withdraw signer w"

inductive sys_step :: "world \<Rightarrow> world \<Rightarrow> bool" where
  click: "ses_address ses \<noteq> Some (w_stk_addr w) \<Longrightarrow> sys_step w (snd (ui_handle cfg ses act u w))"
| task: "signer \<noteq> w_stk_addr w \<Longrightarrow> run_task signer tk w = Inr (out, w') \<Longrightarrow> sys_step w w'"
| mine: "sys_step w (advance_time dt w)"

subsection \<open>Each event is at most one honest transaction\<close>

text \<open>\<open>by_tx a w w'\<close>: \<open>w'\<close> is \<open>w\<close>, or the result of one transaction sent by \<open>a\<close> that
  passes on only oracle-issued proofs.\<close>

lemma send_tx_apply: "send_tx a t w = Inr w' \<Longrightarrow> apply_tx a t w = w'"
  by (simp add: apply_tx_def)

lemma contract_call_Inr: "contract_call cfg f a t w = Inr w' \<Longrightarrow> send_tx a t w = Inr w'"
  by (simp add: contract_call_def split: if_splits sum.splits)

lemma run_handler_snd:
  "snd (run_handler tag dflt body u w) = w
   \<or> (\<exists>u'. body (u\<lparr>uerror := None, busy := Some tag\<rparr>) w = Inr (u', snd (run_handler tag dflt body u w)))"
  by (auto simp: run_handler_def Let_def split: sum.splits)

lemma getSigner_Inr: "getSigner ses = Inr a \<longleftrightarrow> ses_address ses = Some a"
  by (auto simp: getSigner_def split: option.splits)

lemma ui_try_tx:
  assumes "ui_handle cfg ses act = run_handler tag dflt body"
    and "\<And>u w u' w'. body u w = Inr (u', w') \<Longrightarrow>
           w' = w \<or> (\<exists>a t. ses_address ses = Some a \<and> honest_tx w t \<and> send_tx a t w = Inr w')"
  shows "snd (ui_handle cfg ses act u w) = w
    \<or> (\<exists>a t. ses_address ses = Some a \<and> honest_tx w t \<and> send_tx a t w = Inr (snd (ui_handle cfg ses act u w)))"
  using run_handler_snd [of tag dflt body u w] assms by fastforce

lemma ui_handle_tx:
  "snd (ui_handle cfg ses act u w) = w
   \<or> (\<exists>a t. ses_address ses = Some a \<and> honest_tx w t \<and> send_tx a t w = Inr (snd (ui_handle cfg ses act u w)))"
proof (cases act)
  case ActStake
  show ?thesis unfolding ActStake
    by (rule ui_try_tx [OF ui_handle.simps(1) [unfolded onStake_def]])
      (auto simp: onStake_try_def stake_call_def rbind_eq_Inr getSigner_Inr
         dest!: contract_call_Inr split: if_splits)
next
  case ActClaim
  show ?thesis unfolding ActClaim
    by (rule ui_try_tx [OF ui_handle.simps(2) [unfolded onClaim_def]])
      (auto simp: onClaim_try_def rbind_eq_Inr getSigner_Inr dest!: contract_call_Inr)
next
  case ActDecryptStake
  show ?thesis unfolding ActDecryptStake
    by (rule ui_try_tx [OF ui_handle.simps(3) [unfolded onDecryptStake_def]])
      (auto simp: onDecryptStake_try_def rbind_eq_Inr Let_def split: if_splits)
next
  case ActDecryptCcoin
  show ?thesis unfolding ActDecryptCcoin
    by (rule ui_try_tx [OF ui_handle.simps(4) [unfolded onDecryptCcoin_def]])
      (auto simp: onDecryptCcoin_try_def rbind_eq_Inr Let_def split: if_splits)
next
  case ActRequestWithdraw
  show ?thesis unfolding ActRequestWithdraw
    by (rule ui_try_tx [OF ui_handle.simps(5) [unfolded onRequestWithdraw_def]])
      (auto simp: onRequestWithdraw_try_def rbind_eq_Inr getSigner_Inr dest!: contract_call_Inr)
next
  case ActFinalizeWithdraw
  show ?thesis unfolding ActFinalizeWithdraw
    by (rule ui_try_tx [OF ui_handle.simps(6) [unfolded onFinalizeWithdraw_def]])
      (auto simp: onFinalizeWithdraw_try_def rbind_eq_Inr getSigner_Inr Let_def
         dest!: contract_call_Inr oracle_issued_publicDecrypt split: if_splits option.splits)
qed

lemma task_send_honest:
  "task_send a t w = Inr w' \<Longrightarrow> honest_tx w t \<Longrightarrow> \<exists>t. honest_tx w t \<and> send_tx a t w = Inr w'"
  by (auto simp: task_send_Inr)

lemma run_task_tx:
  assumes "run_task a tk w = Inr (out, w')"
  shows "w' = w \<or> (\<exists>t. honest_tx w t \<and> send_tx a t w = Inr w')"
proof (cases tk)
  case (TaskFinalizeWithdraw)
  then show ?thesis using assms
    by (auto simp: task_finalize_withdraw_def oracle_finalize_def rbind_eq_Inr Let_def task_send_Inr
        dest!: oracle_issued_publicDecrypt split: if_splits option.splits)
qed (use assms in \<open>auto simp: task_stake_def task_claim_def task_request_withdraw_def rbind_eq_Inr
       task_send_Inr split: if_splits\<close>)

lemma sys_step_reachable:
  assumes "sys_step w w'" and "reachable w"
  shows "reachable w'"
  using assms(1)
proof cases
  case (click ses cfg act u)
  from ui_handle_tx [of cfg ses act u w] show ?thesis
  proof
    assume "snd (ui_handle cfg ses act u w) = w"
    with click assms(2) show ?thesis by simp
  next
    assume "\<exists>a t. ses_address ses = Some a \<and> honest_tx w t \<and> send_tx a t w = Inr (snd (ui_handle cfg ses act u w))"
    then obtain a t where "ses_address ses = Some a" "honest_tx w t" "send_tx a t w = Inr w'"
      using click by blast
    with click assms(2) show ?thesis
      by (metis reachable.tx send_tx_apply)
  qed
next
  case (task signer tk out)
  from run_task_tx [OF task(2)] show ?thesis
  proof
    assume "w' = w" with assms(2) show ?thesis by simp
  next
    assume "\<exists>t. honest_tx w t \<and> send_tx signer t w = Inr w'"
    with task assms(2) show ?thesis
      by (metis reachable.tx send_tx_apply)
  qed
next
  case (mine dt)
  with assms(2) show ?thesis by (simp add: reachable.time)
qed

text \<open>
  C7: Whatever the users click, with whatever page state and configuration, whichever
  tasks the operators run, and however blocks are mined in between, every world the
  system reaches from a reachable one is reachable, and so satisfies the staking
  invariant: handles well formed, the staking contract the coin's minter, and the
  contract's ETH covering every account's staked and pending amount.
\<close>

theorem system_keeps_invariant:
  assumes "reachable w" and "sys_step\<^sup>*\<^sup>* w w'"
  shows "reachable w' \<and> world_wf w' \<and> minter_ok w' \<and> solvent w'"
proof -
  have "reachable w'"
    using assms(2,1) by (induction rule: rtranclp_induct) (auto intro: sys_step_reachable)
  then show ?thesis using reachable_inv [of w'] by (simp add: stk_inv_def)
qed

theorem system_keeps_invariant_witness:
  "reachable (snd (ui_handle example_cfg example_session ActStake (ui_init\<lparr>stakeEth := ''1''\<rparr>) (advance_time 60 example_deployed))) \<and> world_wf (snd (ui_handle example_cfg example_session ActStake (ui_init\<lparr>stakeEth := ''1''\<rparr>) (advance_time 60 example_deployed))) \<and> minter_ok (snd (ui_handle example_cfg example_session ActStake (ui_init\<lparr>stakeEth := ''1''\<rparr>) (advance_time 60 example_deployed))) \<and> solvent (snd (ui_handle example_cfg example_session ActStake (ui_init\<lparr>stakeEth := ''1''\<rparr>) (advance_time 60 example_deployed)))"
proof -
  have "sys_step (advance_time 60 example_deployed) (snd (ui_handle example_cfg example_session ActStake (ui_init\<lparr>stakeEth := ''1''\<rparr>) (advance_time 60 example_deployed)))"
    by (rule sys_step.click) (simp add: advance_time_def)
  then have "sys_step\<^sup>*\<^sup>* example_deployed (snd (ui_handle example_cfg example_session ActStake (ui_init\<lparr>stakeEth := ''1''\<rparr>) (advance_time 60 example_deployed)))"
    by (rule converse_rtranclp_into_rtranclp [OF sys_step.mine r_into_rtranclp [where r = sys_step]])
  then show ?thesis
    by (rule system_keeps_invariant [OF example_reachable(1)])
qed

end
