(* ===== verification/Display.thy ===== *)
theory Display
  imports System
begin

text \<open>
  What the page of \<open>StakingApp.tsx\<close> shows against the chain. \<open>ui_consistent\<close> says
  that the three handles the page holds are what its queries read from the chain now,
  and that each clear value on the page (\<open>Clear: ...\<close>) is the plaintext of the handle
  shown beside it. The theorems show which of the page's own handlers keep this: the
  decrypt handlers and \<open>onFinalizeWithdraw\<close> do; \<open>onStake\<close> and \<open>onClaim\<close> do not,
  because they refetch a handle but keep the clear value decrypted from the old one.
  Transactions of other accounts and mined blocks keep it too, and on a consistent page
  the cCoin line reads back as the balance on the chain.
\<close>

definition ui_consistent :: "ui_config \<Rightarrow> session \<Rightarrow> ui \<Rightarrow> world \<Rightarrow> bool" where
  "ui_consistent cfg ses u w \<longleftrightarrow>
     stakeCipher u = read_query cfg ses getEncryptedStakedMicroEth w
     \<and> pendingWithdrawCipher u = read_query cfg ses getPendingWithdrawCipher w
     \<and> ccoinBalanceCipher u = read_query cfg ses coinBalanceOf w
     \<and> pred_option (\<lambda>c. c = int (unat (fhe_dec (w_fhe w) (shown_handle (stakeCipher u)))))
         (decryptedStakeMicroEth u)
     \<and> pred_option (\<lambda>c. c = int (unat (fhe_dec (w_fhe w) (shown_handle (ccoinBalanceCipher u)))))
         (decryptedCcoinUnits u)"

subsection \<open>Frames\<close>

lemma ui_consistent_status [simp]:
  "ui_consistent cfg ses (u\<lparr>uerror := e\<rparr>) w = ui_consistent cfg ses u w"
  "ui_consistent cfg ses (u\<lparr>busy := b\<rparr>) w = ui_consistent cfg ses u w"
  by (simp_all add: ui_consistent_def)

lemma run_handler_consistent:
  assumes "ui_consistent cfg ses u w"
    and "\<And>u1 w1. body (u\<lparr>uerror := None, busy := Some tag\<rparr>) w = Inr (u1, w1) \<Longrightarrow> ui_consistent cfg ses u1 w1"
  shows "ui_consistent cfg ses (fst (run_handler tag d body u w)) (snd (run_handler tag d body u w))"
  using assms by (cases "body (u\<lparr>uerror := None, busy := Some tag\<rparr>) w") (auto simp: run_handler_Inl run_handler_Inr)

lemma finalizeWithdrawAll_frame:
  "finalizeWithdrawAll a h v p w = Inr w' \<Longrightarrow>
     w_fhe w' = w_fhe w \<and> w_coin w' = w_coin w"
  by (auto simp: finalizeWithdrawAll_def send_eth_def rbind_eq_Inr Let_def split: option.splits if_splits)

lemma finalize_call_frame:
  "contract_call cfg f a (ToStaking (CallFinalizeWithdrawAll h v p)) w = Inr w' \<Longrightarrow>
     w_fhe w' = w_fhe w \<and> coinBalanceOf w' = coinBalanceOf w"
  by (auto simp: contract_call_def send_tx_def coinBalanceOf_def fun_eq_iff
      dest!: finalizeWithdrawAll_frame split: if_splits sum.splits)

subsection \<open>Handlers that keep the page consistent\<close>

text \<open>
  C8: The page stays consistent with the chain across its decrypt handlers and its
  finalize handler: the handles it holds remain what its queries read, and every clear
  value it shows is the plaintext of the handle beside it, whether the handler succeeds
  or fails.
\<close>

theorem ui_consistent_kept:
  assumes "ui_consistent cfg ses u w" and "fhe_wf (w_fhe w)"
    and "act \<in> {ActDecryptStake, ActDecryptCcoin, ActFinalizeWithdraw}"
  shows "ui_consistent cfg ses (fst (ui_handle cfg ses act u w)) (snd (ui_handle cfg ses act u w))"
  using assms(3)
proof (elim insertE emptyE)
  assume A: "act = ActDecryptStake"
  show ?thesis unfolding A ui_handle.simps onDecryptStake_def
    by (rule run_handler_consistent [OF assms(1)])
      (use assms in \<open>auto simp: onDecryptStake_try_def userDecrypt_def rbind_eq_Inr ui_consistent_def
         Let_def split: if_splits\<close>)
next
  assume A: "act = ActDecryptCcoin"
  show ?thesis unfolding A ui_handle.simps onDecryptCcoin_def
    by (rule run_handler_consistent [OF assms(1)])
      (use assms in \<open>auto simp: onDecryptCcoin_try_def userDecrypt_def rbind_eq_Inr ui_consistent_def
         Let_def split: if_splits\<close>)
next
  assume A: "act = ActFinalizeWithdraw"
  show ?thesis unfolding A ui_handle.simps onFinalizeWithdraw_def
    by (rule run_handler_consistent [OF assms(1)])
      (use assms in \<open>auto simp: onFinalizeWithdraw_try_def rbind_eq_Inr ui_consistent_def
         refetch_stake_def refetch_pending_def read_query_def Let_def
         dest!: finalize_call_frame split: if_splits option.splits\<close>)
qed


subsection \<open>The stake handler\<close>

lemma onStake_step:
  assumes inv: "stk_inv w" and sync: "config_synced cfg w" and ses: "ses_address ses = Some a"
    and ext: "a \<noteq> w_stk_addr w" and p: "parseEther (stakeEth u) = Inr v" and funds: "nat v \<le> w_eth w a"
    and pos: "0 < v" and mult: "nat v mod micro_unit = 0"
  shows "\<exists>w'. onStake cfg ses u w =
      ((refetch_pending cfg ses w' (refetch_ccoin cfg ses w' (refetch_stake cfg ses w'
         (u\<lparr>uerror := None, busy := Some ''staking''\<rparr>))))\<lparr>busy := None\<rparr>, w')
    \<and> spec_stake (w_now w) (nat v) (view w a) = Inr (view w' a)"
proof -
  have good: "\<not> (v = 0 \<or> js_rem v (int micro_unit) \<noteq> 0)"
    using js_rem_guard [of v] pos mult by simp
  obtain w' where S: "task_send a (ToStaking (CallStake (nat v))) w = Inr w'"
    "spec_stake (w_now w) (nat v) (view w a) = Inr (view w' a)"
    using stake_call_ok [OF inv ext funds] pos mult by auto
  have "onStake_try cfg ses (u\<lparr>uerror := None, busy := Some ''staking''\<rparr>) w =
      Inr (refetch_pending cfg ses w' (refetch_ccoin cfg ses w' (refetch_stake cfg ses w'
         (u\<lparr>uerror := None, busy := Some ''staking''\<rparr>))), w')"
    using good pos S(1) ses p
    by (simp add: onStake_try_def getSigner_Some stake_call_def contract_call_loaded [OF synced_loaded [OF sync]])
  then show ?thesis using S(2) by (simp add: onStake_def run_handler_Inr)
qed

lemma spec_stake_a_stake:
  "spec_stake n v x = Inr y \<Longrightarrow> a_stake y = a_stake x + word_of_nat (v div micro_unit)"
  by (auto simp: spec_stake_def spec_accrue_def Let_def split: if_splits)

text \<open>
  C21: After a successful "Stake", the page keeps the clear stake it decrypted before
  while the stake handle it shows is the new one, whose plaintext is the old stake plus
  the amount staked in microETH: the \<open>Clear:\<close> line no longer matches the handle above it.
  \<open>onFinalizeWithdraw\<close> resets the clear stake (\<open>setDecryptedStakeMicroEth(null)\<close>);
  \<open>onStake\<close> does not.
\<close>

theorem onStake_stale_clear_stake:
  assumes inv: "stk_inv w" and sync: "config_synced cfg w" and ses: "ses_address ses = Some a"
    and ext: "a \<noteq> w_stk_addr w" and p: "parseEther (stakeEth u) = Inr v" and funds: "nat v \<le> w_eth w a"
    and pos: "0 < v" and mult: "nat v mod micro_unit = 0"
  shows "decryptedStakeMicroEth (fst (onStake cfg ses u w)) = decryptedStakeMicroEth u
    \<and> fhe_dec (w_fhe (snd (onStake cfg ses u w))) (shown_handle (stakeCipher (fst (onStake cfg ses u w))))
      = a_stake (view w a) + word_of_nat (nat v div micro_unit)"
proof -
  obtain w' where S: "onStake cfg ses u w =
      ((refetch_pending cfg ses w' (refetch_ccoin cfg ses w' (refetch_stake cfg ses w'
         (u\<lparr>uerror := None, busy := Some ''staking''\<rparr>))))\<lparr>busy := None\<rparr>, w')"
    "spec_stake (w_now w) (nat v) (view w a) = Inr (view w' a)"
    using onStake_step [OF inv sync ses ext p funds pos mult] by blast
  have "a_stake (view w' a) = a_stake (view w a) + word_of_nat (nat v div micro_unit)"
    using spec_stake_a_stake [OF S(2)] .
  then show ?thesis
    using S(1) read_query_synced [OF sync ses]
    by (simp add: refetch_stake_def refetch_pending_def refetch_ccoin_def shown_handle_def view_def
        getEncryptedStakedMicroEth_def)
qed


text \<open>
  C22: After a successful "Claim interest", the page keeps the clear cCoin balance it
  decrypted before, while the balance handle it shows is the new one, whose plaintext is
  the spec's accrued balance: \<open>onClaim\<close> refetches the handle but, unlike
  \<open>onFinalizeWithdraw\<close> for the stake, never clears the clear value.
\<close>

theorem onClaim_stale_clear_balance:
  assumes inv: "stk_inv w" and sync: "config_synced cfg w" and ses: "ses_address ses = Some a"
  shows "decryptedCcoinUnits (fst (onClaim cfg ses u w)) = decryptedCcoinUnits u
    \<and> fhe_dec (w_fhe (snd (onClaim cfg ses u w))) (shown_handle (ccoinBalanceCipher (fst (onClaim cfg ses u w))))
      = a_balance (spec_accrue (w_now w) (view w a))"
proof -
  note S = onClaim_step [OF inv sync ses, of u]
  have "config_synced cfg (snd (onClaim cfg ses u w))"
    using config_synced_env_same [of w "snd (onClaim cfg ses u w)" cfg] S sync by simp
  moreover have "view (snd (onClaim cfg ses u w)) a = spec_accrue (w_now w) (view w a)"
    using S by simp
  ultimately show ?thesis
    using S read_query_synced [OF sync ses] view_accessors(2) [of "snd (onClaim cfg ses u w)" a]
    by (simp add: refetch_ccoin_def shown_handle_def)
qed

subsection \<open>What the user reads\<close>

text \<open>
  C13: On a consistent page, the cCoin line the page renders, \<open>Clear: <s> cCoin\<close>, is
  exact: reading \<open>s\<close> back with 6 decimals (ethers' \<open>parseUnits(s, 6)\<close>) gives the
  plaintext of the user's balance on the chain.
\<close>

theorem rendered_balance_reads_back:
  assumes cons: "ui_consistent cfg ses u w" and sync: "config_synced cfg w"
    and ses: "ses_address ses = Some a" and dec: "decryptedCcoinUnits u \<noteq> None"
  shows "\<exists>s. Line (''Clear: '' @ s @ '' cCoin'') \<in> set (render eth_str zerr ses u)
    \<and> parse_units 6 s = Inr (int (unat (a_balance (view w a))))"
proof -
  obtain x where x: "decryptedCcoinUnits u = Some x" using dec by blast
  have "ccoinBalanceCipher u = Some (coinBalanceOf w a)"
    using cons read_query_synced [OF sync ses] by (simp add: ui_consistent_def)
  then have "x = int (unat (a_balance (view w a)))"
    using cons x by (simp add: ui_consistent_def shown_handle_def view_def coinBalanceOf_def
        confidentialBalanceOf_def)
  moreover have "Line (''Clear: '' @ formatCcoinUnits x @ '' cCoin'') \<in> set (render eth_str zerr ses u)"
    using x by (simp add: render_def)
  ultimately show ?thesis using parse_units_formatCcoinUnits [of x] by blast
qed

subsection \<open>Other users\<close>

text \<open>A successful transaction of another account leaves an account's three handles alone.\<close>

lemma accrue_and_mint_other:
  "accrue_and_mint s w = Inr w' \<Longrightarrow> b \<noteq> s \<Longrightarrow>
     s_stake (w_stk w') b = s_stake (w_stk w) b \<and> s_pending (w_stk w') b = s_pending (w_stk w) b
     \<and> c_balances (w_coin w') b = c_balances (w_coin w) b"
  by (auto simp: accrue_and_mint_def mint_def rbind_def Let_def split: prod.splits if_splits sum.splits)

lemma staking_exec_other:
  assumes "staking_exec s c w = Inr w'" and "b \<noteq> s"
  shows "s_stake (w_stk w') b = s_stake (w_stk w) b \<and> s_pending (w_stk w') b = s_pending (w_stk w) b
     \<and> c_balances (w_coin w') b = c_balances (w_coin w) b"
proof (cases c)
  case (CallStake v)
  then obtain w1 where w1: "(if s_stake (w_stk w) s \<noteq> 0 then accrue_and_mint s (pay_in s v w)
      else Inr (start_clock s (pay_in s v w))) = Inr w1"
    and w': "w' = add_stake s (word_of_nat (v div micro_unit)) w1"
    using assms(1) by (auto simp: stake_def rbind_eq_Inr split: if_splits)
  have "s_stake (w_stk w1) b = s_stake (w_stk w) b \<and> s_pending (w_stk w1) b = s_pending (w_stk w) b
     \<and> c_balances (w_coin w1) b = c_balances (w_coin w) b"
    using w1 accrue_and_mint_other [of s "pay_in s v w" w1 b] assms(2)
    by (auto simp: start_clock_def split: if_splits)
  then show ?thesis using w' assms(2)
    by (simp add: add_stake_def Let_def split: prod.splits)
next
  case CallClaimInterest
  with assms show ?thesis by (auto simp: claimInterest_def dest: accrue_and_mint_other)
next
  case CallRequestWithdrawAll
  with assms show ?thesis
    by (auto simp: requestWithdrawAll_def rbind_eq_Inr Let_def dest!: accrue_and_mint_other split: if_splits)
next
  case (CallFinalizeWithdrawAll h v p)
  with assms show ?thesis
    by (auto simp: finalizeWithdrawAll_def send_eth_def rbind_eq_Inr Let_def split: option.splits if_splits)
qed

lemma staking_exec_extends:
  assumes "world_wf w" and "staking_exec s c w = Inr w'"
  shows "fhe_extends (w_fhe w) (w_fhe w')"
proof (cases c)
  case (CallStake v)
  then show ?thesis using assms stake_Inr [of "pay_in s v w" s v w'] by simp
next
  case CallClaimInterest
  then show ?thesis using assms accrue_and_mint_refines [of w s w'] by (simp add: claimInterest_def)
next
  case CallRequestWithdrawAll
  then show ?thesis using assms requestWithdrawAll_Inr [of w s w'] by simp
next
  case (CallFinalizeWithdrawAll h v p)
  then show ?thesis using assms finalizeWithdrawAll_frame [of s h v p w w'] by simp
qed

lemma send_tx_other:
  assumes inv: "stk_inv w" and tx: "send_tx b t w = Inr w'" and ne: "b \<noteq> a" and ext: "b \<noteq> w_stk_addr w"
  shows "s_stake (w_stk w') a = s_stake (w_stk w) a \<and> s_pending (w_stk w') a = s_pending (w_stk w) a
     \<and> c_balances (w_coin w') a = c_balances (w_coin w) a \<and> fhe_extends (w_fhe w) (w_fhe w')"
proof (cases t)
  case (ToStaking c)
  then have "staking_exec b c w = Inr w'" using send_tx_Inr_exec [OF tx] by simp
  moreover have "world_wf w" using inv by (simp add: stk_inv_def)
  ultimately show ?thesis using staking_exec_other [of b c w w' a] staking_exec_extends [of w b c w'] ne
    by simp
next
  case (ToCoin c)
  obtain e where "coin_exec b c (w_coin w, w_fhe w) = Inl e"
    using coin_exec_reverts [of w b c] inv ext by (auto simp: stk_inv_def)
  then show ?thesis using send_tx_Inr_exec [OF tx] ToCoin by simp
qed

lemma shown_query_issued:
  assumes "world_wf w" and "\<And>a. f w a < fnext (w_fhe w)"
  shows "shown_handle (read_query cfg ses f w) < fnext (w_fhe w)"
  using assms by (auto simp: shown_handle_def read_query_def fhe_wf_def world_wf_def split: option.splits)

lemma ui_consistent_frame:
  assumes cons: "ui_consistent cfg ses u w" and wf: "world_wf w"
    and same: "s_stake (w_stk w') a = s_stake (w_stk w) a" "s_pending (w_stk w') a = s_pending (w_stk w) a"
      "c_balances (w_coin w') a = c_balances (w_coin w) a"
    and ext: "fhe_extends (w_fhe w) (w_fhe w')" and ses: "ses_address ses = Some a"
  shows "ui_consistent cfg ses u w'"
proof -
  have q: "read_query cfg ses getEncryptedStakedMicroEth w' = read_query cfg ses getEncryptedStakedMicroEth w"
    "read_query cfg ses getPendingWithdrawCipher w' = read_query cfg ses getPendingWithdrawCipher w"
    "read_query cfg ses coinBalanceOf w' = read_query cfg ses coinBalanceOf w"
    using same ses by (simp_all add: read_query_def getEncryptedStakedMicroEth_def getPendingWithdrawCipher_def
        coinBalanceOf_def confidentialBalanceOf_def)
  have "shown_handle (read_query cfg ses getEncryptedStakedMicroEth w) < fnext (w_fhe w)"
    "shown_handle (read_query cfg ses coinBalanceOf w) < fnext (w_fhe w)"
    using world_wf_handles(1,2) [OF wf]
    by (auto intro!: shown_query_issued [OF wf] simp: getEncryptedStakedMicroEth_def coinBalanceOf_def
        confidentialBalanceOf_def)
  then show ?thesis
    using cons q fhe_extends_dec [OF ext] by (clarsimp simp: ui_consistent_def)
qed

text \<open>
  C14: A user's page is not disturbed by others: while the user does nothing, any
  transaction of another external account, successful or reverted, and the mining of
  blocks leave the page consistent with the chain. Accounts are independent (spec
  section 5) and handles are immutable, so nothing the page shows goes stale.
\<close>

theorem ui_consistent_other_actor:
  assumes cons: "ui_consistent cfg ses u w" and inv: "stk_inv w" and ses: "ses_address ses = Some a"
    and ne: "b \<noteq> a" and ext: "b \<noteq> w_stk_addr w"
  shows "ui_consistent cfg ses u (apply_tx b t w) \<and> ui_consistent cfg ses u (advance_time dt w)"
proof
  have wf: "world_wf w" using inv by (simp add: stk_inv_def)
  show "ui_consistent cfg ses u (apply_tx b t w)"
  proof (cases "send_tx b t w")
    case (Inl e)
    then show ?thesis using cons by simp
  next
    case (Inr w')
    then show ?thesis
      using ui_consistent_frame [OF cons wf _ _ _ _ ses] send_tx_other [OF inv Inr ne ext] by simp
  qed
  show "ui_consistent cfg ses u (advance_time dt w)"
    using ui_consistent_frame [OF cons wf _ _ _ _ ses, of "advance_time dt w"]
    by (simp add: advance_time_def)
qed

subsection \<open>Examples\<close>

lemma example_staked_eth: "w_eth example_staked 4 = 1000000000000000000"
  by (simp add: example_eval)

theorem ui_consistent_kept_witness:
  "ui_consistent example_cfg example_session (fst (ui_handle example_cfg example_session ActDecryptStake (refetch_pending example_cfg example_session example_staked (refetch_ccoin example_cfg example_session example_staked (refetch_stake example_cfg example_session example_staked ui_init))) example_staked))
     (snd (ui_handle example_cfg example_session ActDecryptStake (refetch_pending example_cfg example_session example_staked (refetch_ccoin example_cfg example_session example_staked (refetch_stake example_cfg example_session example_staked ui_init))) example_staked))"
proof (rule ui_consistent_kept)
  show "ui_consistent example_cfg example_session (refetch_pending example_cfg example_session example_staked (refetch_ccoin example_cfg example_session example_staked (refetch_stake example_cfg example_session example_staked ui_init))) example_staked"
    by (simp add: ui_consistent_def refetch_stake_def refetch_pending_def refetch_ccoin_def ui_init_def)
  show "fhe_wf (w_fhe example_staked)"
    using example_inv(2) by (simp add: stk_inv_def world_wf_def)
qed simp

theorem onStake_stale_clear_stake_witness:
  "decryptedStakeMicroEth (fst (onStake example_cfg example_session (ui_init\<lparr>stakeEth := ''1.0'', decryptedStakeMicroEth := Some 1000000\<rparr>) example_staked)) = decryptedStakeMicroEth (ui_init\<lparr>stakeEth := ''1.0'', decryptedStakeMicroEth := Some 1000000\<rparr>)
   \<and> fhe_dec (w_fhe (snd (onStake example_cfg example_session (ui_init\<lparr>stakeEth := ''1.0'', decryptedStakeMicroEth := Some 1000000\<rparr>) example_staked)))
       (shown_handle (stakeCipher (fst (onStake example_cfg example_session (ui_init\<lparr>stakeEth := ''1.0'', decryptedStakeMicroEth := Some 1000000\<rparr>) example_staked))))
     = a_stake (view example_staked 4) + word_of_nat (nat 1000000000000000000 div micro_unit)"
  by (rule onStake_stale_clear_stake)
    (simp_all add: example_inv config_synced_def example_addrs parseEther_1 example_staked_eth micro_unit_def)


theorem rendered_balance_reads_back_witness:
  "\<exists>s. Line (''Clear: '' @ s @ '' cCoin'') \<in> set (render (\<lambda>_. []) None example_session ((refetch_pending example_cfg example_session example_staked (refetch_ccoin example_cfg example_session example_staked (refetch_stake example_cfg example_session example_staked ui_init)))\<lparr>decryptedCcoinUnits := Some 0\<rparr>))
    \<and> parse_units 6 s = Inr (int (unat (a_balance (view example_staked 4))))"
proof (rule rendered_balance_reads_back)
  show "ui_consistent example_cfg example_session ((refetch_pending example_cfg example_session example_staked (refetch_ccoin example_cfg example_session example_staked (refetch_stake example_cfg example_session example_staked ui_init)))\<lparr>decryptedCcoinUnits := Some 0\<rparr>) example_staked"
    by (simp add: ui_consistent_def refetch_stake_def refetch_pending_def refetch_ccoin_def ui_init_def
        read_query_def isConfigured_def coinBalanceOf_def confidentialBalanceOf_def shown_handle_def
        fhe_dec_def example_eval)
qed (simp_all add: config_synced_def example_addrs)


theorem ui_consistent_other_actor_witness:
  "ui_consistent example_cfg example_session (refetch_pending example_cfg example_session example_staked (refetch_ccoin example_cfg example_session example_staked (refetch_stake example_cfg example_session example_staked ui_init))) (apply_tx 5 (ToStaking (CallStake 1000000000000000000)) example_staked)
   \<and> ui_consistent example_cfg example_session (refetch_pending example_cfg example_session example_staked (refetch_ccoin example_cfg example_session example_staked (refetch_stake example_cfg example_session example_staked ui_init))) (advance_time 60 example_staked)"
proof (rule ui_consistent_other_actor [where a = 4])
  show "ui_consistent example_cfg example_session (refetch_pending example_cfg example_session example_staked (refetch_ccoin example_cfg example_session example_staked (refetch_stake example_cfg example_session example_staked ui_init))) example_staked"
    by (simp add: ui_consistent_def refetch_stake_def refetch_pending_def refetch_ccoin_def ui_init_def)
qed (simp_all add: example_inv example_addrs del: One_nat_def)


theorem onClaim_stale_clear_balance_witness:
  "decryptedCcoinUnits (fst (onClaim example_cfg example_session (ui_init\<lparr>decryptedCcoinUnits := Some 0\<rparr>)
       (advance_time 86400 example_staked))) = decryptedCcoinUnits (ui_init\<lparr>decryptedCcoinUnits := Some 0\<rparr>)
   \<and> fhe_dec (w_fhe (snd (onClaim example_cfg example_session (ui_init\<lparr>decryptedCcoinUnits := Some 0\<rparr>)
       (advance_time 86400 example_staked))))
       (shown_handle (ccoinBalanceCipher (fst (onClaim example_cfg example_session (ui_init\<lparr>decryptedCcoinUnits := Some 0\<rparr>)
         (advance_time 86400 example_staked)))))
     = a_balance (spec_accrue (w_now (advance_time 86400 example_staked)) (view (advance_time 86400 example_staked) 4))"
  by (rule onClaim_stale_clear_balance) (simp add: example_inv, simp_all add: config_synced_def example_addrs advance_time_def)

end
