(* ===== verification/Lifecycle.thy ===== *)
theory Lifecycle
  imports Display
begin

text \<open>
  The per-account life cycle of spec sections 7 to 9 on the chain. Each account is in
  one of the two phases of the withdrawal protocol, \<open>Idle\<close> or \<open>PendingWithdrawal\<close>,
  read off the staking contract's pending request. A transaction is an event for an
  account: its own request, its own finalize, or anything else. The theorems show that
  every successful transaction moves every account along the two-state machine, so no
  illegal transition ever succeeds; that a finalize with a value the oracle did not
  decrypt fails with \<open>InvalidProof\<close> and pays nothing; that the stake task reports
  \<open>InvalidAmount\<close> for a zero or sub-microETH amount; and that a second claim in the
  same block mints nothing.
\<close>

datatype wphase = Idle | PendingWithdrawal

definition phase :: "world \<Rightarrow> addr \<Rightarrow> wphase" where
  "phase w a = (case s_pending (w_stk w) a of None \<Rightarrow> Idle | Some _ \<Rightarrow> PendingWithdrawal)"

datatype wevent = EvRequest | EvFinalize | EvOther

fun wtrans :: "wphase \<Rightarrow> wevent \<Rightarrow> wphase option" where
  "wtrans Idle EvRequest = Some PendingWithdrawal"
| "wtrans PendingWithdrawal EvFinalize = Some Idle"
| "wtrans p EvOther = Some p"
| "wtrans _ _ = None"

fun tx_event :: "addr \<Rightarrow> addr \<Rightarrow> tx \<Rightarrow> wevent" where
  "tx_event a s (ToStaking CallRequestWithdrawAll) = (if s = a then EvRequest else EvOther)"
| "tx_event a s (ToStaking (CallFinalizeWithdrawAll h v p)) = (if s = a then EvFinalize else EvOther)"
| "tx_event a s _ = EvOther"

subsection \<open>Each entry point on the caller's phase\<close>

lemma stake_pending:
  "stake s v w = Inr w' \<Longrightarrow> world_wf w \<Longrightarrow> s_pending (w_stk w') = s_pending (w_stk w)"
  using stake_Inr by blast

lemma accrue_and_mint_pending:
  "world_wf w \<Longrightarrow> accrue_and_mint s w = Inr w' \<Longrightarrow> s_pending (w_stk w') = s_pending (w_stk w)"
  using accrue_and_mint_refines [of w s w'] by simp

lemma requestWithdrawAll_phase:
  assumes "world_wf w" and "requestWithdrawAll s w = Inr w'"
  shows "s_pending (w_stk w) s = None \<and> s_pending (w_stk w') s \<noteq> None"
proof -
  obtain w1 where acc: "accrue_and_mint s w = Inr w1"
    and ok: "(let stk = w_stk w1; h = s_stake stk s in
          if s_pending stk s \<noteq> None then Inl WithdrawalAlreadyPending
          else if h = 0 then Inl NoStake
          else Inr (w1\<lparr>w_fhe := fhe_make_public h (w_fhe w1),
                       w_stk := stk\<lparr>s_pending := (s_pending stk)(s := Some h),
                                    s_stake := (s_stake stk)(s := 0)\<rparr>\<rparr>)) = Inr w'"
    using assms(2) by (auto simp: requestWithdrawAll_def rbind_eq_Inr)
  have "s_pending (w_stk w1) = s_pending (w_stk w)"
    using accrue_and_mint_pending [OF assms(1) acc] .
  with ok show ?thesis by (auto simp: Let_def split: if_splits)
qed

lemma finalizeWithdrawAll_phase:
  "finalizeWithdrawAll s h v p w = Inr w' \<Longrightarrow>
     s_pending (w_stk w) s \<noteq> None \<and> s_pending (w_stk w') s = None"
  by (auto simp: finalizeWithdrawAll_def send_eth_def rbind_eq_Inr Let_def split: option.splits if_splits)

lemma send_tx_own_phase:
  assumes inv: "stk_inv w" and ext: "s \<noteq> w_stk_addr w" and tx: "send_tx s t w = Inr w'"
  shows "wtrans (phase w s) (tx_event s s t) = Some (phase w' s)"
proof -
  have wf: "world_wf w" using inv by (simp add: stk_inv_def)
  show ?thesis
  proof (cases t)
    case (ToStaking c)
    then have ex: "staking_exec s c w = Inr w'" using send_tx_Inr_exec [OF tx] by simp
    show ?thesis
    proof (cases c)
      case (CallStake v)
      then show ?thesis using ex ToStaking stake_pending [of s v "pay_in s v w" w'] wf
        by (cases "phase w s") (simp_all add: phase_def)
    next
      case CallClaimInterest
      then show ?thesis using ex ToStaking accrue_and_mint_pending [OF wf, of s w']
        by (cases "phase w s") (simp_all add: phase_def claimInterest_def)
    next
      case CallRequestWithdrawAll
      then show ?thesis using ex ToStaking requestWithdrawAll_phase [OF wf, of s w']
        by (auto simp: phase_def)
    next
      case (CallFinalizeWithdrawAll h v p)
      then show ?thesis using ex ToStaking finalizeWithdrawAll_phase [of s h v p w w']
        by (auto simp: phase_def)
    qed
  next
    case (ToCoin c)
    obtain e where "coin_exec s c (w_coin w, w_fhe w) = Inl e"
      using coin_exec_reverts [of w s c] inv ext by (auto simp: stk_inv_def)
    then show ?thesis using send_tx_Inr_exec [OF tx] ToCoin by simp
  qed
qed

lemma tx_event_other: "s \<noteq> a \<Longrightarrow> tx_event a s t = EvOther"
  by (cases "(a, s, t)" rule: tx_event.cases) simp_all

text \<open>
  C9: Every account follows the two-state withdrawal machine of spec section 9: any
  successful transaction of an external account moves it by the machine's transition
  for its event (a request \<open>Idle\<close> to \<open>PendingWithdrawal\<close>, a finalize back, anything
  else, including every transaction of another account, leaves the phase). A transaction
  whose event the machine does not allow (a second request, a finalize with nothing
  pending) never succeeds.
\<close>

theorem withdrawal_state_machine:
  assumes inv: "stk_inv w" and ext: "s \<noteq> w_stk_addr w"
  shows "case task_send s t w of
           Inl _ \<Rightarrow> True
         | Inr w' \<Rightarrow> wtrans (phase w a) (tx_event a s t) = Some (phase w' a)"
proof (cases "task_send s t w")
  case (Inr w')
  then have Inr: "send_tx s t w = Inr w'" by (simp add: task_send_Inr)
  show ?thesis
  proof (cases "s = a")
    case True
    then show ?thesis using send_tx_own_phase [OF inv ext Inr] \<open>task_send s t w = Inr w'\<close> by simp
  next
    case False
    then have "s_pending (w_stk w') a = s_pending (w_stk w) a"
      using send_tx_other [OF inv Inr _ ext, of a] by simp
    then show ?thesis using \<open>task_send s t w = Inr w'\<close> False tx_event_other [OF False, of t]
      by (cases "phase w a") (simp_all add: phase_def)
  qed
qed simp


subsection \<open>Rejected proofs\<close>

text \<open>
  C25: A finalize with a value the oracle did not decrypt is rejected (spec section 8):
  whatever proof the oracle issued, if the claimed value is not the plaintext of the
  pending handle the transaction reverts and the sender sees the specific kind,
  \<open>execution reverted: InvalidProof\<close> (spec section 7), and the chain, ETH balances
  included, is left as it was.
\<close>

theorem finalize_wrong_value_InvalidProof:
  assumes p: "s_pending (w_stk w) a = Some h" and iss: "oracle_issued (w_kms w) (w_fhe w) proof"
    and wrong: "v \<noteq> fhe_dec (w_fhe w) h"
  shows "task_send a (ToStaking (CallFinalizeWithdrawAll h v proof)) w = Inl ''execution reverted: InvalidProof''
    \<and> apply_tx a (ToStaking (CallFinalizeWithdrawAll h v proof)) w = w"
proof -
  have "\<not> verify (w_kms w) h v proof"
    using oracle_issued_verify [OF iss] wrong by blast
  then have "send_tx a (ToStaking (CallFinalizeWithdrawAll h v proof)) w = Inl (Reverted InvalidProof)"
    using p by (simp add: send_tx_def finalizeWithdrawAll_def)
  then show ?thesis by (simp add: task_send_def)
qed

subsection \<open>Claims in one block\<close>

lemma accrue_zero_elapsed: "spec_accrue (a_last x) x = x"
  by (simp add: spec_accrue_def accrual_factor_def)

text \<open>
  C24: Two claims with no time between them (spec section 8): \<open>task:secureapr:claim\<close>
  run twice in one block succeeds both times, and the second mints nothing.
\<close>

theorem task_claim_twice_same_block:
  assumes inv: "stk_inv w"
  shows "\<exists>w1 w2. task_claim a w = Inr ([LogTxWait, Log ''Interest claimed''], w1)
    \<and> task_claim a w1 = Inr ([LogTxWait, Log ''Interest claimed''], w2)
    \<and> a_balance (view w2 a) = a_balance (view w1 a) \<and> a_last (view w2 a) = w_now w"
proof -
  obtain w1 where C1: "task_send a (ToStaking CallClaimInterest) w = Inr w1" "stk_inv w1"
    "view w1 a = spec_accrue (w_now w) (view w a)" "env_same w w1"
    using claim_call_ok [OF inv] by blast
  obtain w2 where C2: "task_send a (ToStaking CallClaimInterest) w1 = Inr w2"
    "view w2 a = spec_accrue (w_now w1) (view w1 a)"
    using claim_call_ok [OF C1(2)] by blast
  have "w_now w1 = w_now w" using C1(4) by (simp add: env_same_def)
  moreover have "a_last (view w1 a) = w_now w" using C1(3) by (simp add: spec_accrue_def)
  ultimately have "view w2 a = view w1 a" using C2(2) accrue_zero_elapsed [of "view w1 a"] by simp
  then show ?thesis
    using C1(1,3) C2(1) by (simp add: task_claim_eq spec_accrue_def)
qed

subsection \<open>Rejected stakes\<close>

text \<open>
  C26: Staking zero or an amount that is not a multiple of 1 microETH fails with
  \<open>InvalidAmount\<close> and changes nothing (spec section 8). \<open>task:secureapr:stake\<close>, unlike
  the UI, has no client-side check: it sends the transaction, and the operator sees the
  specific kind, \<open>execution reverted: InvalidAmount\<close> (spec section 7).
\<close>

theorem task_stake_InvalidAmount:
  assumes p: "parseEther eth = Inr v" and nn: "0 \<le> v" and funds: "nat v \<le> w_eth w a"
    and bad: "v = 0 \<or> nat v mod micro_unit \<noteq> 0"
  shows "task_stake a eth w = Inl ''execution reverted: InvalidAmount''
    \<and> apply_tx a (ToStaking (CallStake (nat v))) w = w"
proof -
  have "send_tx a (ToStaking (CallStake (nat v))) w = Inl (Reverted InvalidAmount)"
    using funds bad by (auto simp: send_tx_def stake_def)
  then show ?thesis
    using p nn by (simp add: task_stake_def task_send_def)
qed

subsection \<open>Examples\<close>

theorem withdrawal_state_machine_witness:
  "case task_send 4 (ToStaking CallRequestWithdrawAll) example_staked of
     Inl _ \<Rightarrow> True
   | Inr w' \<Rightarrow> wtrans (phase example_staked 4) (tx_event 4 4 (ToStaking CallRequestWithdrawAll)) = Some (phase w' 4)"
  by (rule withdrawal_state_machine) (simp_all add: example_inv example_addrs)

theorem finalize_wrong_value_InvalidProof_witness:
  "task_send 4 (ToStaking (CallFinalizeWithdrawAll 2 7 (DecryptionProof 7 [(2, 1000000)]))) example_requested
     = Inl ''execution reverted: InvalidProof''
   \<and> apply_tx 4 (ToStaking (CallFinalizeWithdrawAll 2 7 (DecryptionProof 7 [(2, 1000000)]))) example_requested
     = example_requested"
proof (rule finalize_wrong_value_InvalidProof)
  show "s_pending (w_stk example_requested) 4 = Some 2"
    by (simp add: example_eval)
  show "oracle_issued (w_kms example_requested) (w_fhe example_requested) (DecryptionProof 7 [(2, 1000000)])"
    by (simp add: example_eval oracle_issued_def publicDecrypt_def fhe_make_public_def fhe_dec_def)
  show "7 \<noteq> fhe_dec (w_fhe example_requested) 2"
    by (simp add: example_eval fhe_make_public_def fhe_dec_def)
qed

theorem task_claim_twice_same_block_witness:
  "\<exists>w1 w2. task_claim 4 (advance_time 86400 example_staked) = Inr ([LogTxWait, Log ''Interest claimed''], w1)
    \<and> task_claim 4 w1 = Inr ([LogTxWait, Log ''Interest claimed''], w2)
    \<and> a_balance (view w2 4) = a_balance (view w1 4) \<and> a_last (view w2 4) = w_now (advance_time 86400 example_staked)"
  by (rule task_claim_twice_same_block) (simp add: example_inv)


theorem task_stake_InvalidAmount_witness:
  "task_stake 4 ''0'' example_staked = Inl ''execution reverted: InvalidAmount''
   \<and> apply_tx 4 (ToStaking (CallStake (nat 0))) example_staked = example_staked"
proof (rule task_stake_InvalidAmount)
  show "parseEther ''0'' = Inr 0"
    by (simp add: parseEther_def parse_units_def split_fixed_def split_digits_def is_digit_def dec_val_append,
        simp add: dec_val_def)
qed simp_all

end
