(* ===== verification/JsNumber.thy ===== *)
theory JsNumber
  imports Units "HOL-Library.Log_Nat"
begin

text \<open>
  JavaScript numbers as the UI's \<open>microEthToEthString\<close>
  (\<open>src/ui/src/components/StakingApp.tsx\<close>) uses them: ECMAScript's
  \<open>Number(bigint)\<close>, the division \<open>/\<close> and \<open>Number.prototype.toString()\<close>.
  A Number is a rational (\<open>JNum\<close>), an infinity or NaN; the value \<open>-0\<close> is not
  represented (the bigint conversion never yields it and \<open>toString\<close> prints it as \<open>0\<close>).
  \<open>number_value\<close> is the ECMAScript "Number value for x": IEEE-754 binary64
  round-to-nearest, ties to even, with 53-bit significands, subnormals down to
  \<open>2^-1074\<close> and overflow to an infinity at \<open>2^1024\<close>. \<open>js_toString\<close> is
  Number::toString for radix 10: the digit search of step 5 (the least number \<open>k\<close> of
  digits \<open>s\<close> with \<open>s * 10^(n-k)\<close> rounding back to the number; among several, the
  one closest to it, an even \<open>s\<close> on a tie) is a \<open>partial_function\<close> over \<open>k\<close>,
  and the formatting of steps 6 to 10 is \<open>format_decimal\<close>. All of it computes on
  rationals: exponents come from \<open>quotient_of\<close> and \<open>floorlog\<close>.
\<close>

subsection \<open>Numbers and rounding\<close>

definition floor_log_rat :: "nat \<Rightarrow> rat \<Rightarrow> int" where
  "floor_log_rat b r =
     (case quotient_of r of (p, q) \<Rightarrow>
        let e = int (floorlog b (nat p)) - int (floorlog b (nat q))
        in if r < of_nat b powi e then e - 1 else e)"

datatype jsnum = JNum rat | JInf | JNegInf | JNaN

definition round_even :: "rat \<Rightarrow> int" where
  "round_even y =
     (let f = \<lfloor>y\<rfloor>; d = y - of_int f
      in if d < 1 / 2 then f else if 1 / 2 < d then f + 1 else if even f then f else f + 1)"

definition ulp_exp :: "rat \<Rightarrow> int" where
  "ulp_exp r = max (floor_log_rat 2 r - 52) (- 1074)"

definition round_val :: "rat \<Rightarrow> rat" where
  "round_val r = of_int (round_even (r / 2 powi ulp_exp r)) * 2 powi ulp_exp r"

definition round_pos :: "rat \<Rightarrow> jsnum" where
  "round_pos r = (if 2 ^ 1024 \<le> round_val r then JInf else JNum (round_val r))"

definition js_neg :: "jsnum \<Rightarrow> jsnum" where
  "js_neg v = (case v of JNum x \<Rightarrow> JNum (- x) | JInf \<Rightarrow> JNegInf | JNegInf \<Rightarrow> JInf | JNaN \<Rightarrow> JNaN)"

definition number_value :: "rat \<Rightarrow> jsnum" where
  "number_value r = (if r = 0 then JNum 0 else if 0 < r then round_pos r else js_neg (round_pos (- r)))"

text \<open>Number::divide (ECMAScript 6.1.6.1.5), without the sign of zero.\<close>

definition js_div :: "jsnum \<Rightarrow> jsnum \<Rightarrow> jsnum" where
  "js_div a b =
     (case (a, b) of
        (JNaN, _) \<Rightarrow> JNaN
      | (_, JNaN) \<Rightarrow> JNaN
      | (JNum x, JNum y) \<Rightarrow>
          if y \<noteq> 0 then number_value (x / y)
          else if x = 0 then JNaN else if 0 < x then JInf else JNegInf
      | (JNum x, _) \<Rightarrow> JNum 0
      | (JInf, JNum y) \<Rightarrow> if y < 0 then JNegInf else JInf
      | (JNegInf, JNum y) \<Rightarrow> if y < 0 then JInf else JNegInf
      | (_, _) \<Rightarrow> JNaN)"

subsection \<open>Number::toString\<close>

text \<open>
  \<open>rep_ok x n k s\<close>: \<open>s\<close> has exactly \<open>k\<close> digits and \<open>s * 10^(n-k)\<close> rounds to
  \<open>x\<close>. For each \<open>k\<close> the candidates are the floor and the ceiling of
  \<open>x * 10^(k-n)\<close> for \<open>n\<close> one, two or three above \<open>floor (log10 x)\<close>; every
  representation of \<open>k\<close> digits that rounds to \<open>x\<close> and is closest to it is among them.
\<close>

definition rep_ok :: "rat \<Rightarrow> int \<Rightarrow> nat \<Rightarrow> int \<Rightarrow> bool" where
  "rep_ok x n k s \<longleftrightarrow>
     0 < k \<and> 10 ^ (k - 1) \<le> s \<and> s < 10 ^ k \<and> number_value (of_int s * 10 powi (n - int k)) = JNum x"

definition digit_candidates :: "rat \<Rightarrow> nat \<Rightarrow> (int \<times> int) list" where
  "digit_candidates x k =
     (let d = floor_log_rat 10 x
      in concat (map (\<lambda>n. let y = x * 10 powi (int k - n) in [(n, \<lfloor>y\<rfloor>), (n, \<lceil>y\<rceil>)]) [d, d + 1, d + 2]))"

definition rep_dist :: "rat \<Rightarrow> nat \<Rightarrow> int \<times> int \<Rightarrow> rat" where
  "rep_dist x k c = \<bar>of_int (snd c) * 10 powi (fst c - int k) - x\<bar>"

definition prefer_rep :: "rat \<Rightarrow> nat \<Rightarrow> int \<times> int \<Rightarrow> int \<times> int \<Rightarrow> int \<times> int" where
  "prefer_rep x k c c' =
     (if rep_dist x k c' < rep_dist x k c \<or> (rep_dist x k c' = rep_dist x k c \<and> odd (snd c) \<and> even (snd c'))
      then c' else c)"

partial_function (option) shortest_digits :: "rat \<Rightarrow> nat \<Rightarrow> (int \<times> nat \<times> int) option" where
  "shortest_digits x k =
     (case filter (\<lambda>(n, s). rep_ok x n k s) (digit_candidates x k) of
        [] \<Rightarrow> shortest_digits x (Suc k)
      | c # cs \<Rightarrow> (case foldl (prefer_rep x k) c cs of (n, s) \<Rightarrow> Some (n, k, s)))"

definition format_decimal :: "int \<Rightarrow> nat \<Rightarrow> int \<Rightarrow> string" where
  "format_decimal n k s =
     (let ds = dec_digits (nat s)
      in if int k \<le> n \<and> n \<le> 21 then ds @ replicate (nat n - k) CHR ''0''
         else if 0 < n \<and> n \<le> 21 then take (nat n) ds @ ''.'' @ drop (nat n) ds
         else if - 6 < n \<and> n \<le> 0 then ''0.'' @ replicate (nat (- n)) CHR ''0'' @ ds
         else (let e = n - 1; sign = (if e < 0 then CHR ''-'' else CHR ''+''); es = dec_digits (nat \<bar>e\<bar>)
               in if k = 1 then ds @ ''e'' @ sign # es
                  else take 1 ds @ ''.'' @ drop 1 ds @ ''e'' @ sign # es))"

definition pos_toString :: "rat \<Rightarrow> string option" where
  "pos_toString x = map_option (\<lambda>(n, k, s). format_decimal n k s) (shortest_digits x 1)"

definition js_toString :: "jsnum \<Rightarrow> string option" where
  "js_toString v =
     (case v of
        JNaN \<Rightarrow> Some ''NaN''
      | JNum x \<Rightarrow> if x = 0 then Some ''0''
                  else if x < 0 then map_option ((#) CHR ''-'') (pos_toString (- x))
                  else pos_toString x
      | JInf \<Rightarrow> Some ''Infinity''
      | JNegInf \<Rightarrow> Some ''-Infinity'')"

subsection \<open>Binary and decimal exponents\<close>

lemma powi_less_cancel:
  assumes "1 < (b :: rat)" "b powi m < b powi n"
  shows "m < n"
  using assms power_int_increasing [of n m b] by (metis linorder_not_le less_imp_le not_less)

lemma floorlog_rat_bounds:
  assumes "1 < b" "0 < n"
  shows "(of_nat b :: rat) ^ (floorlog b n - 1) \<le> of_nat n \<and> of_nat n < (of_nat b :: rat) ^ floorlog b n
         \<and> 0 < floorlog b n"
proof -
  have "b ^ (floorlog b n - 1) \<le> n \<and> n < b ^ floorlog b n"
    using floorlog_bounds [OF assms(2,1)] .
  moreover have "0 < floorlog b n"
    using assms by (simp add: floorlog_def)
  ultimately show ?thesis
    by (metis of_nat_le_iff of_nat_less_iff of_nat_power)
qed

lemma floor_log_rat_bounds:
  assumes b: "1 < b" and r: "0 < r"
  shows "of_nat b powi floor_log_rat b r \<le> r \<and> r < of_nat b powi (floor_log_rat b r + 1)"
proof -
  obtain p q where pq: "quotient_of r = (p, q)" by (cases "quotient_of r")
  have q: "0 < q" and rpq: "r = of_int p / of_int q"
    using quotient_of_denom_pos [OF pq] quotient_of_div [OF pq] by auto
  have p: "0 < p"
    using r q rpq by (simp add: zero_less_divide_iff)
  define A where "A = floorlog b (nat p)"
  define B where "B = floorlog b (nat q)"
  define \<beta> where "\<beta> = (of_nat b :: rat)"
  have \<beta>: "1 < \<beta>" using b by (simp add: \<beta>_def)
  have hp: "\<beta> ^ (A - 1) \<le> of_int p" "of_int p < \<beta> ^ A" "0 < A"
    using floorlog_rat_bounds [OF b, of "nat p"] p by (simp_all add: A_def \<beta>_def)
  have hq: "\<beta> ^ (B - 1) \<le> of_int q" "of_int q < \<beta> ^ B" "0 < B"
    using floorlog_rat_bounds [OF b, of "nat q"] q by (simp_all add: B_def \<beta>_def)
  define e where "e = int A - int B"
  have lo: "\<beta> powi (e - 1) < r"
  proof -
    have "e - 1 = int (A - 1) - int B" using hp(3) by (simp add: e_def)
    hence "\<beta> powi (e - 1) = \<beta> ^ (A - 1) / \<beta> ^ B"
      using \<beta> by (simp add: power_int_diff)
    also have "\<dots> \<le> of_int p / \<beta> ^ B"
      using hp(1) \<beta> by (simp add: divide_right_mono)
    also have "\<dots> < of_int p / of_int q"
      using hq(2) q p \<beta> by (simp add: divide_strict_left_mono)
    finally show ?thesis by (simp add: rpq)
  qed
  have hi: "r < \<beta> powi (e + 1)"
  proof -
    have "of_int p / of_int q < \<beta> ^ A / of_int q"
      using hp(2) q by (simp add: divide_strict_right_mono)
    also have "\<dots> \<le> \<beta> ^ A / \<beta> ^ (B - 1)"
      using hq(1) q \<beta> by (intro divide_left_mono) auto
    also have "e + 1 = int A - int (B - 1)" using hq(3) by (simp add: e_def)
    hence "\<beta> ^ A / \<beta> ^ (B - 1) = \<beta> powi (e + 1)"
      using \<beta> by (simp add: power_int_diff)
    finally show ?thesis by (simp add: rpq)
  qed
  have fl: "floor_log_rat b r = (if r < \<beta> powi e then e - 1 else e)"
    by (simp add: floor_log_rat_def pq A_def B_def e_def \<beta>_def)
  show ?thesis
    using lo hi unfolding fl \<beta>_def [symmetric] by auto
qed

lemma floor_log_rat_eqI:
  assumes b: "1 < b" and lo: "of_nat b powi e \<le> r" and hi: "r < of_nat b powi (e + 1)"
  shows "floor_log_rat b r = e"
proof -
  have b': "(1 :: rat) < of_nat b" using b by simp
  have r: "0 < r" using lo b' by (meson less_le_trans zero_less_power_int zero_less_one less_trans)
  note bd = floor_log_rat_bounds [OF b r]
  have "floor_log_rat b r < e + 1" using bd hi by (intro powi_less_cancel [OF b']) linarith
  moreover have "e < floor_log_rat b r + 1" using bd lo by (intro powi_less_cancel [OF b']) linarith
  ultimately show ?thesis by linarith
qed

subsection \<open>Rounding error\<close>

lemma round_even_close: "\<bar>y - of_int (round_even y)\<bar> \<le> 1 / 2"
  unfolding round_even_def Let_def
  using floor_le_iff [of y] by (simp add: abs_if) linarith

lemma round_even_eqI:
  assumes "\<bar>y - of_int M\<bar> < 1 / 2"
  shows "round_even y = M"
proof -
  have "\<bar>of_int (round_even y) - of_int M\<bar> < (1 :: rat)"
    using round_even_close [of y] assms by linarith
  hence "\<bar>round_even y - M\<bar> < 1"
    by (metis of_int_abs of_int_diff of_int_less_1_iff)
  thus ?thesis by simp
qed

lemma two_powi_half: "(2 :: rat) powi (E - 1) = 2 powi E / 2"
  by (simp add: power_int_diff)

lemma round_val_err:
  assumes "0 < r"
  shows "\<bar>round_val r - r\<bar> \<le> 2 powi (ulp_exp r - 1)"
proof -
  define P where "P = (2 :: rat) powi ulp_exp r"
  have P: "0 < P" by (simp add: P_def)
  have "round_val r - r = P * (of_int (round_even (r / P)) - r / P)"
    using P by (simp add: round_val_def P_def [symmetric] algebra_simps)
  hence "\<bar>round_val r - r\<bar> = P * \<bar>of_int (round_even (r / P)) - r / P\<bar>"
    using P by (simp add: abs_mult)
  also have "\<dots> \<le> P * (1 / 2)"
    using round_even_close [of "r / P"] P by (simp add: abs_minus_commute)
  finally show ?thesis by (simp add: two_powi_half P_def)
qed

lemma ulp_exp_normal:
  assumes "2 powi (- 1022) \<le> r"
  shows "ulp_exp r = floor_log_rat 2 r - 52 \<and> 2 powi ulp_exp r \<le> r / 2 ^ 52"
proof -
  have r: "0 < r" using assms by (meson less_le_trans zero_less_power_int zero_less_numeral)
  note bd = floor_log_rat_bounds [of 2 r, simplified, OF r]
  have "(2 :: rat) powi (- 1022) < 2 powi (floor_log_rat 2 r + 1)"
    using assms bd by linarith
  hence "- 1022 < floor_log_rat 2 r + 1"
    by (metis power_int_strict_increasing one_less_numeral_iff semiring_norm(76) not_less order_less_asym linorder_neqE_linordered_idom)
  hence ue: "ulp_exp r = floor_log_rat 2 r - 52" by (simp add: ulp_exp_def)
  have "(2 :: rat) powi (floor_log_rat 2 r - 52) = 2 powi floor_log_rat 2 r / 2 ^ 52"
    by (simp add: power_int_diff)
  also have "\<dots> \<le> r / 2 ^ 52"
    using bd by (simp add: divide_right_mono)
  finally have le52: "(2 :: rat) powi (floor_log_rat 2 r - 52) \<le> r / 2 ^ 52" .
  show ?thesis by (intro conjI) (simp_all only: ue le52)
qed

lemma round_val_rel_err:
  assumes "2 powi (- 1022) \<le> r"
  shows "\<bar>round_val r - r\<bar> \<le> r / 2 ^ 53"
proof -
  have r: "0 < r" using assms by (meson less_le_trans zero_less_power_int zero_less_numeral)
  have "\<bar>round_val r - r\<bar> \<le> 2 powi ulp_exp r / 2"
    using round_val_err [OF r] by (simp add: two_powi_half)
  also have "\<dots> \<le> r / 2 ^ 52 / 2"
    using conjunct2 [OF ulp_exp_normal [OF assms]] by (intro divide_right_mono) simp_all
  also have "\<dots> = r / 2 ^ 53" by simp
  finally show ?thesis .
qed

lemma round_val_close:
  assumes "2 powi (- 1022) \<le> a"
  shows "a - a / 2 ^ 53 \<le> round_val a \<and> round_val a \<le> a + a / 2 ^ 53"
  using round_val_rel_err [OF assms] by linarith

lemma round_val_nonneg: "0 < r \<Longrightarrow> 0 \<le> round_val r"
  by (simp add: round_val_def round_even_def Let_def)

lemma number_value_round_val:
  assumes "0 < r" "round_val r < 2 ^ 1024"
  shows "number_value r = JNum (round_val r)"
  using assms by (simp add: number_value_def round_pos_def)

lemma round_pos_pos:
  assumes "0 < r" "number_value r = JNum x"
  shows "round_val r = x"
  using assms by (simp add: number_value_def round_pos_def split: if_splits)

lemma number_value_neg: "r < 0 \<Longrightarrow> number_value r = js_neg (number_value (- r))"
  by (simp add: number_value_def)

lemma js_div_num: "y \<noteq> 0 \<Longrightarrow> js_div (JNum x) (JNum y) = number_value (x / y)"
  by (simp add: js_div_def)

subsection \<open>Short decimals\<close>

text \<open>
  Two decimals of at most 15 significant digits that round to the same double are
  equal: their distance is a multiple of the smaller power of ten, more than
  \<open>10^-15\<close> of their size, while rounding moves each by at most \<open>2^-53\<close> of it.
\<close>

lemma decimal_diff_ge:
  assumes "p \<le> p'" "(a :: rat) = of_int s * 10 powi p" "b = of_int s' * 10 powi p'" "a \<noteq> b"
  shows "10 powi p \<le> \<bar>a - b\<bar>"
proof -
  define z where "z = s - s' * 10 ^ nat (p' - p)"
  have "(10 :: rat) powi p' = 10 ^ nat (p' - p) * 10 powi p"
    using assms(1) by (simp add: power_int_add [symmetric] flip: power_int_of_nat)
  hence ab: "a - b = of_int z * 10 powi p"
    using assms(2,3) by (simp add: z_def algebra_simps)
  hence "z \<noteq> 0" using assms(4) by auto
  hence "(1 :: rat) \<le> \<bar>of_int z\<bar>" by (metis of_int_1_le_iff of_int_abs zero_less_abs_iff int_one_le_iff_zero_less)
  hence "1 * 10 powi p \<le> \<bar>of_int z\<bar> * (10 :: rat) powi p"
    by (rule mult_right_mono) simp
  thus ?thesis unfolding ab abs_mult by simp
qed

lemma short_decimals_round_apart_aux:
  assumes rv: "round_val a = round_val b"
      and na: "2 powi (- 1022) \<le> a" and nb: "2 powi (- 1022) \<le> b"
      and pp: "p \<le> p'" and a: "a = of_int s * 10 powi p" and b: "b = of_int s' * 10 powi p'"
      and s: "s < 10 ^ 15"
  shows "a = b"
proof (rule ccontr)
  assume ne: "a \<noteq> b"
  define \<delta> where "\<delta> = \<bar>a - b\<bar>"
  have ge: "10 powi p \<le> \<delta>" using decimal_diff_ge [OF pp a b ne] by (simp add: \<delta>_def)
  have "\<bar>a - b\<bar> \<le> \<bar>round_val a - a\<bar> + \<bar>round_val b - b\<bar>" using rv by linarith
  hence le: "\<delta> \<le> (a + b) / 2 ^ 53"
    using round_val_rel_err [OF na] round_val_rel_err [OF nb] by (simp add: \<delta>_def add_divide_distrib)
  have "a < 10 ^ 15 * 10 powi p"
    using s by (simp add: a mult_strict_right_mono)
  moreover have "10 ^ 15 * 10 powi p \<le> (10 ^ 15 :: rat) * \<delta>"
    using ge by (rule mult_left_mono) simp
  ultimately have a_lt: "a < 1000000000000000 * \<delta>" by simp
  have b_le: "b \<le> a + \<delta>" by (simp add: \<delta>_def)
  have pos: "0 < \<delta>" using ne by (simp add: \<delta>_def)
  have "9007199254740992 * \<delta> \<le> a + b" using le by (simp add: field_simps)
  thus False using a_lt b_le pos by linarith
qed

lemma short_decimals_round_apart:
  assumes "round_val a = round_val b" "2 powi (- 1022) \<le> a" "2 powi (- 1022) \<le> b"
      "a = of_int s * 10 powi p" "b = of_int s' * 10 powi p'" "s < 10 ^ 15" "s' < 10 ^ 15"
  shows "a = b"
proof (cases "p \<le> p'")
  case True thus ?thesis using short_decimals_round_apart_aux assms by blast
next
  case False thus ?thesis using short_decimals_round_apart_aux [of b a p' p s'] assms by force
qed

lemma dec_norm:
  assumes s: "0 < s" and s0: "\<not> 10 dvd s0"
      and eq: "(of_int s :: rat) * 10 powi p = of_int s0 * 10 powi p0"
  shows "p \<le> p0 \<and> s = s0 * 10 ^ nat (p0 - p)"
proof -
  have "p \<le> p0"
  proof (rule ccontr)
    assume "\<not> p \<le> p0"
    hence "(10 :: rat) powi p = 10 ^ nat (p - p0) * 10 powi p0" and j: "0 < nat (p - p0)"
      by (simp_all add: power_int_add [symmetric] flip: power_int_of_nat)
    hence "of_int (s * 10 ^ nat (p - p0)) = (of_int s0 :: rat)"
      using eq by (simp add: algebra_simps)
    hence "s0 = s * 10 ^ nat (p - p0)" by (simp only: of_int_eq_iff)
    moreover have "10 dvd (10 :: int) ^ nat (p - p0)" using j by (simp add: dvd_power)
    ultimately show False using s0 by (simp add: dvd_mult)
  qed
  moreover have "(10 :: rat) powi p0 = 10 ^ nat (p0 - p) * 10 powi p"
    using \<open>p \<le> p0\<close> by (simp add: power_int_add [symmetric] flip: power_int_of_nat)
  hence "of_int s = (of_int (s0 * 10 ^ nat (p0 - p)) :: rat)"
    using eq by (simp add: algebra_simps)
  ultimately show ?thesis by (simp only: of_int_eq_iff)
qed

lemma decimal_bounds:
  assumes "0 < k" "10 ^ (k - 1) \<le> s" "s < 10 ^ k"
  shows "10 powi (n - 1) \<le> (of_int s :: rat) * 10 powi (n - int k) \<and> (of_int s :: rat) * 10 powi (n - int k) < 10 powi n"
proof -
  have e1: "(10 :: rat) powi (n - 1) = 10 ^ (k - 1) * 10 powi (n - int k)"
    using assms(1) by (simp add: power_int_add [symmetric] flip: power_int_of_nat)
  have e2: "(10 :: rat) powi n = 10 ^ k * 10 powi (n - int k)"
    by (simp add: power_int_add [symmetric] flip: power_int_of_nat)
  have "(10 :: rat) ^ (k - 1) \<le> of_int s" "of_int s < (10 :: rat) ^ k"
    using assms(2,3) by (metis of_int_le_iff of_int_numeral of_int_power,
                         metis of_int_less_iff of_int_numeral of_int_power)
  thus ?thesis unfolding e1 e2 by simp
qed

subsection \<open>The digit search on short decimals\<close>

lemma foldl_prefer_rep_same:
  "set cs \<subseteq> {c} \<Longrightarrow> foldl (prefer_rep x k) c cs = c"
  by (induction cs) (auto simp: prefer_rep_def)

lemma candidates_found:
  assumes a: "a = of_int s0 * 10 powi (n0 - int k0)" and k0: "0 < k0"
      and s0: "10 ^ (k0 - 1) \<le> s0" "s0 < 10 ^ k0" "s0 < 2 ^ 53"
      and na: "2 powi (- 1022) \<le> a"
  shows "(n0, s0) \<in> set (digit_candidates (round_val a) k0)"
proof -
  define x where "x = round_val a"
  note cl = round_val_close [OF na, folded x_def]
  have apos: "0 < a" using na by (meson less_le_trans zero_less_power_int zero_less_numeral)
  define y where "y = x * 10 powi (int k0 - n0)"
  have inv: "(10 :: rat) powi (n0 - int k0) * 10 powi (int k0 - n0) = 1"
    by (simp add: power_int_add [symmetric])
  have "y - of_int s0 = (x - a) * 10 powi (int k0 - n0)"
    using inv by (simp add: y_def a algebra_simps)
  hence "\<bar>y - of_int s0\<bar> = \<bar>x - a\<bar> * 10 powi (int k0 - n0)" by (simp add: abs_mult)
  also have "\<dots> \<le> a / 2 ^ 53 * 10 powi (int k0 - n0)"
    using round_val_rel_err [OF na, folded x_def] by (intro mult_right_mono) auto
  also have "\<dots> = of_int s0 / 2 ^ 53"
    using inv by (simp add: a algebra_simps)
  also have "\<dots> < 1" using s0(3) by simp
  finally have ys: "\<bar>y - of_int s0\<bar> < 1" .
  have fc: "\<lfloor>y\<rfloor> = s0 \<or> \<lceil>y\<rceil> = s0"
  proof (cases "of_int s0 \<le> y")
    case True
    hence "\<lfloor>y\<rfloor> = s0" using ys by (simp add: floor_eq_iff abs_if split: if_splits)
    thus ?thesis ..
  next
    case False
    hence "\<lceil>y\<rceil> = s0" using ys by (simp add: ceiling_eq_iff abs_if split: if_splits)
    thus ?thesis ..
  qed
  define d where "d = floor_log_rat 10 x"
  have "a / 2 ^ 53 < a" using apos by simp
  hence xpos: "0 < x" using cl by linarith
  have db: "10 powi d \<le> x" "x < 10 powi (d + 1)"
    using floor_log_rat_bounds [of 10 x] xpos by (simp_all add: d_def)
  have ab: "10 powi (n0 - 1) \<le> a" "a < 10 powi n0"
    using decimal_bounds [OF k0 s0(1,2), of n0] by (simp_all add: a)
  have "(10 :: rat) powi d < 10 powi (n0 + 1)"
  proof -
    have "x \<le> a + a / 2 ^ 53" using cl by simp
    also have "\<dots> < 10 powi n0 * 10" using ab(2) apos by simp
    finally show ?thesis using db(1) by (simp add: power_int_add)
  qed
  hence d1: "d < n0 + 1" by (rule powi_less_cancel [rotated]) simp
  have "(10 :: rat) powi (n0 - 2) < 10 powi (d + 1)"
  proof -
    have "(10 :: rat) powi (n0 - 2) = 10 powi (n0 - 1) / 10" by (simp add: power_int_diff)
    also have "\<dots> < a - a / 2 ^ 53" using ab(1) apos by simp
    also have "\<dots> \<le> x" using cl by simp
    finally show ?thesis using db(2) by simp
  qed
  hence d2: "n0 - 2 < d + 1" by (rule powi_less_cancel [rotated]) simp
  have "n0 = d \<or> n0 = d + 1 \<or> n0 = d + 2" using d1 d2 by linarith
  thus ?thesis
    using fc unfolding x_def [symmetric] y_def digit_candidates_def d_def [symmetric] by (auto simp: Let_def)
qed

lemma digit_candidates_exp:
  "(n, s) \<in> set (digit_candidates x k) \<Longrightarrow> floor_log_rat 10 x \<le> n"
  by (auto simp: digit_candidates_def Let_def)

lemma valid_candidate_eq:
  assumes a: "a = of_int s0 * 10 powi p0" and s0: "s0 < 10 ^ 15"
      and na: "2 powi (- 1000) \<le> a"
      and c: "(n, s) \<in> set (digit_candidates (round_val a) k)" and ok: "rep_ok (round_val a) n k s"
      and k: "k \<le> 15"
  shows "of_int s * 10 powi (n - int k) = a"
proof -
  define x where "x = round_val a"
  define b where "b = (of_int s :: rat) * 10 powi (n - int k)"
  have kb: "0 < k" "10 ^ (k - 1) \<le> s" "s < 10 ^ k" and nb: "number_value b = JNum x"
    using ok by (simp_all add: rep_ok_def b_def x_def)
  note bb = decimal_bounds [OF kb, of n, folded b_def]
  have bpos: "0 < b" using bb by (meson less_le_trans zero_less_power_int zero_less_numeral)
  have bx: "round_val b = x" using round_pos_pos [OF bpos nb] .
  have na': "2 powi (- 1022) \<le> a"
    using na by (rule order_trans [rotated]) (simp add: power_int_minus_divide)
  note cl = round_val_close [OF na', folded x_def]
  define d where "d = floor_log_rat 10 x"
  have "x < 10 powi (d + 1)"
    using floor_log_rat_bounds [of 10 x] cl na' by (simp add: d_def)
  moreover have "10 powi (d + 1) = (100 :: rat) * 10 powi (d - 1)"
  proof -
    have "(10 :: rat) powi (d + 1) = 10 powi (2 + (d - 1))" by (simp add: add.commute)
    also have "\<dots> = 10 powi 2 * 10 powi (d - 1)" by (rule power_int_add) simp
    finally show ?thesis by simp
  qed
  moreover have "(10 :: rat) powi (d - 1) \<le> 10 powi (n - 1)"
    using digit_candidates_exp [OF c] by (intro power_int_increasing) (simp_all add: d_def x_def)
  ultimately have "x < 100 * b" using bb by linarith
  moreover have "a / 2 \<le> x" using cl by simp
  ultimately have "a < 200 * b" by linarith
  hence nb': "2 powi (- 1022) \<le> b"
    using na by (simp add: power_int_minus_divide)
  have s15: "s < 10 ^ 15"
    using kb(3) k by (meson order_less_le_trans one_le_numeral power_increasing)
  show ?thesis
    using short_decimals_round_apart [OF _ na' nb' a b_def s0 s15] bx by (simp add: x_def b_def)
qed

lemma valid_candidate_is:
  assumes a: "a = of_int s0 * 10 powi (n0 - int k0)" and k0: "0 < k0" "k0 \<le> 15"
      and s0: "10 ^ (k0 - 1) \<le> s0" "s0 < 10 ^ k0" "\<not> 10 dvd s0"
      and na: "2 powi (- 1000) \<le> a"
      and c: "(n, s) \<in> set (digit_candidates (round_val a) k)" and ok: "rep_ok (round_val a) n k s"
      and k: "k \<le> k0"
  shows "k = k0 \<and> n = n0 \<and> s = s0"
proof -
  have s15: "s0 < 10 ^ 15"
    using s0(2) k0(2) by (meson order_less_le_trans one_le_numeral power_increasing)
  have kb: "0 < k" "10 ^ (k - 1) \<le> s" "s < 10 ^ k"
    using ok by (simp_all add: rep_ok_def)
  have "of_int s * 10 powi (n - int k) = a"
    using valid_candidate_eq [OF a s15 na c ok] k k0 by simp
  hence "n - int k \<le> n0 - int k0 \<and> s = s0 * 10 ^ nat ((n0 - int k0) - (n - int k))"
    using dec_norm [of s s0 "n - int k" "n0 - int k0"] kb s0(3) a
    by (smt (verit, best) one_le_power zero_le_numeral)
  moreover define j where "j = nat ((n0 - int k0) - (n - int k))"
  ultimately have j: "s = s0 * 10 ^ j" "int j = (n0 - int k0) - (n - int k)" by auto
  have "j = 0"
  proof (rule ccontr)
    assume "j \<noteq> 0"
    hence "(10 :: int) ^ 1 \<le> 10 ^ j" by (intro power_increasing) simp_all
    moreover have "(10 :: int) ^ k0 = 10 ^ (k0 - 1) * 10" using k0(1) by (cases k0) simp_all
    moreover have "0 \<le> s0" using s0(1) by (meson order_trans zero_le_numeral zero_le_power)
    ultimately have "(10 :: int) ^ k0 \<le> s0 * 10 ^ j"
      using s0(1) by (metis mult_mono power_one_right zero_le_numeral)
    moreover have "(10 :: int) ^ k \<le> 10 ^ k0" using k by (simp add: power_increasing)
    ultimately show False using kb(3) j(1) by linarith
  qed
  hence "s = s0" using j by simp
  hence "(10 :: int) ^ (k0 - 1) < 10 ^ k" using s0(1) kb(3) by linarith
  hence "k0 - 1 < k" by (rule power_less_imp_less_exp [rotated]) simp
  thus ?thesis using k k0 j \<open>j = 0\<close> \<open>s = s0\<close> by auto
qed

lemma shortest_digits_exact:
  assumes a: "a = of_int s0 * 10 powi (n0 - int k0)" and k0: "0 < k0" "k0 \<le> 15"
      and s0: "10 ^ (k0 - 1) \<le> s0" "s0 < 10 ^ k0" "\<not> 10 dvd s0"
      and na: "2 powi (- 1000) \<le> a" and ha: "a \<le> 2 powi 1000"
  shows "shortest_digits (round_val a) 1 = Some (n0, k0, s0)"
proof -
  define x where "x = round_val a"
  define P where "P = (\<lambda>k (n, s). rep_ok x n k s)"
  have na': "2 powi (- 1022) \<le> a"
    using na by (rule order_trans [rotated]) (simp add: power_int_minus_divide)
  have apos: "0 < a" using na by (meson less_le_trans zero_less_power_int zero_less_numeral)
  have "x \<le> a + a / 2 ^ 53" using round_val_close [OF na'] by (simp add: x_def)
  also have "\<dots> < 2 ^ 1024" using ha by simp
  finally have "number_value a = JNum x"
    using number_value_round_val [OF apos] by (simp add: x_def)
  hence ok0: "P k0 (n0, s0)"
    using k0 s0 by (simp add: P_def rep_ok_def a)
  have "(10 :: int) ^ k0 \<le> 10 ^ 15" using k0(2) by (intro power_increasing) simp_all
  hence s53: "s0 < 2 ^ 53" using s0(2) by simp
  have mem0: "(n0, s0) \<in> set (digit_candidates x k0)"
    using candidates_found [OF a k0(1) s0(1,2) s53 na'] by (simp add: x_def)
  have only: "\<And>k c. k \<le> k0 \<Longrightarrow> c \<in> set (filter (P k) (digit_candidates x k)) \<Longrightarrow> k = k0 \<and> c = (n0, s0)"
    using valid_candidate_is [OF a k0 s0 na] by (auto simp: P_def x_def)
  have "shortest_digits x (k0 - j) = Some (n0, k0, s0)" if "j < k0" for j
    using that
  proof (induction j)
    case 0
    obtain c cs where F: "filter (P k0) (digit_candidates x k0) = c # cs"
      using mem0 ok0 by (cases "filter (P k0) (digit_candidates x k0)") (auto simp: filter_empty_conv)
    have "c = (n0, s0)" "set cs \<subseteq> {(n0, s0)}"
      using only [of k0] F by (simp_all add: subset_iff)
    hence "foldl (prefer_rep x k0) c cs = (n0, s0)" by (simp add: foldl_prefer_rep_same)
    thus ?case
      using F unfolding P_def by (subst shortest_digits.simps) simp
  next
    case (Suc j)
    have "\<not> P (k0 - Suc j) c" if "c \<in> set (digit_candidates x (k0 - Suc j))" for c
      using only [of "k0 - Suc j" c] that Suc.prems by auto
    hence "filter (P (k0 - Suc j)) (digit_candidates x (k0 - Suc j)) = []"
      by (simp add: filter_empty_conv)
    hence "shortest_digits x (k0 - Suc j) = shortest_digits x (Suc (k0 - Suc j))"
      unfolding P_def by (subst shortest_digits.simps) simp
    also have "Suc (k0 - Suc j) = k0 - j" using Suc.prems by simp
    finally show ?case using Suc by simp
  qed
  from this [of "k0 - 1"]
  show ?thesis using k0 by (simp add: x_def)
qed

subsection \<open>Doubles\<close>

text \<open>
  A positive double is an integer multiple of its unit in the last place; every value
  closer to it than \<open>2^-54\<close> of its size rounds to it, and rounding is idempotent.
\<close>

lemma powi2_split:
  assumes "E \<le> F"
  shows "(2 :: rat) powi F = of_int (2 ^ nat (F - E)) * 2 powi E"
  using assms by (simp add: power_int_add [symmetric] flip: power_int_of_nat)

lemma round_val_grid:
  assumes x: "x = of_int N * 2 powi F" and F: "ulp_exp x \<le> F"
  shows "round_val x = x"
proof -
  define U where "U = ulp_exp x"
  have pf: "(2 :: rat) powi F = of_int (2 ^ nat (F - U)) * 2 powi U"
    using powi2_split [of U F] F by (simp add: U_def)
  have "x / 2 powi U = of_int (N * 2 ^ nat (F - U))" unfolding x pf by simp
  hence "round_even (x / 2 powi U) = N * 2 ^ nat (F - U)" by (simp add: round_even_eqI)
  hence "round_val x = of_int (N * 2 ^ nat (F - U)) * 2 powi U" by (simp add: round_val_def U_def [symmetric])
  also have "\<dots> = x" unfolding x pf by simp
  finally show ?thesis .
qed

lemma round_val_same_ulp:
  assumes u: "ulp_exp v = F" and x: "x = of_int N * 2 powi F" and d: "\<bar>v - x\<bar> < 2 powi (F - 1)"
  shows "round_val v = x"
proof -
  have P: "(0 :: rat) < 2 powi F" by simp
  have "v / 2 powi F - of_int N = (v - x) / 2 powi F" using P by (simp add: x field_simps)
  hence "\<bar>v / 2 powi F - of_int N\<bar> = \<bar>v - x\<bar> / 2 powi F" using P by (simp add: abs_divide)
  also have "\<dots> < 2 powi (F - 1) / 2 powi F" using d P by (simp add: divide_strict_right_mono)
  also have "\<dots> = 1 / 2" by (simp add: power_int_diff)
  finally have "round_even (v / 2 powi F) = N" by (rule round_even_eqI)
  thus ?thesis by (simp add: round_val_def u x)
qed

lemma grid_below:
  assumes "of_int M * 2 powi E < (2 :: rat) powi F" "E \<le> F"
  shows "of_int M * 2 powi E \<le> (2 :: rat) powi F - 2 powi E"
proof -
  have "of_int M * 2 powi E < of_int (2 ^ nat (F - E)) * (2 :: rat) powi E"
    using assms powi2_split [of E F] by simp
  hence "M < 2 ^ nat (F - E)" by (simp add: mult_less_cancel_right)
  hence "of_int M \<le> (of_int (2 ^ nat (F - E) - 1) :: rat)" by linarith
  hence "of_int M * 2 powi E \<le> of_int (2 ^ nat (F - E) - 1) * (2 :: rat) powi E"
    by (simp add: mult_right_mono)
  thus ?thesis using powi2_split [of E F] assms(2) by (simp add: algebra_simps)
qed

lemma grid_above:
  assumes "(2 :: rat) powi F < of_int M * 2 powi E" "E \<le> F"
  shows "(2 :: rat) powi F + 2 powi E \<le> of_int M * 2 powi E"
proof -
  have "of_int (2 ^ nat (F - E)) * (2 :: rat) powi E < of_int M * 2 powi E"
    using assms powi2_split [of E F] by simp
  hence "2 ^ nat (F - E) < M" by (simp add: mult_less_cancel_right)
  hence "(of_int (2 ^ nat (F - E) + 1) :: rat) \<le> of_int M" by linarith
  hence "of_int (2 ^ nat (F - E) + 1) * (2 :: rat) powi E \<le> of_int M * 2 powi E"
    by (simp add: mult_right_mono)
  thus ?thesis using powi2_split [of E F] assms(2) by (simp add: algebra_simps)
qed

lemma double_grid:
  assumes x: "0 < x" "round_val x = x"
  shows "x = of_int (round_even (x / 2 powi ulp_exp x)) * 2 powi ulp_exp x
         \<and> 2 powi ulp_exp x \<le> x \<and> ulp_exp x < floor_log_rat 2 x + 1"
proof -
  define E where "E = ulp_exp x"
  define M where "M = round_even (x / 2 powi E)"
  have xM: "x = of_int M * 2 powi E" using x(2) by (simp add: round_val_def E_def M_def)
  hence "of_int M = x / 2 powi E" by simp
  hence "0 < M" using x(1) by (metis divide_pos_pos of_int_0_less_iff zero_less_power_int zero_less_numeral)
  hence "(2 :: rat) powi E \<le> x" by (simp add: xM)
  moreover have "x < 2 powi (floor_log_rat 2 x + 1)" using floor_log_rat_bounds [of 2 x] x(1) by simp
  ultimately have "E < floor_log_rat 2 x + 1" by (intro powi_less_cancel [of 2]) simp_all
  thus ?thesis using xM \<open>2 powi E \<le> x\<close> unfolding E_def [symmetric] M_def [symmetric] by blast
qed

lemma round_val_near:
  assumes x: "0 < x" "round_val x = x" and d: "\<bar>v - x\<bar> < x / 2 ^ 54"
  shows "round_val v = x"
proof -
  define e where "e = floor_log_rat 2 x"
  define E where "E = ulp_exp x"
  define M where "M = round_even (x / 2 powi E)"
  have bx: "2 powi e \<le> x" "x < 2 powi (e + 1)" using floor_log_rat_bounds [of 2 x] x(1) by (simp_all add: e_def)
  have E: "E = max (e - 52) (- 1074)" by (simp add: E_def e_def ulp_exp_def)
  have xM: "x = of_int M * 2 powi E" and EE: "E < e + 1"
    using double_grid [OF x] by (simp_all add: E_def M_def e_def)
  have hx: "x \<le> 2 powi (e + 1) - 2 powi E" using grid_below [of M E "e + 1"] bx(2) EE by (simp add: xM)
  have "x / 2 ^ 54 < 2 powi (e + 1) / 2 ^ 54" using bx(2) by (simp add: divide_strict_right_mono)
  also have "(2 :: rat) powi (e + 1) / 2 ^ 54 = 2 powi (e - 53)" by (simp add: power_int_diff power_int_add)
  also have "(2 :: rat) powi (e - 53) \<le> 2 powi (E - 1)" using E by (intro power_int_increasing) simp_all
  finally have hd: "\<bar>v - x\<bar> < 2 powi (E - 1)" using d by linarith
  have h2: "(2 :: rat) powi (E - 1) < 2 powi E" by (intro power_int_strict_increasing) simp_all
  have vhi: "v < 2 powi (e + 1)" using hd hx h2 by linarith
  show ?thesis
  proof (cases "2 powi e \<le> v")
    case True
    hence "floor_log_rat 2 v = e" using vhi by (intro floor_log_rat_eqI) simp_all
    hence "ulp_exp v = E" by (simp add: ulp_exp_def E)
    thus ?thesis using round_val_same_ulp xM hd by blast
  next
    case False
    have "\<not> 2 powi e < x"
    proof
      assume "2 powi e < x"
      hence "2 powi e + 2 powi E \<le> x" using grid_above [of e M E] EE by (simp add: xM)
      thus False using False hd h2 by linarith
    qed
    hence xe: "x = 2 powi e" using bx(1) by simp
    have "(2 :: rat) powi (e - 1) \<le> 2 powi e - 2 powi e / 2 ^ 54"
      by (simp add: power_int_diff field_simps)
    moreover have "x - x / 2 ^ 54 < v" using d by (simp only: abs_less_iff) linarith
    ultimately have "2 powi (e - 1) \<le> v" using xe by simp
    hence fl: "floor_log_rat 2 v = e - 1" using False by (intro floor_log_rat_eqI) simp_all
    show ?thesis
    proof (cases "- 1074 \<le> e - 53")
      case True
      hence u: "ulp_exp v = e - 53" using fl by (simp add: ulp_exp_def)
      have "x = of_int (2 ^ 53) * 2 powi (e - 53)" using xe by (simp add: power_int_diff)
      moreover have "\<bar>v - x\<bar> < 2 powi (e - 53 - 1)"
        using d xe by (simp add: power_int_diff field_simps)
      ultimately show ?thesis using round_val_same_ulp [OF u] by blast
    next
      case False
      hence "ulp_exp v = E" using fl E by (simp add: ulp_exp_def)
      thus ?thesis using round_val_same_ulp xM hd by blast
    qed
  qed
qed

lemma round_val_idem:
  assumes r: "0 < r" and x: "0 < round_val r"
  shows "round_val (round_val r) = round_val r"
proof -
  define e where "e = floor_log_rat 2 r"
  define E where "E = ulp_exp r"
  define M where "M = round_even (r / 2 powi E)"
  have xM: "round_val r = of_int M * 2 powi E" by (simp add: round_val_def E_def M_def)
  have bx: "2 powi e \<le> r" "r < 2 powi (e + 1)" using floor_log_rat_bounds [of 2 r] r by (simp_all add: e_def)
  have E: "E = max (e - 52) (- 1074)" by (simp add: E_def e_def ulp_exp_def)
  have err: "\<bar>round_val r - r\<bar> \<le> 2 powi (E - 1)" using round_val_err [OF r] by (simp add: E_def)
  have EE: "E \<le> e + 1"
  proof (rule ccontr)
    assume "\<not> E \<le> e + 1"
    hence "(2 :: rat) powi (e + 1) \<le> 2 powi (E - 1)" by (intro power_int_increasing) simp_all
    hence "\<bar>r / 2 powi E - of_int 0\<bar> < 1 / 2" using bx(2) r by (simp add: power_int_diff field_simps)
    hence "M = 0" unfolding M_def by (rule round_even_eqI)
    thus False using x xM by simp
  qed
  have h2: "(2 :: rat) powi (E - 1) < 2 powi E" by (intro power_int_strict_increasing) simp_all
  show ?thesis
  proof (cases "round_val r < 2 powi (e + 1)")
    case True
    have "2 powi floor_log_rat 2 (round_val r) \<le> round_val r"
      using floor_log_rat_bounds [of 2 "round_val r"] x by simp
    hence "floor_log_rat 2 (round_val r) < e + 1" using True by (intro powi_less_cancel [of 2]) simp_all
    hence "ulp_exp (round_val r) \<le> E" by (simp add: ulp_exp_def E)
    thus ?thesis by (rule round_val_grid [OF xM])
  next
    case False
    have "\<not> 2 powi (e + 1) < round_val r"
    proof
      assume "2 powi (e + 1) < round_val r"
      hence "2 powi (e + 1) + 2 powi E \<le> round_val r" using grid_above [of "e + 1" M E] EE by (simp add: xM)
      thus False using err bx(2) h2 by (simp only: abs_le_iff) linarith
    qed
    hence top: "round_val r = of_int 1 * 2 powi (e + 1)" using False by simp
    moreover have "(2 :: rat) powi (e + 1) < 2 powi (e + 1 + 1)" by (intro power_int_strict_increasing) simp_all
    ultimately have "floor_log_rat 2 (round_val r) = e + 1" by (intro floor_log_rat_eqI) simp_all
    hence "ulp_exp (round_val r) \<le> e + 1" using EE E by (simp add: ulp_exp_def)
    thus ?thesis by (rule round_val_grid [OF top])
  qed
qed

lemma number_value_small_int:
  assumes m: "0 < m" "m < 2 ^ 53"
  shows "number_value (of_int m) = JNum (of_int m)"
proof -
  define r where "r = (of_int m :: rat)"
  define e where "e = floor_log_rat 2 r"
  have r: "0 < r" "r < 2 ^ 53" "1 \<le> r" using m by (simp_all add: r_def)
  note bd = floor_log_rat_bounds [of 2 r, simplified, OF r(1), folded e_def]
  have "(2 :: rat) powi 0 < 2 powi (e + 1)" using bd r(3) by simp
  hence e0: "0 \<le> e" by (metis powi_less_cancel one_less_numeral_iff semiring_norm(76) zle_add1_eq_le)
  have "(2 :: rat) powi e < 2 powi 53" using bd r(2) by simp
  hence e52: "e < 53" by (rule powi_less_cancel [rotated]) simp
  have ue: "ulp_exp r = e - 52" using e0 by (simp add: ulp_exp_def e_def)
  define j where "j = nat (52 - e)"
  have pj: "(2 :: rat) powi (e - 52) = 1 / 2 ^ j"
    using e52 by (simp add: j_def power_int_minus_divide [symmetric] flip: power_int_of_nat)
  have "r / 2 powi ulp_exp r = of_int (m * 2 ^ j)" unfolding ue pj by (simp add: r_def)
  hence "round_even (r / 2 powi ulp_exp r) = m * 2 ^ j" by (simp add: round_even_eqI)
  hence "round_val r = of_int (m * 2 ^ j) * (1 / 2 ^ j)" unfolding round_val_def ue pj by simp
  hence "round_val r = r" by (simp add: r_def)
  thus ?thesis using r by (simp add: number_value_def round_pos_def r_def)
qed

subsection \<open>The digit search always returns\<close>

text \<open>
  Seventeen significant digits always give a representation that rounds back
  (\<open>5 * 10^-17 < 2^-54\<close>), so the search over \<open>k\<close> stops at \<open>k = 17\<close> at the latest.
\<close>

lemma rep_ok_near:
  assumes k: "0 < k" "10 ^ (k - 1) \<le> s" "s < 10 ^ k"
      and x: "0 < x" "round_val x = x" "x < 2 ^ 1024"
      and d: "\<bar>of_int s * 10 powi (n - int k) - x\<bar> < x / 2 ^ 54"
  shows "rep_ok x n k s"
proof -
  have "0 < of_int s * (10 :: rat) powi (n - int k)"
    using decimal_bounds [OF k, of n] by (meson less_le_trans zero_less_power_int zero_less_numeral)
  moreover have "round_val (of_int s * 10 powi (n - int k)) = x" using round_val_near [OF x(1,2) d] .
  ultimately show ?thesis using k x(3) by (simp add: rep_ok_def number_value_round_val)
qed

lemma seventeen_digits:
  assumes x: "0 < x" "round_val x = x" "x < 2 ^ 1024"
  shows "\<exists>c \<in> set (digit_candidates x 17). case c of (n, s) \<Rightarrow> rep_ok x n 17 s"
proof -
  define d where "d = floor_log_rat 10 x"
  have bx: "10 powi d \<le> x" "x < 10 powi (d + 1)" using floor_log_rat_bounds [of 10 x] x(1) by (simp_all add: d_def)
  define y where "y = x * 10 powi (17 - (d + 1))"
  have sc: "(10 :: rat) powi (d + 1 - 17) * 10 powi (17 - (d + 1)) = 1" by (simp add: power_int_add [symmetric])
  have "(10 :: rat) powi d * 10 powi (17 - (d + 1)) = 10 ^ 16" by (simp add: power_int_add [symmetric])
  hence y_lo: "10 ^ 16 \<le> y" using bx(1) by (simp add: y_def mult_right_mono) (metis mult_right_mono zero_le_power_int zero_le_numeral)
  have "(10 :: rat) powi (d + 1) * 10 powi (17 - (d + 1)) = 10 ^ 17" by (simp add: power_int_add [symmetric])
  hence y_hi: "y < 10 ^ 17" using bx(2) by (simp add: y_def) (metis mult_strict_right_mono zero_less_power_int zero_less_numeral)
  have err: "\<bar>of_int s * 10 powi (d + 1 - 17) - x\<bar> < x / 2 ^ 54" if "\<bar>of_int s - y\<bar> \<le> 1 / 2" for s
  proof -
    have "of_int s * 10 powi (d + 1 - 17) - x = (of_int s - y) * 10 powi (d + 1 - 17)"
      using sc by (simp add: y_def algebra_simps)
    hence "\<bar>of_int s * 10 powi (d + 1 - 17) - x\<bar> \<le> 1 / 2 * 10 powi (d + 1 - 17)"
      using that by (simp add: abs_mult mult_right_mono)
    also have "(1 / 2 :: rat) * 10 powi (d + 1 - 17) = 10 powi d / (2 * 10 ^ 16)"
      by (simp add: power_int_diff power_int_add)
    also have "\<dots> \<le> x / (2 * 10 ^ 16)" using bx(1) by (simp add: divide_right_mono)
    also have "\<dots> < x / 2 ^ 54" using x(1) by (simp add: divide_strict_left_mono)
    finally show ?thesis .
  qed
  have r1: "rep_ok x (d + 1) 17 s" if "10 ^ 16 \<le> s" "s < 10 ^ 17" "\<bar>of_int s - y\<bar> \<le> 1 / 2" for s
    using rep_ok_near [of 17 s x "d + 1"] x err [OF that(3)] that(1,2) by simp
  show ?thesis
  proof (cases "y - of_int \<lfloor>y\<rfloor> \<le> 1 / 2")
    case True
    have "10 ^ 16 \<le> \<lfloor>y\<rfloor>" "\<lfloor>y\<rfloor> < 10 ^ 17" using y_lo y_hi by (simp_all add: le_floor_iff floor_less_iff)
    moreover have "\<bar>of_int \<lfloor>y\<rfloor> - y\<bar> \<le> 1 / 2" using True of_int_floor_le [of y] by (simp only: abs_le_iff) linarith
    ultimately have "rep_ok x (d + 1) 17 \<lfloor>y\<rfloor>" by (rule r1)
    moreover have "(d + 1, \<lfloor>y\<rfloor>) \<in> set (digit_candidates x 17)" by (simp add: digit_candidates_def d_def y_def Let_def)
    ultimately show ?thesis by (intro bexI [where x = "(d + 1, \<lfloor>y\<rfloor>)"]) simp_all
  next
    case False
    have "\<lceil>y\<rceil> \<le> \<lfloor>y\<rfloor> + 1" using floor_correct [of y] by (simp add: ceiling_le_iff)
    hence "of_int \<lceil>y\<rceil> \<le> of_int \<lfloor>y\<rfloor> + (1 :: rat)" by (metis of_int_le_iff of_int_add of_int_1)
    hence cy: "of_int \<lceil>y\<rceil> - y < 1 / 2" using False by linarith
    have c_lo: "10 ^ 16 \<le> \<lceil>y\<rceil>" using y_lo by (simp add: le_ceiling_iff)
    show ?thesis
    proof (cases "\<lceil>y\<rceil> < 10 ^ 17")
      case True
      have "\<bar>of_int \<lceil>y\<rceil> - y\<bar> \<le> 1 / 2" using cy le_of_int_ceiling [of y] by (simp only: abs_le_iff) linarith
      hence "rep_ok x (d + 1) 17 \<lceil>y\<rceil>" using r1 True c_lo by simp
      moreover have "(d + 1, \<lceil>y\<rceil>) \<in> set (digit_candidates x 17)" by (simp add: digit_candidates_def d_def y_def Let_def)
      ultimately show ?thesis by (intro bexI [where x = "(d + 1, \<lceil>y\<rceil>)"]) simp_all
    next
      case False
      moreover have "\<lceil>y\<rceil> \<le> 10 ^ 17" using y_hi by (simp add: ceiling_le_iff)
      ultimately have top: "\<lceil>y\<rceil> = 10 ^ 17" by linarith
      define y' where "y' = x * 10 powi (17 - (d + 2))"
      have "y = y' * 10" by (simp add: y_def y'_def power_int_diff power_int_add field_simps)
      hence c': "\<lceil>y'\<rceil> = 10 ^ 16" using top cy y_hi by (simp add: ceiling_eq_iff)
      have "\<bar>of_int (10 ^ 17 :: int) - y\<bar> \<le> 1 / 2"
        using top cy y_hi by (simp only: abs_le_iff) simp
      hence e17: "\<bar>of_int (10 ^ 17 :: int) * 10 powi (d + 1 - 17) - x\<bar> < x / 2 ^ 54" by (rule err)
      have "of_int (10 ^ 16 :: int) * (10 :: rat) powi (d + 2 - 17) = of_int (10 ^ 17 :: int) * 10 powi (d + 1 - 17)"
        by (simp add: power_int_diff power_int_add)
      hence "\<bar>of_int (10 ^ 16 :: int) * 10 powi (d + 2 - 17) - x\<bar> < x / 2 ^ 54" using e17 by simp
      hence "rep_ok x (d + 2) 17 \<lceil>y'\<rceil>" using rep_ok_near [of 17 "10 ^ 16" x "d + 2"] x c' by simp
      moreover have "(d + 2, \<lceil>y'\<rceil>) \<in> set (digit_candidates x 17)" by (simp add: digit_candidates_def d_def y'_def Let_def)
      ultimately show ?thesis by (intro bexI [where x = "(d + 2, \<lceil>y'\<rceil>)"]) simp_all
    qed
  qed
qed

lemma shortest_digits_found:
  assumes c: "c \<in> set (digit_candidates x k')" "case c of (n, s) \<Rightarrow> rep_ok x n k' s"
  shows "j \<le> k' \<Longrightarrow> shortest_digits x (k' - j) \<noteq> None"
proof (induction j)
  case 0
  have "filter (\<lambda>(n, s). rep_ok x n k' s) (digit_candidates x k') \<noteq> []"
    using c by (auto simp: filter_empty_conv)
  thus ?case by (subst shortest_digits.simps) (auto split: list.split prod.split)
next
  case (Suc j)
  show ?case
  proof (cases "filter (\<lambda>(n, s). rep_ok x n (k' - Suc j) s) (digit_candidates x (k' - Suc j))")
    case Nil
    hence "shortest_digits x (k' - Suc j) = shortest_digits x (Suc (k' - Suc j))"
      by (subst shortest_digits.simps) simp
    also have "Suc (k' - Suc j) = k' - j" using Suc.prems by simp
    finally show ?thesis using Suc by simp
  next
    case (Cons a l)
    thus ?thesis by (subst shortest_digits.simps) (simp split: prod.split)
  qed
qed

lemma pos_toString_double:
  assumes "0 < x" "round_val x = x" "x < 2 ^ 1024"
  shows "pos_toString x \<noteq> None"
proof -
  obtain c where "c \<in> set (digit_candidates x 17)" "case c of (n, s) \<Rightarrow> rep_ok x n 17 s"
    using seventeen_digits [OF assms] by blast
  from shortest_digits_found [OF this, of 16] show ?thesis by (simp add: pos_toString_def)
qed

lemma js_toString_round_pos:
  assumes "0 < r"
  shows "(case round_pos r of JNum x \<Rightarrow> 0 \<le> x \<and> (x \<noteq> 0 \<longrightarrow> pos_toString x \<noteq> None) | JNaN \<Rightarrow> False | _ \<Rightarrow> True)"
proof (cases "2 ^ 1024 \<le> round_val r")
  case False
  have "0 < round_val r \<Longrightarrow> pos_toString (round_val r) \<noteq> None"
    using pos_toString_double [of "round_val r"] round_val_idem [OF assms] False by simp
  thus ?thesis using False round_val_nonneg [OF assms] by (auto simp: round_pos_def)
qed (simp add: round_pos_def)

lemma js_toString_number_value: "js_toString (number_value r) \<noteq> None"
proof -
  consider "r = 0" | "0 < r" | "r < 0" by linarith
  thus ?thesis
  proof cases
    case 1 thus ?thesis by (simp add: number_value_def js_toString_def)
  next
    case 2 thus ?thesis using js_toString_round_pos [of r]
      by (auto simp: number_value_def js_toString_def split: jsnum.splits)
  next
    case 3 thus ?thesis using js_toString_round_pos [of "- r"]
      by (auto simp: number_value_def js_toString_def js_neg_def split: jsnum.splits)
  qed
qed

subsection \<open>Formatting\<close>

lemma format_decimal_int:
  "int k \<le> n \<Longrightarrow> n \<le> 21 \<Longrightarrow> format_decimal n k s = dec_digits (nat s) @ replicate (nat n - k) CHR ''0''"
  by (simp add: format_decimal_def)

lemma format_decimal_frac:
  "\<not> int k \<le> n \<Longrightarrow> 0 < n \<Longrightarrow> n \<le> 21 \<Longrightarrow>
   format_decimal n k s = take (nat n) (dec_digits (nat s)) @ ''.'' @ drop (nat n) (dec_digits (nat s))"
  by (simp add: format_decimal_def Let_def)

lemma format_decimal_small:
  "\<not> int k \<le> n \<Longrightarrow> \<not> 0 < n \<Longrightarrow> - 6 < n \<Longrightarrow>
   format_decimal n k s = ''0.'' @ replicate (nat (- n)) CHR ''0'' @ dec_digits (nat s)"
  by (simp add: format_decimal_def)

end
