(* ===== verification/ToString.thy ===== *)
theory ToString
  imports JsNumber
begin

text \<open>
  The digit search of \<open>Number::toString\<close> (theory \<open>JsNumber\<close>) against ECMAScript
  6.1.6.1.20 step 5 as the specification states it: among all \<open>k\<close>-digit
  representations \<open>s * 10^(n-k)\<close> that convert back to the double, take the least \<open>k\<close>,
  then the one closest to the double, then the even one. \<open>es_digits\<close> is that
  declarative choice; \<open>pos_toString_es_digits\<close> shows that \<open>pos_toString\<close> prints
  exactly such a choice for every positive finite double. The search looks only at the
  floor and the ceiling of the scaled double in three decades; \<open>candidates_complete\<close>
  shows that no other representation can be valid and closer, which rests on the
  monotonicity of rounding (\<open>round_val_mono\<close>).
\<close>

definition closer_rep :: "rat \<Rightarrow> nat \<Rightarrow> int \<times> int \<Rightarrow> int \<times> int \<Rightarrow> bool" where
  "closer_rep x k c c' \<longleftrightarrow>
     rep_dist x k c < rep_dist x k c' \<or> rep_dist x k c = rep_dist x k c' \<and> (even (snd c) \<or> odd (snd c'))"

definition es_digits :: "rat \<Rightarrow> int \<Rightarrow> nat \<Rightarrow> int \<Rightarrow> bool" where
  "es_digits x n k s \<longleftrightarrow>
     rep_ok x n k s \<and> (\<forall>k' n' s'. k' < k \<longrightarrow> \<not> rep_ok x n' k' s')
     \<and> (\<forall>n' s'. rep_ok x n' k s' \<longrightarrow> closer_rep x k (n, s) (n', s'))"

subsection \<open>Monotonicity of rounding\<close>

lemma round_even_mono:
  assumes "y1 \<le> y2"
  shows "round_even y1 \<le> round_even y2"
proof (rule ccontr)
  assume "\<not> round_even y1 \<le> round_even y2"
  hence "round_even y2 + 1 \<le> round_even y1" by simp
  hence "(of_int (round_even y2) :: rat) + 1 \<le> of_int (round_even y1)" by (metis of_int_1 of_int_add of_int_le_iff)
  moreover have "\<bar>y1 - of_int (round_even y1)\<bar> \<le> 1 / 2" "\<bar>y2 - of_int (round_even y2)\<bar> \<le> 1 / 2"
    by (rule round_even_close)+
  ultimately have "y1 = y2" using assms by (simp only: abs_le_iff) linarith
  thus False using \<open>\<not> _\<close> by simp
qed

lemma round_val_le_grid:
  assumes "0 < a" "a \<le> of_int N * 2 powi F" "ulp_exp a \<le> F"
  shows "round_val a \<le> of_int N * 2 powi F"
proof -
  define E where "E = ulp_exp a"
  have g: "of_int N * (2 :: rat) powi F = of_int (N * 2 ^ nat (F - E)) * 2 powi E"
    using powi2_split [of E F] assms(3) by (simp add: E_def)
  have "a / 2 powi E \<le> of_int (N * 2 ^ nat (F - E))"
    using assms(2) g by (simp add: pos_divide_le_eq)
  hence "round_even (a / 2 powi E) \<le> round_even (of_int (N * 2 ^ nat (F - E)))" by (rule round_even_mono)
  also have "\<dots> = N * 2 ^ nat (F - E)" by (simp add: round_even_eqI)
  finally have R: "round_even (a / 2 powi E) \<le> N * 2 ^ nat (F - E)" .
  have "of_int (round_even (a / 2 powi E)) \<le> (of_int (N * 2 ^ nat (F - E)) :: rat)"
    using R by (simp only: of_int_le_iff)
  hence "of_int (round_even (a / 2 powi E)) * 2 powi E \<le> of_int (N * 2 ^ nat (F - E)) * (2 :: rat) powi E"
    by (rule mult_right_mono) simp
  thus ?thesis unfolding round_val_def E_def [symmetric] g .
qed

lemma round_val_ge_grid:
  assumes "of_int N * 2 powi F \<le> a" "ulp_exp a \<le> F"
  shows "of_int N * 2 powi F \<le> round_val a"
proof -
  define E where "E = ulp_exp a"
  have g: "of_int N * (2 :: rat) powi F = of_int (N * 2 ^ nat (F - E)) * 2 powi E"
    using powi2_split [of E F] assms(2) by (simp add: E_def)
  have "of_int (N * 2 ^ nat (F - E)) \<le> a / 2 powi E"
    using assms(1) g by (simp add: pos_le_divide_eq)
  hence "round_even (of_int (N * 2 ^ nat (F - E))) \<le> round_even (a / 2 powi E)" by (rule round_even_mono)
  moreover have "round_even (of_int (N * 2 ^ nat (F - E))) = N * 2 ^ nat (F - E)"
    by (rule round_even_eqI) simp
  ultimately have R: "N * 2 ^ nat (F - E) \<le> round_even (a / 2 powi E)" by simp
  have "(of_int (N * 2 ^ nat (F - E)) :: rat) \<le> of_int (round_even (a / 2 powi E))"
    using R by (simp only: of_int_le_iff)
  hence "of_int (N * 2 ^ nat (F - E)) * (2 :: rat) powi E \<le> of_int (round_even (a / 2 powi E)) * 2 powi E"
    by (rule mult_right_mono) simp
  thus ?thesis unfolding round_val_def E_def [symmetric] g .
qed

lemma floor_log_rat_mono:
  assumes "1 < b" "0 < a" "a \<le> c"
  shows "floor_log_rat b a \<le> floor_log_rat b c"
proof -
  have b: "(1 :: rat) < of_nat b" using assms(1) by simp
  have "of_nat b powi floor_log_rat b a \<le> a" using floor_log_rat_bounds [OF assms(1,2)] by simp
  moreover have "c < of_nat b powi (floor_log_rat b c + 1)"
    using floor_log_rat_bounds [OF assms(1)] assms(2,3) by simp
  ultimately have "floor_log_rat b a < floor_log_rat b c + 1"
    using assms(3) by (intro powi_less_cancel [OF b]) linarith
  thus ?thesis by simp
qed

lemma round_val_mono:
  assumes "0 < a" "a \<le> b"
  shows "round_val a \<le> round_val b"
proof -
  define ea where "ea = floor_log_rat 2 a"
  define eb where "eb = floor_log_rat 2 b"
  have b: "0 < b" using assms by simp
  have "ea \<le> eb" using floor_log_rat_mono [of 2 a b] assms by (simp add: ea_def eb_def)
  hence U: "ulp_exp a \<le> ulp_exp b" by (simp add: ulp_exp_def ea_def eb_def)
  show ?thesis
  proof (cases "ulp_exp a = ulp_exp b")
    case True
    have "a / 2 powi ulp_exp b \<le> b / 2 powi ulp_exp b" using assms(2) by (simp add: divide_right_mono)
    hence "round_even (a / 2 powi ulp_exp b) \<le> round_even (b / 2 powi ulp_exp b)" by (rule round_even_mono)
    hence "(of_int (round_even (a / 2 powi ulp_exp b)) :: rat) \<le> of_int (round_even (b / 2 powi ulp_exp b))"
      by (simp only: of_int_le_iff)
    thus ?thesis unfolding round_val_def True by (rule mult_right_mono) simp
  next
    case False
    have ua: "ulp_exp a = max (ea - 52) (- 1074)" "ulp_exp b = max (eb - 52) (- 1074)"
      by (simp_all add: ulp_exp_def ea_def eb_def)
    have lt: "ulp_exp a < ulp_exp b" using False U by simp
    hence eb: "ulp_exp b = eb - 52" and "ea < eb" using ua by (simp_all add: max_def split: if_splits)
    have "a < 2 powi (ea + 1)" using floor_log_rat_bounds [of 2 a] assms(1) by (simp add: ea_def)
    moreover note \<open>ea < eb\<close>
    hence "(2 :: rat) powi (ea + 1) \<le> 2 powi eb" by (intro power_int_increasing) simp_all
    ultimately have "a \<le> of_int 1 * 2 powi eb" by simp
    hence "round_val a \<le> of_int 1 * 2 powi eb" using lt eb by (intro round_val_le_grid [OF assms(1)]) simp_all
    moreover have "of_int 1 * 2 powi eb \<le> round_val b"
      using floor_log_rat_bounds [of 2 b] b eb by (intro round_val_ge_grid) (simp_all add: eb_def)
    ultimately show ?thesis by linarith
  qed
qed

lemma round_val_between:
  assumes "0 < a" "a \<le> b" "b \<le> c" "round_val a = x" "round_val c = x"
  shows "round_val b = x"
  using round_val_mono [OF assms(1,2)] round_val_mono [of b c] assms by simp

lemma round_val_half:
  assumes "0 < v" "0 < round_val v"
  shows "\<bar>round_val v - v\<bar> \<le> round_val v / 2"
proof -
  define E where "E = ulp_exp v"
  have "round_val v = of_int (round_even (v / 2 powi E)) * 2 powi E" by (simp add: round_val_def E_def)
  hence "0 < (of_int (round_even (v / 2 powi E)) :: rat)"
    using assms(2) by (metis zero_less_mult_pos2 zero_less_power_int zero_less_numeral)
  hence "(1 :: rat) \<le> of_int (round_even (v / 2 powi E))" by (metis of_int_0_less_iff int_one_le_iff_zero_less of_int_1_le_iff)
  hence "1 * 2 powi E \<le> of_int (round_even (v / 2 powi E)) * (2 :: rat) powi E"
    by (rule mult_right_mono) simp
  hence "2 powi E \<le> round_val v" using \<open>round_val v = _\<close> by simp
  moreover have "\<bar>round_val v - v\<bar> \<le> 2 powi E / 2"
    using round_val_err [OF assms(1)] by (simp add: E_def two_powi_half)
  ultimately show ?thesis by simp
qed

lemma k_digit_unique:
  assumes "0 < k" "10 ^ (k - 1) \<le> s" "s < 10 ^ k" "10 ^ (k - 1) \<le> s2" "s2 < 10 ^ k"
      and eq: "(of_int s :: rat) * 10 powi (n - int k) = of_int s2 * 10 powi (n2 - int k)"
  shows "n = n2 \<and> s = s2"
proof -
  note b1 = decimal_bounds [OF assms(1,2,3), of n] and b2 = decimal_bounds [OF assms(1,4,5), of n2]
  have "(10 :: rat) powi (n - 1) < 10 powi n2" using b1 b2 eq by linarith
  hence "n - 1 < n2" by (rule powi_less_cancel [rotated]) simp
  moreover have "(10 :: rat) powi (n2 - 1) < 10 powi n" using b1 b2 eq by linarith
  hence "n2 - 1 < n" by (rule powi_less_cancel [rotated]) simp
  ultimately have n: "n = n2" by linarith
  hence "(of_int s :: rat) = of_int s2" using eq by simp
  thus ?thesis using n by simp
qed

subsection \<open>Completeness of the candidates\<close>

lemma rep_ok_value:
  assumes "rep_ok x n k s"
  shows "0 < of_int s * (10 :: rat) powi (n - int k) \<and> round_val (of_int s * 10 powi (n - int k)) = x \<and> x < 2 ^ 1024"
proof -
  define v where "v = of_int s * (10 :: rat) powi (n - int k)"
  have kb: "0 < k" "10 ^ (k - 1) \<le> s" "s < 10 ^ k" and nv: "number_value v = JNum x"
    using assms by (simp_all add: rep_ok_def v_def)
  have "0 < v" using decimal_bounds [OF kb, of n, folded v_def]
    by (meson less_le_trans zero_less_power_int zero_less_numeral)
  moreover have "round_val v = x" using round_pos_pos [OF \<open>0 < v\<close> nv] .
  moreover have "x < 2 ^ 1024" using nv \<open>0 < v\<close> by (simp add: number_value_def round_pos_def split: if_splits)
  ultimately show ?thesis by (simp add: v_def)
qed

lemma rep_okI:
  assumes "0 < k" "10 ^ (k - 1) \<le> s" "s < 10 ^ k" "0 < of_int s * (10 :: rat) powi (n - int k)"
      and "round_val (of_int s * 10 powi (n - int k)) = x" "x < 2 ^ 1024"
  shows "rep_ok x n k s"
  using assms by (simp add: rep_ok_def number_value_round_val)

lemma rep_ok_between:
  assumes x: "0 < x" and ok: "rep_ok x n k s"
      and t: "10 ^ (k - 1) \<le> t" "t < 10 ^ k"
      and w: "min (of_int s * 10 powi (n - int k)) x \<le> of_int t * (10 :: rat) powi (m - int k)"
             "of_int t * (10 :: rat) powi (m - int k) \<le> max (of_int s * 10 powi (n - int k)) x"
  shows "rep_ok x m k t \<and> ((m, t) = (n, s) \<or> rep_dist x k (m, t) < rep_dist x k (n, s))"
proof -
  define v where "v = of_int s * (10 :: rat) powi (n - int k)"
  define u where "u = of_int t * (10 :: rat) powi (m - int k)"
  have k: "0 < k" using ok by (simp add: rep_ok_def)
  have vv: "0 < v" "round_val v = x" "x < 2 ^ 1024" using rep_ok_value [OF ok] by (simp_all add: v_def)
  have xx: "round_val x = x" using round_val_idem [OF vv(1), unfolded vv(2), OF x] .
  have upos: "0 < u" using w vv(1) x by (simp add: u_def v_def min_def split: if_splits)
  have "round_val u = x"
  proof (cases "v \<le> x")
    case True
    thus ?thesis using round_val_between [OF vv(1) _ _ vv(2) xx] w by (simp add: u_def v_def)
  next
    case False
    thus ?thesis using round_val_between [OF x _ _ xx vv(2)] w by (simp add: u_def v_def)
  qed
  hence ok': "rep_ok x m k t" using rep_okI [OF k t, of m x] upos vv(3) by (simp add: u_def)
  have "\<bar>u - x\<bar> \<le> \<bar>v - x\<bar>" using w by (simp add: u_def v_def min_def max_def split: if_splits)
  moreover have "(m, t) = (n, s)" if "\<bar>u - x\<bar> = \<bar>v - x\<bar>"
  proof -
    have "u = v" using that w by (simp add: u_def v_def min_def max_def abs_if split: if_splits)
    hence "m = n \<and> t = s"
      using k_digit_unique [OF k t, of s m n] ok by (simp add: rep_ok_def u_def v_def)
    thus ?thesis by simp
  qed
  ultimately show ?thesis using ok' by (auto simp: rep_dist_def u_def v_def)
qed

lemma lead_scale:
  assumes x: "0 < x" and k: "0 < k"
  defines "d \<equiv> floor_log_rat 10 x"
  defines "y \<equiv> x * 10 powi (int k - (d + 1))"
  shows "10 ^ (k - 1) \<le> y \<and> y < 10 ^ k \<and> y * 10 powi (d + 1 - int k) = x"
proof -
  have db: "10 powi d \<le> x" "x < 10 powi (d + 1)"
    using floor_log_rat_bounds [of 10 x] x by (simp_all add: d_def)
  define P where "P = (10 :: rat) powi (d + 1 - int k)"
  have xy: "y * P = x" by (simp add: y_def P_def mult.assoc power_int_add [symmetric])
  have "(10 :: rat) ^ (k - 1) * P = 10 powi d"
    using k by (simp add: P_def power_int_add [symmetric] flip: power_int_of_nat)
  hence "10 ^ (k - 1) * P \<le> y * P" using db(1) xy by simp
  hence "10 ^ (k - 1) \<le> y" by (simp add: P_def)
  moreover have "(10 :: rat) ^ k * P = 10 powi (d + 1)"
    by (simp add: P_def power_int_add [symmetric] flip: power_int_of_nat)
  hence "y * P < 10 ^ k * P" using db(2) xy by simp
  hence "y < 10 ^ k" by (simp add: P_def)
  ultimately show ?thesis using xy by (simp add: P_def)
qed

lemma candidates_below:
  assumes x: "0 < x" and ok: "rep_ok x n k s" and vx: "of_int s * 10 powi (n - int k) \<le> x"
  shows "\<exists>c \<in> set (digit_candidates x k). (case c of (m, t) \<Rightarrow> rep_ok x m k t) \<and> (c = (n, s) \<or> rep_dist x k c < rep_dist x k (n, s))"
proof -
  define v where "v = of_int s * (10 :: rat) powi (n - int k)"
  have kb: "0 < k" "10 ^ (k - 1) \<le> s" "s < 10 ^ k" using ok by (simp_all add: rep_ok_def)
  note vb = decimal_bounds [OF kb, of n, folded v_def]
  define d where "d = floor_log_rat 10 x"
  define y where "y = x * 10 powi (int k - (d + 1))"
  define P where "P = (10 :: rat) powi (d + 1 - int k)"
  have yb: "10 ^ (k - 1) \<le> y" "y < 10 ^ k" "y * P = x"
    using lead_scale [OF x kb(1)] by (simp_all add: y_def d_def P_def)
  have P: "0 < P" by (simp add: P_def)
  have tb: "10 ^ (k - 1) \<le> \<lfloor>y\<rfloor>" "\<lfloor>y\<rfloor> < 10 ^ k"
    using yb by (simp_all add: le_floor_iff floor_less_iff)
  have "of_int \<lfloor>y\<rfloor> * P \<le> y * P" using P by (intro mult_right_mono) simp_all
  hence wx: "of_int \<lfloor>y\<rfloor> * P \<le> x" using yb(3) by simp
  have "x < 10 powi (d + 1)" using floor_log_rat_bounds [of 10 x] x by (simp add: d_def)
  hence "(10 :: rat) powi (n - 1) < 10 powi (d + 1)" using vb vx by (simp add: v_def)
  hence "n - 1 < d + 1" by (rule powi_less_cancel [rotated]) simp
  hence "n = d + 1 \<or> n \<le> d" by linarith
  hence vw: "v \<le> of_int \<lfloor>y\<rfloor> * P"
  proof
    assume n: "n = d + 1"
    have "of_int s * P \<le> y * P" using vx yb(3) by (simp add: n P_def)
    hence "s \<le> \<lfloor>y\<rfloor>" using P by (simp add: mult_le_cancel_right_pos le_floor_iff)
    thus ?thesis using P by (simp add: v_def n P_def)
  next
    assume "n \<le> d"
    hence "(10 :: rat) powi n \<le> 10 powi d" by (intro power_int_increasing) simp_all
    moreover have "10 powi d \<le> of_int \<lfloor>y\<rfloor> * P"
      using decimal_bounds [OF kb(1) tb, of "d + 1"] by (simp add: P_def)
    ultimately show ?thesis using vb by linarith
  qed
  have mem: "(d + 1, \<lfloor>y\<rfloor>) \<in> set (digit_candidates x k)"
    by (simp add: digit_candidates_def d_def y_def Let_def)
  have "rep_ok x (d + 1) k \<lfloor>y\<rfloor> \<and> ((d + 1, \<lfloor>y\<rfloor>) = (n, s) \<or> rep_dist x k (d + 1, \<lfloor>y\<rfloor>) < rep_dist x k (n, s))"
    using rep_ok_between [OF x ok tb, of "d + 1"] vw wx vx by (simp add: v_def P_def)
  thus ?thesis using mem by (intro bexI [where x = "(d + 1, \<lfloor>y\<rfloor>)"]) simp_all
qed

lemma candidates_above:
  assumes x: "0 < x" and ok: "rep_ok x n k s" and vx: "x < of_int s * 10 powi (n - int k)"
  shows "\<exists>c \<in> set (digit_candidates x k). (case c of (m, t) \<Rightarrow> rep_ok x m k t) \<and> (c = (n, s) \<or> rep_dist x k c < rep_dist x k (n, s))"
proof -
  define v where "v = of_int s * (10 :: rat) powi (n - int k)"
  have kb: "0 < k" "10 ^ (k - 1) \<le> s" "s < 10 ^ k" using ok by (simp_all add: rep_ok_def)
  note vb = decimal_bounds [OF kb, of n, folded v_def]
  define d where "d = floor_log_rat 10 x"
  define y where "y = x * 10 powi (int k - (d + 1))"
  define P where "P = (10 :: rat) powi (d + 1 - int k)"
  have yb: "10 ^ (k - 1) \<le> y" "y < 10 ^ k" "y * P = x"
    using lead_scale [OF x kb(1)] by (simp_all add: y_def d_def P_def)
  have P: "0 < P" by (simp add: P_def)
  have db: "10 powi d \<le> x" "x < 10 powi (d + 1)"
    using floor_log_rat_bounds [of 10 x] x by (simp_all add: d_def)
  hence "(10 :: rat) powi d < 10 powi n" using vb vx by (simp add: v_def)
  hence "d < n" by (rule powi_less_cancel [rotated]) simp
  hence nd: "n = d + 1 \<or> d + 2 \<le> n" by linarith
  have "n = d + 1 \<Longrightarrow> \<lceil>y\<rceil> \<le> s"
  proof -
    assume n: "n = d + 1"
    have "y * P < of_int s * P" using vx yb(3) by (simp add: n P_def)
    thus ?thesis using P by (simp add: mult_less_cancel_right_pos ceiling_le_iff)
  qed
  have far: "10 powi (d + 1) \<le> v" if "d + 2 \<le> n"
  proof -
    have "(10 :: rat) powi (d + 1) \<le> 10 powi (n - 1)" using that by (intro power_int_increasing) simp_all
    thus ?thesis using vb by linarith
  qed
  have clo: "10 ^ (k - 1) \<le> \<lceil>y\<rceil>" using yb(1) by (simp add: le_ceiling_iff)
  have "y * P \<le> of_int \<lceil>y\<rceil> * P" using P by (intro mult_right_mono) simp_all
  hence xw: "x \<le> of_int \<lceil>y\<rceil> * P" using yb(3) by simp
  show ?thesis
  proof (cases "\<lceil>y\<rceil> < 10 ^ k")
    case True
    have "of_int \<lceil>y\<rceil> * P < 10 powi (d + 1)"
      using decimal_bounds [OF kb(1) clo True, of "d + 1"] by (simp add: P_def)
    hence wv: "of_int \<lceil>y\<rceil> * P \<le> v"
      using nd far \<open>n = d + 1 \<Longrightarrow> _\<close> P by (auto simp: v_def P_def)
    have mem: "(d + 1, \<lceil>y\<rceil>) \<in> set (digit_candidates x k)"
      by (simp add: digit_candidates_def d_def y_def Let_def)
    have "rep_ok x (d + 1) k \<lceil>y\<rceil> \<and> ((d + 1, \<lceil>y\<rceil>) = (n, s) \<or> rep_dist x k (d + 1, \<lceil>y\<rceil>) < rep_dist x k (n, s))"
      using rep_ok_between [OF x ok clo True, of "d + 1"] wv xw vx by (simp add: v_def P_def)
    thus ?thesis using mem by (intro bexI [where x = "(d + 1, \<lceil>y\<rceil>)"]) simp_all
  next
    case False
    have "\<lceil>y\<rceil> \<le> 10 ^ k" using yb(2) by (simp add: ceiling_le_iff)
    hence top: "\<lceil>y\<rceil> = 10 ^ k" using False by simp
    hence n: "d + 2 \<le> n" using nd \<open>n = d + 1 \<Longrightarrow> _\<close> kb(3) by auto
    define y' where "y' = x * 10 powi (int k - (d + 2))"
    have yy: "y = y' * 10" by (simp add: y_def y'_def power_int_diff power_int_add field_simps)
    have "(10 :: rat) ^ k = 10 ^ (k - 1) * 10" using kb(1) by (cases k) simp_all
    hence c': "\<lceil>y'\<rceil> = 10 ^ (k - 1)" using top yy by (simp add: ceiling_eq_iff)
    have w: "of_int \<lceil>y'\<rceil> * 10 powi (d + 2 - int k) = (10 :: rat) powi (d + 1)"
      using kb(1) by (simp add: c' power_int_add [symmetric] add.commute flip: power_int_of_nat)
    have mem: "(d + 2, \<lceil>y'\<rceil>) \<in> set (digit_candidates x k)"
      by (simp add: digit_candidates_def d_def y'_def Let_def)
    have tb: "10 ^ (k - 1) \<le> \<lceil>y'\<rceil>" "\<lceil>y'\<rceil> < 10 ^ k" using c' kb(1) by simp_all
    have "rep_ok x (d + 2) k \<lceil>y'\<rceil> \<and> ((d + 2, \<lceil>y'\<rceil>) = (n, s) \<or> rep_dist x k (d + 2, \<lceil>y'\<rceil>) < rep_dist x k (n, s))"
      using rep_ok_between [OF x ok tb, of "d + 2"] w far [OF n] db(2) vx by (simp add: v_def)
    thus ?thesis using mem by (intro bexI [where x = "(d + 2, \<lceil>y'\<rceil>)"]) simp_all
  qed
qed

subsection \<open>The search implements step 5\<close>

lemma closer_rep_refl: "closer_rep x k c c"
  by (simp add: closer_rep_def)

lemma closer_rep_trans: "closer_rep x k a b \<Longrightarrow> closer_rep x k b c \<Longrightarrow> closer_rep x k a c"
  by (auto simp: closer_rep_def)

lemma closer_rep_lt: "closer_rep x k a b \<Longrightarrow> rep_dist x k b < rep_dist x k c \<Longrightarrow> closer_rep x k a c"
  by (auto simp: closer_rep_def)

lemma prefer_rep_closer:
  "closer_rep x k (prefer_rep x k c a) c \<and> closer_rep x k (prefer_rep x k c a) a"
  by (auto simp: prefer_rep_def closer_rep_def)

lemma prefer_rep_mem: "prefer_rep x k c a \<in> {c, a}"
  by (simp add: prefer_rep_def)

lemma foldl_prefer_rep_best:
  "foldl (prefer_rep x k) c cs \<in> set (c # cs) \<and> (\<forall>c' \<in> set (c # cs). closer_rep x k (foldl (prefer_rep x k) c cs) c')"
proof (induction cs arbitrary: c)
  case Nil
  show ?case by (simp add: closer_rep_refl)
next
  case (Cons a cs)
  define r where "r = foldl (prefer_rep x k) (prefer_rep x k c a) cs"
  have IH: "r \<in> set (prefer_rep x k c a # cs)" "\<forall>c' \<in> set (prefer_rep x k c a # cs). closer_rep x k r c'"
    using Cons [of "prefer_rep x k c a"] by (simp_all add: r_def)
  have "closer_rep x k r c" "closer_rep x k r a"
    using IH(2) prefer_rep_closer [of x k c a] by (meson closer_rep_trans list.set_intros(1))+
  moreover have "r \<in> set (c # a # cs)" using IH(1) prefer_rep_mem [of x k c a] by auto
  ultimately show ?case using IH(2) by (simp add: r_def)
qed

lemma candidates_complete:
  assumes "0 < x" "rep_ok x n k s"
  shows "\<exists>c \<in> set (digit_candidates x k). (case c of (m, t) \<Rightarrow> rep_ok x m k t) \<and> (c = (n, s) \<or> rep_dist x k c < rep_dist x k (n, s))"
proof (cases "of_int s * 10 powi (n - int k) \<le> x")
  case True
  thus ?thesis by (rule candidates_below [OF assms])
next
  case False
  thus ?thesis by (intro candidates_above [OF assms]) simp
qed

lemma search_none:
  assumes "0 < x" "filter (\<lambda>(n, s). rep_ok x n k s) (digit_candidates x k) = []"
  shows "\<not> rep_ok x n k s"
  using candidates_complete [OF assms(1), of n k s] assms(2) by (auto simp: filter_empty_conv)

lemma search_found:
  assumes x: "0 < x" and F: "filter (\<lambda>(n, s). rep_ok x n k s) (digit_candidates x k) = c # cs"
  defines "b \<equiv> foldl (prefer_rep x k) c cs"
  shows "rep_ok x (fst b) k (snd b) \<and> (\<forall>n' s'. rep_ok x n' k s' \<longrightarrow> closer_rep x k b (n', s'))"
proof -
  note best = foldl_prefer_rep_best [of x k c cs, folded b_def]
  have valid: "c' \<in> set (c # cs) \<longleftrightarrow> c' \<in> set (digit_candidates x k) \<and> (case c' of (m, t) \<Rightarrow> rep_ok x m k t)" for c'
    unfolding F [symmetric] by simp
  have "closer_rep x k b (n', s')" if ok': "rep_ok x n' k s'" for n' s'
  proof -
    obtain c' where c': "c' \<in> set (digit_candidates x k)" "case c' of (m, t) \<Rightarrow> rep_ok x m k t"
      and cl: "c' = (n', s') \<or> rep_dist x k c' < rep_dist x k (n', s')"
      using candidates_complete [OF x ok'] by blast
    have "closer_rep x k b c'" using best valid [of c'] c' by blast
    thus ?thesis using cl closer_rep_lt by blast
  qed
  moreover have "rep_ok x (fst b) k (snd b)" using best valid [of b] by (simp add: case_prod_beta)
  ultimately show ?thesis by blast
qed

text \<open>
  Soundness of the search started at \<open>k0\<close>, by induction over the fixed point of the
  \<open>partial_function\<close>: a result has no valid representation with fewer digits (from
  \<open>k0\<close> on) and is the closest, ties to even, among those with its number of digits.
\<close>

lemma shortest_digits_sound:
  assumes x: "0 < x" and sd: "shortest_digits x k0 = Some (n, k, s)"
  shows "k0 \<le> k \<and> rep_ok x n k s \<and> (\<forall>k' n' s'. k0 \<le> k' \<and> k' < k \<longrightarrow> \<not> rep_ok x n' k' s')
         \<and> (\<forall>n' s'. rep_ok x n' k s' \<longrightarrow> closer_rep x k (n, s) (n', s'))"
proof -
  have "(case (x, k0) of (x, k0) \<Rightarrow> shortest_digits x k0) = Some (n, k, s)" using sd by simp
  hence "(case (x, k0) of (x, k0) \<Rightarrow> \<lambda>r. 0 < x \<longrightarrow> (case r of (n, k, s) \<Rightarrow>
           k0 \<le> k \<and> rep_ok x n k s \<and> (\<forall>k' n' s'. k0 \<le> k' \<and> k' < k \<longrightarrow> \<not> rep_ok x n' k' s')
           \<and> (\<forall>n' s'. rep_ok x n' k s' \<longrightarrow> closer_rep x k (n, s) (n', s')))) (n, k, s)"
  proof (rule shortest_digits.raw_induct [rotated])
    fix f x k0 r
    assume IH: "\<And>x k0 r. f x k0 = Some r \<Longrightarrow> 0 < x \<longrightarrow> (case r of (n, k, s) \<Rightarrow>
           k0 \<le> k \<and> rep_ok x n k s \<and> (\<forall>k' n' s'. k0 \<le> k' \<and> k' < k \<longrightarrow> \<not> rep_ok x n' k' s')
           \<and> (\<forall>n' s'. rep_ok x n' k s' \<longrightarrow> closer_rep x k (n, s) (n', s')))"
      and body: "(case filter (\<lambda>(n, s). rep_ok x n k0 s) (digit_candidates x k0) of
                   [] \<Rightarrow> f x (Suc k0)
                 | c # cs \<Rightarrow> (case foldl (prefer_rep x k0) c cs of (n, s) \<Rightarrow> Some (n, k0, s))) = Some r"
    obtain n k s where r: "r = (n, k, s)" by (cases r) blast
    show "0 < x \<longrightarrow> (case r of (n, k, s) \<Rightarrow>
           k0 \<le> k \<and> rep_ok x n k s \<and> (\<forall>k' n' s'. k0 \<le> k' \<and> k' < k \<longrightarrow> \<not> rep_ok x n' k' s')
           \<and> (\<forall>n' s'. rep_ok x n' k s' \<longrightarrow> closer_rep x k (n, s) (n', s')))"
    proof
      assume x: "0 < x"
      show "case r of (n, k, s) \<Rightarrow>
           k0 \<le> k \<and> rep_ok x n k s \<and> (\<forall>k' n' s'. k0 \<le> k' \<and> k' < k \<longrightarrow> \<not> rep_ok x n' k' s')
           \<and> (\<forall>n' s'. rep_ok x n' k s' \<longrightarrow> closer_rep x k (n, s) (n', s'))"
      proof (cases "filter (\<lambda>(n, s). rep_ok x n k0 s) (digit_candidates x k0)")
      case Nil
      have "f x (Suc k0) = Some r" using body Nil by simp
      hence H: "Suc k0 \<le> k \<and> rep_ok x n k s \<and> (\<forall>k' n' s'. Suc k0 \<le> k' \<and> k' < k \<longrightarrow> \<not> rep_ok x n' k' s')
         \<and> (\<forall>n' s'. rep_ok x n' k s' \<longrightarrow> closer_rep x k (n, s) (n', s'))"
        using IH [of x "Suc k0" r] x r by simp
      have "\<not> rep_ok x n' k' s'" if "k0 \<le> k'" "k' < k" for k' n' s'
      proof (cases "k' = k0")
        case True
        thus ?thesis using search_none [OF x Nil] by simp
      next
        case False
        thus ?thesis using H that by auto
      qed
      thus ?thesis unfolding r prod.case using H by auto
    next
      case (Cons c cs)
      obtain bn bs where b: "foldl (prefer_rep x k0) c cs = (bn, bs)" by (cases "foldl (prefer_rep x k0) c cs") blast
      have e: "n = bn" "k = k0" "s = bs" using r body Cons b by simp_all
      show ?thesis unfolding r prod.case e using search_found [OF x Cons] b by auto
      qed
    qed
  qed
  thus ?thesis using x by simp
qed

lemma pos_toString_es_digits:
  assumes "0 < x" "round_val x = x" "x < 2 ^ 1024"
  shows "\<exists>n k s. es_digits x n k s \<and> pos_toString x = Some (format_decimal n k s)"
proof -
  obtain n k s where sd: "shortest_digits x 1 = Some (n, k, s)"
    using pos_toString_double [OF assms] by (auto simp: pos_toString_def)
  note S = shortest_digits_sound [OF assms(1) sd]
  have "\<not> rep_ok x n' k' s'" if "k' < k" for k' n' s'
  proof (cases "k' = 0")
    case True
    thus ?thesis by (simp add: rep_ok_def)
  next
    case False
    hence "1 \<le> k'" by simp
    thus ?thesis using S that by blast
  qed
  hence "es_digits x n k s" using S by (simp add: es_digits_def)
  thus ?thesis using sd by (auto simp: pos_toString_def)
qed

end
