(* ===== verification/EthString.thy ===== *)
theory EthString
  imports ToString Display
begin

text \<open>
  The UI's \<open>microEthToEthString\<close> (\<open>src/ui/src/components/StakingApp.tsx\<close>,
  lines 21 to 23), \<open>(Number(microEth) / 1_000_000).toString()\<close>, over the JavaScript
  numbers of \<open>JsNumber\<close>, and the page the component renders with it: the stake card's
  line \<open>Clear: ... ETH\<close> (line 305). The results: the function returns for every
  bigint; below \<open>10^15\<close> microETH in absolute value it prints exactly what the exact
  \<open>formatCcoinUnits\<close> prints; beyond \<open>2^53\<close> two stakes can print alike; and
  on a page consistent with the chain, ethers' \<open>parseEther\<close> of the stake line gives
  the user's stake in wei.
\<close>

definition bigint_to_number :: "int \<Rightarrow> jsnum" where
  "bigint_to_number n = number_value (of_int n)"

definition microEthToEthString :: "int \<Rightarrow> string option" where
  "microEthToEthString microEth = js_toString (js_div (bigint_to_number microEth) (JNum 1000000))"

text \<open>
  The page \<open>StakingApp\<close> returns: \<open>render\<close> with the stake card's clear value
  printed by \<open>microEthToEthString\<close> (which always returns, \<open>microEthToEthString_returns\<close>).
\<close>

definition stakingApp_page :: "string option \<Rightarrow> session \<Rightarrow> ui \<Rightarrow> element list" where
  "stakingApp_page zamaError ses u = render (\<lambda>m. the (microEthToEthString m)) zamaError ses u"

subsection \<open>Decimal digits\<close>

lemma digit_char_zero: "digit_char 0 = CHR ''0''"
  unfolding digit_char_def by code_simp

lemma digit_char_nonzero:
  assumes "0 < d" "d < 10"
  shows "digit_char d \<noteq> CHR ''0''"
proof
  assume "digit_char d = CHR ''0''"
  hence "of_char (digit_char d) - 48 = (of_char (digit_char 0) :: nat) - 48"
    by (simp add: digit_char_zero)
  thus False using of_char_digit_char [of d] of_char_digit_char [of 0] assms by simp
qed

lemma dec_digits_big: "10 \<le> n \<Longrightarrow> dec_digits n = dec_digits (n div 10) @ [digit_char (n mod 10)]"
  by (subst dec_digits.simps) simp

lemma dec_digits_small: "n < 10 \<Longrightarrow> dec_digits n = [digit_char n]"
  by (subst dec_digits.simps) simp

lemma last_dec_digits: "last (dec_digits n) = digit_char (n mod 10)"
  by (cases "n < 10") (simp_all add: dec_digits_small dec_digits_big)

lemma dec_digits_bounds:
  "0 < n \<Longrightarrow> 10 ^ (length (dec_digits n) - 1) \<le> n \<and> n < 10 ^ length (dec_digits n)"
proof (induction n rule: dec_digits.induct)
  case (1 n)
  show ?case
  proof (cases "n < 10")
    case True
    thus ?thesis using "1.prems" by (simp add: dec_digits_small)
  next
    case False
    hence "10 ^ (length (dec_digits (n div 10)) - 1) \<le> n div 10 \<and> n div 10 < 10 ^ length (dec_digits (n div 10))"
      using "1.IH" by simp
    moreover obtain L where L: "length (dec_digits (n div 10)) = Suc L"
      by (cases "length (dec_digits (n div 10))") simp_all
    ultimately have "10 ^ L \<le> n div 10" "n div 10 < 10 ^ Suc L" by simp_all
    moreover have "n = 10 * (n div 10) + n mod 10" "n mod 10 < 10" by simp_all
    moreover have "(10 :: nat) ^ Suc L = 10 * 10 ^ L" "(10 :: nat) ^ Suc (Suc L) = 10 * 10 ^ Suc L"
      by simp_all
    ultimately have "10 ^ Suc L \<le> n" "n < 10 ^ Suc (Suc L)" by linarith+
    thus ?thesis using False L by (simp add: dec_digits_big)
  qed
qed

lemma dec_digits_mult_pow10:
  "0 < s \<Longrightarrow> dec_digits (s * 10 ^ t) = dec_digits s @ replicate t CHR ''0''"
proof (induction t)
  case 0 thus ?case by simp
next
  case (Suc t)
  have "10 \<le> s * 10 ^ Suc t" using Suc.prems by (simp add: Suc_le_eq)
  hence "dec_digits (s * 10 ^ Suc t) = dec_digits (s * 10 ^ t) @ [digit_char 0]"
    by (simp add: dec_digits_big)
  thus ?case using Suc by (simp add: digit_char_zero replicate_append_same [symmetric])
qed

lemma dec_digits_split:
  "0 < w \<Longrightarrow> b < 10 ^ Suc j \<Longrightarrow>
   dec_digits (w * 10 ^ Suc j + b) = dec_digits w @ pad_start (Suc j) CHR ''0'' (dec_digits b)"
proof (induction j arbitrary: b)
  case 0
  thus ?case by (simp add: dec_digits_big dec_digits_small pad_start_def)
next
  case (Suc j)
  have big: "10 \<le> w * 10 ^ Suc (Suc j) + b" using Suc.prems(1) by (simp add: trans_le_add1 Suc_le_eq)
  have re: "w * 10 ^ Suc (Suc j) + b = b + (w * 10 ^ Suc j) * 10" by simp
  have eq: "(w * 10 ^ Suc (Suc j) + b) div 10 = w * 10 ^ Suc j + b div 10"
           "(w * 10 ^ Suc (Suc j) + b) mod 10 = b mod 10"
    unfolding re by (simp_all only: div_mult_self1 mod_mult_self1 zero_neq_numeral not_False_eq_True)
  have ih: "dec_digits (w * 10 ^ Suc j + b div 10)
            = dec_digits w @ pad_start (Suc j) CHR ''0'' (dec_digits (b div 10))"
    using Suc.IH [of "b div 10"] Suc.prems by (simp add: less_mult_imp_div_less mult.commute)
  have "pad_start (Suc j) CHR ''0'' (dec_digits (b div 10)) @ [digit_char (b mod 10)]
        = pad_start (Suc (Suc j)) CHR ''0'' (dec_digits b)"
  proof (cases "b < 10")
    case True thus ?thesis
      by (simp add: dec_digits_small pad_start_def digit_char_zero replicate_append_same [symmetric])
  next
    case False
    have "length (dec_digits (b div 10)) \<le> Suc j"
      using length_dec_digits [of "b div 10" j] Suc.prems(2) by (simp add: less_mult_imp_div_less mult.commute)
    thus ?thesis using False by (simp add: dec_digits_big pad_start_def)
  qed
  thus ?case using big eq ih by (simp add: dec_digits_big)
qed

lemma strip_trailing_zeros_zeros:
  "strip_trailing_zeros (xs @ replicate t CHR ''0'') = strip_trailing_zeros xs"
  by (simp add: strip_trailing_zeros_def dropWhile_append)

lemma strip_trailing_zeros_last:
  "xs \<noteq> [] \<Longrightarrow> last xs \<noteq> CHR ''0'' \<Longrightarrow> strip_trailing_zeros xs = xs"
  by (cases xs rule: rev_cases) (simp_all add: strip_trailing_zeros_def)

lemma decimal_normal_form:
  "0 < (m :: nat) \<Longrightarrow> \<exists>s t. 0 < s \<and> \<not> 10 dvd s \<and> m = s * 10 ^ t"
proof (induction m rule: less_induct)
  case (less m)
  show ?case
  proof (cases "10 dvd m")
    case True
    then obtain m' where m: "m = 10 * m'" by blast
    with less.prems have "0 < m'" "m' < m" by simp_all
    with less.IH obtain s t where "0 < s" "\<not> 10 dvd s" "m' = s * 10 ^ t" by blast
    thus ?thesis using m by (intro exI [of _ s] exI [of _ "Suc t"]) simp
  next
    case False
    thus ?thesis using less.prems by (intro exI [of _ m] exI [of _ 0]) simp
  qed
qed

subsection \<open>toString of a multiple of a millionth\<close>

lemma strip_pad_zero: "strip_trailing_zeros (pad_start 6 CHR ''0'' (dec_digits 0)) = []"
proof -
  have "pad_start 6 CHR ''0'' (dec_digits 0) = [] @ replicate 6 CHR ''0''"
    by (simp add: dec_digits_small pad_start_def digit_char_zero numeral_eq_Suc)
  thus ?thesis by (simp only: strip_trailing_zeros_zeros) (simp add: strip_trailing_zeros_def)
qed

lemma format_decimal_micro:
  assumes s: "0 < s" "\<not> 10 dvd s" and m: "m = s * 10 ^ t" "m < 10 ^ 15"
  shows "format_decimal (int (length (dec_digits s)) + int t - 6) (length (dec_digits s)) (int s)
         = formatCcoinUnits (int m)"
proof -
  define S where "S = dec_digits s"
  define k where "k = length S"
  define n where "n = int k + int t - 6"
  have goal: "format_decimal (int (length (dec_digits s)) + int t - 6) (length (dec_digits s)) (int s)
              = format_decimal n k (int s)" by (simp add: n_def k_def S_def)
  have sb: "10 ^ (k - 1) \<le> s" "s < 10 ^ k" and k1: "0 < k"
    using dec_digits_bounds [OF s(1)] by (simp_all add: S_def k_def)
  have m_lo: "10 ^ (k - 1 + t) \<le> m" using sb(1) by (simp add: m(1) power_add)
  hence "10 ^ (k - 1 + t) < (10 :: nat) ^ 15" using m(2) by linarith
  hence kt: "k - 1 + t < 15" by (rule power_less_imp_less_exp [rotated]) simp
  have mS: "dec_digits m = S @ replicate t CHR ''0''"
    using dec_digits_mult_pow10 [OF s(1)] by (simp add: S_def m(1))
  have lastS: "S \<noteq> []" "last S \<noteq> CHR ''0''"
    using last_dec_digits [of s] digit_char_nonzero [of "s mod 10"] s by (auto simp: S_def)
  have fmt: "formatCcoinUnits (int m) =
      (if strip_trailing_zeros (pad_start 6 CHR ''0'' (dec_digits (m mod 1000000))) \<noteq> []
       then dec_digits (m div 1000000) @ ''.'' @ strip_trailing_zeros (pad_start 6 CHR ''0'' (dec_digits (m mod 1000000)))
       else dec_digits (m div 1000000))"
    by (simp add: formatCcoinUnits_def Let_def)
  consider (A) "6 \<le> t" | (B) "t < 6" "7 \<le> k + t" | (C) "k + t \<le> 6" by linarith
  hence "format_decimal n k (int s) = formatCcoinUnits (int m)"
  proof cases
    case A
    have "(10 :: nat) ^ t = 10 ^ (t - 6) * 10 ^ 6"
      using A by (metis le_add_diff_inverse2 power_add)
    hence "m = (s * 10 ^ (t - 6)) * 1000000" by (simp add: m(1))
    hence md: "m mod 1000000 = 0" "m div 1000000 = s * 10 ^ (t - 6)" by simp_all
    have "formatCcoinUnits (int m) = S @ replicate (t - 6) CHR ''0''"
      using fmt md strip_pad_zero dec_digits_mult_pow10 [OF s(1), of "t - 6"] by (simp add: S_def)
    moreover have "int k \<le> n" "n \<le> 21" "nat n - k = t - 6" using A kt by (simp_all add: n_def)
    ultimately show ?thesis by (simp add: format_decimal_int S_def)
  next
    case B
    define w where "w = m div 1000000"
    define r where "r = m mod 1000000"
    have "(10 :: nat) ^ 6 \<le> 10 ^ (k - 1 + t)" using B k1 by (intro power_increasing) simp_all
    hence "10 ^ 6 \<le> m" using m_lo by linarith
    hence w: "0 < w" by (simp add: w_def)
    have P: "length (pad_start 6 CHR ''0'' (dec_digits r)) = 6" using pad_start_facts(1) [of r] by (simp add: r_def)
    have "dec_digits m = dec_digits w @ pad_start 6 CHR ''0'' (dec_digits r)"
      using dec_digits_split [OF w, of r 5] by (simp add: w_def r_def)
    hence WP: "dec_digits w @ pad_start 6 CHR ''0'' (dec_digits r) = S @ replicate t CHR ''0''" using mS by simp
    define nn where "nn = k + t - 6"
    have nn: "nn < k" "0 < nn" using B by (simp_all add: nn_def)
    have lw: "length (dec_digits w) = nn" using arg_cong [OF WP, of length] P by (simp add: nn_def k_def)
    have ns: "nn \<le> length S" using nn by (simp add: k_def)
    have "dec_digits w = take nn (S @ replicate t CHR ''0'')"
      using lw by (simp flip: WP)
    moreover have "pad_start 6 CHR ''0'' (dec_digits r) = drop nn (S @ replicate t CHR ''0'')"
      using lw by (simp flip: WP)
    ultimately have Wd: "dec_digits w = take nn S" "pad_start 6 CHR ''0'' (dec_digits r) = drop nn S @ replicate t CHR ''0''"
      using ns by simp_all
    have "drop nn S \<noteq> []" "last (drop nn S) = last S" using nn by (simp_all add: k_def last_drop)
    hence frac: "strip_trailing_zeros (pad_start 6 CHR ''0'' (dec_digits r)) = drop nn S"
      using lastS by (simp add: Wd strip_trailing_zeros_zeros strip_trailing_zeros_last)
    have "\<not> int k \<le> n" "0 < n" "n \<le> 21" "nat n = nn" using B kt by (simp_all add: n_def nn_def)
    hence "format_decimal n k (int s) = take nn S @ ''.'' @ drop nn S"
      by (simp add: format_decimal_frac S_def)
    thus ?thesis using fmt frac Wd \<open>drop nn S \<noteq> []\<close> by (simp add: w_def r_def)
  next
    case C
    have "m < 10 ^ (k + t)" using sb(2) by (simp add: m(1) power_add)
    also have "\<dots> \<le> 10 ^ 6" using C by (intro power_increasing) simp_all
    finally have md: "m div 1000000 = 0" "m mod 1000000 = m" by simp_all
    have "pad_start 6 CHR ''0'' (dec_digits m) = (replicate (6 - k - t) CHR ''0'' @ S) @ replicate t CHR ''0''"
      using mS by (simp add: pad_start_def k_def)
    hence frac: "strip_trailing_zeros (pad_start 6 CHR ''0'' (dec_digits m)) = replicate (6 - k - t) CHR ''0'' @ S"
      using lastS by (simp only: strip_trailing_zeros_zeros) (simp add: strip_trailing_zeros_last)
    have "\<not> int k \<le> n" "\<not> 0 < n" "- 6 < n" "nat (- n) = 6 - k - t" using C k1 by (simp_all add: n_def)
    hence "format_decimal n k (int s) = ''0.'' @ replicate (6 - k - t) CHR ''0'' @ S"
      by (simp add: format_decimal_small S_def)
    thus ?thesis using fmt frac md lastS(1) by (simp add: dec_digits_small digit_char_zero)
  qed
  thus ?thesis using goal by simp
qed

lemma micro_quotient:
  assumes m: "0 < m" "m < 10 ^ 15"
  defines "x \<equiv> round_val (of_nat m / 1000000)"
  shows "number_value (of_nat m / 1000000) = JNum x \<and> 0 < x \<and> pos_toString x = Some (formatCcoinUnits (int m))"
proof -
  obtain s t where st: "0 < s" "\<not> 10 dvd s" "m = s * 10 ^ t"
    using decimal_normal_form [OF m(1)] by blast
  define k0 where "k0 = length (dec_digits s)"
  define n0 where "n0 = int k0 + int t - 6"
  define a where "a = (of_nat m :: rat) / 1000000"
  have sb: "10 ^ (k0 - 1) \<le> s" "s < 10 ^ k0" and k1: "0 < k0"
    using dec_digits_bounds [OF st(1)] by (simp_all add: k0_def)
  have "s \<le> m" using st(1,3) by simp
  hence "(10 :: nat) ^ (k0 - 1) < 10 ^ 15" using sb(1) m(2) by linarith
  hence "k0 - 1 < 15" by (rule power_less_imp_less_exp [rotated]) simp
  hence k15: "k0 \<le> 15" by linarith
  have sb': "10 ^ (k0 - 1) \<le> int s" "int s < 10 ^ k0" "\<not> 10 dvd int s"
    using sb st(2) by (simp_all add: of_nat_le_iff [symmetric] of_nat_less_iff [symmetric]) presburger
  have "(10 :: rat) powi (int t - 6) = 10 ^ t / 10 ^ 6" by (simp add: power_int_diff)
  hence a: "a = of_int (int s) * 10 powi (n0 - int k0)" by (simp add: a_def n0_def st(3))
  have "(1 :: rat) \<le> of_nat m" using m(1) by simp
  hence "1 / 1000000 \<le> a" by (simp add: a_def divide_right_mono)
  hence na: "2 powi (- 1000) \<le> a" by (rule order_trans [rotated]) (simp add: power_int_minus_divide)
  have "a < 10 ^ 15 / 1000000" using m(2) by (simp add: a_def divide_strict_right_mono)
  hence ha: "a \<le> 2 powi 1000" by simp
  have na': "2 powi (- 1022) \<le> a"
    using na by (rule order_trans [rotated]) (simp add: power_int_minus_divide)
  note cl = round_val_close [OF na']
  have apos: "0 < a" using a_def m(1) by simp
  have "round_val a < 2 ^ 1024" using cl ha by simp
  hence nv: "number_value a = JNum (round_val a)" by (rule number_value_round_val [OF apos])
  have xpos: "0 < round_val a" using cl apos by simp
  have sd: "shortest_digits (round_val a) 1 = Some (n0, k0, int s)"
    using shortest_digits_exact [OF a k1 k15 sb' na ha] .
  have "pos_toString (round_val a) = Some (format_decimal n0 k0 (int s))"
    using sd by (simp add: pos_toString_def)
  also have "format_decimal n0 k0 (int s) = formatCcoinUnits (int m)"
    using format_decimal_micro [OF st m(2)] by (simp add: n0_def k0_def)
  finally have "pos_toString (round_val a) = Some (formatCcoinUnits (int m))" .
  thus ?thesis using nv xpos unfolding x_def a_def [symmetric] by simp
qed

lemma formatCcoinUnits_neg: "0 < m \<Longrightarrow> formatCcoinUnits (- int m) = CHR ''-'' # formatCcoinUnits (int m)"
  by (simp add: formatCcoinUnits_def Let_def)

text \<open>Whole amounts print without a fraction: ten cCoin are \<open>10\<close>, not \<open>10.000000\<close>.\<close>

lemma formatCcoinUnits_whole: "formatCcoinUnits (int n * 1000000) = dec_digits n"
proof -
  have "nat \<bar>int n * 1000000\<bar> = n * 1000000" by (simp add: nat_mult_distrib)
  thus ?thesis using strip_pad_zero by (simp add: formatCcoinUnits_def Let_def)
qed

lemma formatCcoinUnits_zero: "formatCcoinUnits 0 = ''0''"
  using formatCcoinUnits_whole [of 0] by (simp add: dec_digits_small digit_char_zero)

lemma strip_pad_nonzero:
  assumes "r \<noteq> 0"
  shows "strip_trailing_zeros (pad_start 6 CHR ''0'' (dec_digits r)) \<noteq> []"
proof
  let ?s = "pad_start 6 CHR ''0'' (dec_digits r)"
  assume "strip_trailing_zeros ?s = []"
  hence "?s = replicate (length ?s) CHR ''0''" using strip_trailing_zeros_app [of ?s] by simp
  hence "dec_val ?s = 0" by (metis dec_val_replicate_zero)
  thus False using assms by (simp add: pad_start_def)
qed

lemma dec_digits_no_point: "CHR ''.'' \<notin> set (dec_digits n)"
  using dec_digits_all_digits [of n] by (auto simp: list_all_iff)

text \<open>
  C12: A cCoin amount is printed with a decimal point exactly when it is not a whole
  number of cCoin: \<open>replace(/0+$/, '')\<close> strips the zeros of the six-digit fraction and
  an empty fraction drops the point, so spec section 8's 10,000,000 units print as
  \<open>10\<close>, not \<open>10.000000\<close>, while every other amount shows its fraction.
\<close>

theorem formatCcoinUnits_point_iff:
  "CHR ''.'' \<in> set (formatCcoinUnits u) \<longleftrightarrow> u mod 1000000 \<noteq> 0"
proof -
  define r where "r = nat \<bar>u\<bar> mod 1000000"
  have "r = 0 \<longleftrightarrow> (1000000 :: int) dvd \<bar>u\<bar>"
    by (simp add: r_def nat_dvd_iff [symmetric] dvd_eq_mod_eq_0 [symmetric])
  also have "\<dots> \<longleftrightarrow> 1000000 dvd u" by (rule dvd_abs_iff)
  also have "\<dots> \<longleftrightarrow> u mod 1000000 = 0" by (rule dvd_eq_mod_eq_0)
  finally have r0: "r = 0 \<longleftrightarrow> u mod 1000000 = 0" .
  show ?thesis
  proof (cases "r = 0")
    case True
    hence "formatCcoinUnits u = (if u < 0 then ''-'' else '''') @ dec_digits (nat \<bar>u\<bar> div 1000000)"
      using strip_pad_zero by (simp add: formatCcoinUnits_def Let_def r_def)
    thus ?thesis using True r0 dec_digits_no_point by auto
  next
    case False
    hence "strip_trailing_zeros (pad_start 6 CHR ''0'' (dec_digits r)) \<noteq> []" by (rule strip_pad_nonzero)
    hence "CHR ''.'' \<in> set (formatCcoinUnits u)" by (simp add: formatCcoinUnits_def Let_def r_def)
    thus ?thesis using False r0 by simp
  qed
qed

lemma microEthToEthString_eq_formatCcoinUnits:
  assumes "\<bar>u\<bar> < 10 ^ 15"
  shows "microEthToEthString u = Some (formatCcoinUnits u)"
proof -
  consider "u = 0" | "0 < u" | "u < 0" by linarith
  thus ?thesis
  proof cases
    case 1
    thus ?thesis by (simp add: microEthToEthString_def bigint_to_number_def number_value_def js_div_num
        js_toString_def formatCcoinUnits_zero)
  next
    case 2
    define m where "m = nat u"
    have m: "0 < m" "m < 10 ^ 15" "u = int m" using 2 assms by (simp_all add: m_def)
    have "bigint_to_number u = JNum (of_nat m)"
      using number_value_small_int [of "int m"] m by (simp add: bigint_to_number_def)
    thus ?thesis using micro_quotient [OF m(1,2)] m(3)
      by (simp add: microEthToEthString_def js_div_num js_toString_def)
  next
    case 3
    define m where "m = nat (- u)"
    have m: "0 < m" "m < 10 ^ 15" "u = - int m" using 3 assms by (simp_all add: m_def)
    define x where "x = round_val (of_nat m / 1000000)"
    have x: "number_value (of_nat m / 1000000) = JNum x" "0 < x"
        "pos_toString x = Some (formatCcoinUnits (int m))"
      using micro_quotient [OF m(1,2)] by (simp_all add: x_def)
    have "bigint_to_number u = JNum (- of_nat m)"
      using number_value_small_int [of "int m"] m
      by (simp add: bigint_to_number_def number_value_neg js_neg_def)
    hence "microEthToEthString u = js_toString (JNum (- x))"
      using x(1) m(1) by (simp add: microEthToEthString_def js_div_num number_value_neg js_neg_def)
    also have "\<dots> = Some (CHR ''-'' # formatCcoinUnits (int m))"
      using x(2,3) by (simp add: js_toString_def)
    also have "\<dots> = Some (formatCcoinUnits u)"
      using m(1,3) by (simp add: formatCcoinUnits_neg)
    finally show ?thesis .
  qed
qed

lemma rv_example:
  "round_val (9000000000000001 / 1000000) = round_val (9000000000000002 / 1000000)"
proof -
  have "floor_log_rat 2 (9000000000000001 / 1000000) = 33" "floor_log_rat 2 (9000000000000002 / 1000000) = 33"
    by (rule floor_log_rat_eqI; simp)+
  hence u: "ulp_exp (9000000000000001 / 1000000) = - 19" "ulp_exp (9000000000000002 / 1000000) = - 19"
    by (simp_all add: ulp_exp_def)
  have "round_even ((9000000000000001 / 1000000) / 2 powi (- 19)) = 4718592000000001"
       "round_even ((9000000000000002 / 1000000) / 2 powi (- 19)) = 4718592000000001"
    by (rule round_even_eqI; simp)+
  thus ?thesis unfolding round_val_def u by simp
qed

subsection \<open>Properties\<close>

text \<open>
  C10: Below 10^15 microETH in absolute value (10^9 ETH, more than all ETH in
  existence) the UI's IEEE-754 path \<open>(Number(microEth) / 1_000_000).toString()\<close>
  returns and prints exactly the decimal the exact bigint formatter prints: the
  integer part, and the fraction without trailing zeros, for negative, zero and
  positive amounts.
\<close>

theorem microEthToEthString_exact:
  assumes "\<bar>u\<bar> < 10 ^ 15"
  shows "microEthToEthString u = Some (formatCcoinUnits u)"
  using assms by (rule microEthToEthString_eq_formatCcoinUnits)

text \<open>
  C11: On a page consistent with the chain, for a user whose stake is below 10^15
  microETH, the stake card shows a line 'Clear: s ETH' whose text ethers'
  parseEther reads back as exactly the user's stake in wei, 10^12 times the
  plaintext of the stake handle the contract stores in microETH.
\<close>

theorem rendered_stake_reads_back:
  assumes cons: "ui_consistent cfg ses u w" and sync: "config_synced cfg w"
    and ses: "ses_address ses = Some a" and dec: "decryptedStakeMicroEth u \<noteq> None"
    and small: "unat (a_stake (view w a)) < 10 ^ 15"
  shows "\<exists>s. Line (''Clear: '' @ s @ '' ETH'') \<in> set (stakingApp_page zerr ses u)
    \<and> parseEther s = Inr (int (unat (a_stake (view w a))) * 10 ^ 12)"
proof -
  obtain x where x: "decryptedStakeMicroEth u = Some x" using dec by blast
  have "stakeCipher u = Some (getEncryptedStakedMicroEth w a)"
    using cons read_query_synced [OF sync ses] by (simp add: ui_consistent_def)
  hence xv: "x = int (unat (a_stake (view w a)))"
    using cons x by (simp add: ui_consistent_def shown_handle_def view_def getEncryptedStakedMicroEth_def)
  have "int (unat (a_stake (view w a))) < int (10 ^ 15)" using small by (simp only: of_nat_less_iff)
  hence "microEthToEthString x = Some (formatCcoinUnits x)"
    using xv by (intro microEthToEthString_eq_formatCcoinUnits) simp
  hence "Line (''Clear: '' @ formatCcoinUnits x @ '' ETH'') \<in> set (stakingApp_page zerr ses u)"
    using x by (simp add: stakingApp_page_def render_def)
  moreover have "parseEther (formatCcoinUnits x) = Inr (x * 10 ^ 12)"
    using parse_units_formatCcoinUnits_scaled [of 12 x] by (simp add: parseEther_def)
  ultimately show ?thesis using xv by blast
qed

text \<open>
  The conversion is total: the digit search of Number::toString finds a representation
  for every double the conversion and the division produce, so the page's use of
  \<open>the\<close> in \<open>stakingApp_page\<close> never meets \<open>None\<close>.
\<close>

lemma microEthToEthString_returns: "microEthToEthString u \<noteq> None"
proof (cases "bigint_to_number u")
  case (JNum x)
  thus ?thesis using js_toString_number_value [of "x / 1000000"]
    by (simp add: microEthToEthString_def js_div_num)
next
  case JNaN
  thus ?thesis by (auto simp: bigint_to_number_def number_value_def round_pos_def js_neg_def split: if_splits)
qed (simp_all add: microEthToEthString_def js_div_def js_toString_def)

text \<open>
  Past about \<open>2^33 * 10^6\<close> microETH the quotient by \<open>1_000_000\<close> has a unit in the last
  place above \<open>10^-6\<close>, so the division rounds distinct stakes to one double: the stakes
  9000000000000001 and 9000000000000002 microETH, both below \<open>2^53\<close> and so converted
  exactly by \<open>Number\<close>, render the same ETH string, while formatCcoinUnits prints them
  differently.
\<close>

lemma microEthToEthString_precision_loss:
  "microEthToEthString 9000000000000001 = microEthToEthString 9000000000000002
   \<and> formatCcoinUnits 9000000000000001 \<noteq> formatCcoinUnits 9000000000000002"
proof
  have "bigint_to_number 9000000000000001 = JNum 9000000000000001"
       "bigint_to_number 9000000000000002 = JNum 9000000000000002"
    using number_value_small_int [of 9000000000000001] number_value_small_int [of 9000000000000002]
    by (simp_all add: bigint_to_number_def)
  thus "microEthToEthString 9000000000000001 = microEthToEthString 9000000000000002"
    using rv_example by (simp add: microEthToEthString_def js_div_num number_value_def round_pos_def)
next
  show "formatCcoinUnits 9000000000000001 \<noteq> formatCcoinUnits 9000000000000002"
    using parse_units_formatCcoinUnits [of 9000000000000001] parse_units_formatCcoinUnits [of 9000000000000002]
    by auto
qed

subsection \<open>Witnesses\<close>

theorem microEthToEthString_exact_witness:
  "\<bar>1000000 :: int\<bar> < 10 ^ 15 \<and> microEthToEthString 1000000 = Some (formatCcoinUnits 1000000)"
  using microEthToEthString_exact [of 1000000] by simp

theorem rendered_stake_reads_back_witness:
  "\<exists>s. Line (''Clear: '' @ s @ '' ETH'') \<in> set (stakingApp_page None example_session ((refetch_pending example_cfg example_session example_staked (refetch_ccoin example_cfg example_session example_staked (refetch_stake example_cfg example_session example_staked ui_init)))\<lparr>decryptedStakeMicroEth := Some 1000000\<rparr>))
    \<and> parseEther s = Inr (int (unat (a_stake (view example_staked 4))) * 10 ^ 12)"
proof (rule rendered_stake_reads_back)
  show "ui_consistent example_cfg example_session ((refetch_pending example_cfg example_session example_staked (refetch_ccoin example_cfg example_session example_staked (refetch_stake example_cfg example_session example_staked ui_init)))\<lparr>decryptedStakeMicroEth := Some 1000000\<rparr>) example_staked"
    by (simp add: ui_consistent_def refetch_stake_def refetch_pending_def refetch_ccoin_def ui_init_def
        read_query_def isConfigured_def getEncryptedStakedMicroEth_def shown_handle_def fhe_dec_def example_eval)
qed (simp_all add: config_synced_def example_addrs example_staked_view)

end
