(* ===== verification/Spec2Isabelle.thy ===== *)
theory Spec2Isabelle
  imports Lifecycle EthString
begin

text \<open>
  \<^bold>\<open>SecureAPR\<close>: confidential ETH staking that pays interest in a confidential token.
  Users stake ETH into \<open>SecureAPRStaking\<close>, which keeps each stake as an encrypted
  \<open>euint64\<close> of microETH, accrues 10 reward units per staked ETH per day and mints them
  into the encrypted balances of \<open>ConfidentialCoin\<close>. A withdrawal is two-phase: a request
  makes the stake publicly decryptable and zeroes it; finalizing it with the decryption
  oracle's proof pays the ETH back. The repository holds the clients of these contracts:
  the web UI (\<open>src/ui\<close>), the Hardhat tasks (\<open>src/tasks/SecureAPR.ts\<close>), the deploy
  script (\<open>src/deploy/secureapr.ts\<close>) and the test suite
  (\<open>src/test/SecureAPRStaking.ts\<close>). The Solidity sources are not in the repository, so
  the contracts are modelled from \<open>spec.md\<close>.

  \<^bold>\<open>Theories and what they model.\<close>
  \<^item> \<open>Prelude\<close>: addresses and handles as \<open>nat\<close>, plaintexts as \<open>64 word\<close>, the spec's
    error kinds, \<open>error + 'a\<close> results with \<open>rbind\<close>, and the shared word lemmas.
  \<^item> \<open>Fhe\<close>: the fhEVM backend. A record of issued handles with their immutable 64-bit
    plaintexts, the next handle, and the public-decryption ACL. Every homomorphic
    operation issues a fresh handle; handle 0 is the zero sentinel.
  \<^item> \<open>Verifier\<close>: decryption proofs as symbolic signatures, \<open>verify\<close>, and the oracle
    \<open>publicDecrypt\<close>, which reveals only public handles. \<open>oracle_issued\<close> states
    unforgeability.
  \<^item> \<open>Ledger\<close>: \<open>ConfidentialCoin\<close> with the one-shot \<open>setMinter\<close> and the minter-only
    homomorphic \<open>mint\<close> (spec 4.1, 4.4).
  \<^item> \<open>Staking\<close>: \<open>SecureAPRStaking\<close> (spec 4.2): \<open>stake\<close>, \<open>claimInterest\<close>,
    \<open>requestWithdrawAll\<close>, \<open>finalizeWithdrawAll\<close> and the read accessors. State is a
    \<open>world\<close> record: backend, both contracts, ETH balances, payability, oracle key,
    addresses and block time. The section also holds the plaintext spec of one account
    (\<open>acct\<close>, \<open>spec_stake\<close>, \<open>spec_accrue\<close>, \<open>spec_request\<close>), \<open>view\<close>, which decrypts a
    world, and refinement lemmas of the form
    \<open>map_sum id view (op a w) = map_sum id ((view w)(a := _)) (spec_op (view w a))\<close>.
    \<open>requestWithdrawAll\<close> checks for a pending request before it checks for a stake:
    section 4.2 lists both checks without an order, and only this order gives the
    \<open>WithdrawalAlreadyPending\<close> of sections 5 and 8 for a second request.
  \<^item> \<open>Chain\<close>: atomic transactions (spec 5, 7). \<open>send_tx\<close> checks that the sender holds
    \<open>msg.value\<close>, pays it in, runs the entry point and reverts everything on error.
    \<open>honest_tx\<close> restricts finalize calls to oracle-issued proofs.
  \<^item> \<open>Solvency\<close>: the invariant \<open>stk_inv\<close>, which is well-formed handles, the staking
    contract being the coin's minter, and solvency: the contract's ETH covers
    \<open>10^12\<close> wei per staked or pending microETH of every finite set of accounts. One
    preservation lemma per entry point, and \<open>apply_tx_inv\<close> for a whole transaction.
  \<^item> \<open>Units\<close>: \<open>formatCcoinUnits\<close> (\<open>StakingApp.tsx\<close> 13-19) with JS \<open>toString\<close>,
    \<open>padStart\<close> and \<open>replace(/0+$/,'')\<close>; ethers' \<open>parseUnits\<close>/\<open>parseEther\<close> as
    \<open>FixedNumber.fromString\<close>; the hex printing of handles, and \<open>ZERO_HASH\<close>:
    a printed handle equals it exactly when the handle is 0, which is how the
    handlers' \<open>handle === ZERO_HASH\<close> tests are modelled.
  \<^item> \<open>Client\<close>: \<open>StakingApp.tsx\<close> and \<open>contracts.ts\<close>. The React state is the record \<open>ui\<close>,
    the wallet and relayer a \<open>session\<close>. Each click handler is \<open>run_handler\<close> (the
    \<open>setError/setBusy/try/catch/finally\<close> frame) around its try-body. The buttons'
    \<open>disabled\<close> conditions are \<open>enabled\<close>. \<open>render\<close> lists the page's elements
    in order (\<open>Header.tsx\<close>, the cards, handles, buttons with their labels and the clear
    values), as a list of \<open>element\<close>s. \<open>wagmi_config\<close> is \<open>wagmi.ts\<close>; it connects only
    to the chain id \<open>contracts.ts\<close> names.
  \<^item> \<open>Tasks\<close>: the seven Hardhat tasks, with their console lines.
    The decrypt tasks print exactly the plaintext of the account's handle.
  \<^item> \<open>Deploy\<close>: the deploy script with the addresses it saves and prints, the test
    fixture, and the inductive \<open>reachable\<close>
    (deployment, then transactions of external accounts, then time).
  \<^item> \<open>Calls\<close>: the outcome of each entry point sent through ethers on an invariant
    world. These are the facts the clients' proofs share.
  \<^item> \<open>Tests\<close>: the three tests as runs that end with what their expectations compare
    and the chain they leave (\<open>tbind\<close>: a throw keeps the chain at the throw), the mocha
    hooks, and the suite \<open>test_suite\<close> running them in order on one chain. Hardhat's
    automine is \<open>hh_send\<close>: each transaction is mined in a new block a free gap of at
    least one second after the previous one (\<open>hh_block\<close>).
  \<^item> \<open>UI_Flows\<close>: UI handlers composed with the contracts: refinement, finalize
    liveness, and the stale stake after a request.
  \<^item> \<open>Accrual\<close>: exact minting under the 64-bit bound, and the second withdrawal
    request.
  \<^item> \<open>System\<close>: the whole system as one step relation \<open>sys_step\<close>: a click of any
    browser (\<open>ui_handle\<close>, any page state and configuration), a Hardhat task run by an
    external account (\<open>run_task\<close>, the dispatch of \<open>task:secureapr:*\<close>), or a mined
    block, interleaved in any order.
  \<^item> \<open>Display\<close>: \<open>ui_consistent\<close>, what the page should show against the chain (its
    handles are what its queries read, each clear value decrypts the handle beside it),
    and which handlers keep it.
  \<^item> \<open>Lifecycle\<close>: the two-state withdrawal machine of spec section 9 (\<open>phase\<close>,
    \<open>wtrans\<close>, \<open>tx_event\<close>), rejected finalize proofs, and claims within one block.
  \<^item> \<open>JsNumber\<close>: JavaScript numbers over \<open>rat\<close>. \<open>number_value\<close> is IEEE-754
    binary64 round-to-nearest-even (53-bit significands, subnormals, overflow at
    \<open>2^1024\<close>), \<open>js_div\<close> is Number::divide, and \<open>js_toString\<close> is
    Number::toString: the search for the fewest digits that round back, a
    \<open>partial_function (option)\<close> over the digit count, and the fixed or exponential
    formatting (\<open>format_decimal\<close>).
  \<^item> \<open>ToString\<close>: the search against ECMAScript 6.1.6.1.20 step 5 as stated there
    (\<open>es_digits\<close>: the fewest digits that convert back, then the closest, then the even
    one). The floor and ceiling candidates are complete (\<open>candidates_complete\<close>), so
    \<open>pos_toString\<close> prints exactly the representation step 5 chooses for every
    positive finite double (\<open>pos_toString_es_digits\<close>).
  \<^item> \<open>EthString\<close>: \<open>microEthToEthString\<close> (\<open>StakingApp.tsx\<close> 21-23) as
    \<open>Number(bigint) / 1e6\<close> then \<open>toString\<close>, and \<open>stakingApp_page\<close>, the page
    \<open>render\<close> draws with it.

  \<^bold>\<open>What is proved.\<close>
  \<^item> Every reachable world satisfies \<open>stk_inv\<close>, by rule induction over \<open>reachable\<close>.
    Every event of \<open>sys_step\<close> is at most one transaction of an external account with
    oracle-issued proofs, so every world the system reaches satisfies it too.
    Hence any pending withdrawal can be finalized, by the task or by the UI, and pays
    exactly the decrypted stake.
  \<^item> The UI's Stake, Claim and Request handlers refine the spec's account operations.
    Claims of two users in one block commute. Every handler clears \<open>busy\<close>, and while
    a handler runs the page disables every button.
    The UI's amount check makes the contract's \<open>InvalidAmount\<close> unreachable.
  \<^item> \<open>formatCcoinUnits\<close> round-trips through \<open>parseUnits(_, 6)\<close>, and prints a decimal
    point exactly when the amount is not a whole number of cCoin.
  \<^item> The suite's three tests pass when they run in order on one chain, for every
    starting chain and every schedule of block times while the claim test's day stays
    below \<open>10^12\<close> seconds. The deploy script succeeds into an
    invariant world; the addresses task reads back
    what it saved. Run a second time, the script throws \<open>AlreadySet\<close>.
  \<^item> Claims mint the spec's formula while \<open>stake * 10 * elapsed < 2^64\<close>.
    A second claim in the same block mints nothing. A second withdrawal request fails
    with \<open>WithdrawalAlreadyPending\<close> and changes nothing.
  \<^item> Every successful transaction moves each account along the spec's two-state
    withdrawal machine; a finalize with a value the oracle did not decrypt reverts with
    \<open>InvalidProof\<close> and pays nothing; the stake task, which has no client-side check,
    reports \<open>InvalidAmount\<close> for a zero or sub-microETH amount and changes nothing.
  \<^item> Findings are proved as theorems: the placeholder configuration breaks every write
    while no warning shows; \<open>onRequestWithdraw\<close> leaves the stake display stale;
    whole cCoin amounts print without their six decimals;
    \<open>onStake\<close> and \<open>onClaim\<close> keep the clear value of the old handle; the deploy script
    cannot be run twice.
  \<^item> The decrypt and finalize handlers keep the page consistent with the chain, and so do
    the transactions of every other account and the mining of blocks. On a consistent
    page the cCoin line reads back, through \<open>parseUnits(_, 6)\<close>, as the plaintext
    balance on the chain, and the stake line, through \<open>parseEther\<close>, as the stake in
    wei.
  \<^item> Below \<open>10^15\<close> microETH \<open>microEthToEthString\<close> prints exactly
    \<open>formatCcoinUnits\<close>: two decimals of at most 15 significant digits that round to
    the same double are equal, so the shortest representation is the exact one.
    Supporting lemmas: the conversion returns for every bigint (the digit search stops
    by 17 digits, since a 17-digit decimal is within \<open>5 * 10^-17\<close> of a double and
    anything within \<open>2^-54\<close> of it rounds back), and from about \<open>2^33 * 10^6\<close> microETH
    on the division by \<open>10^6\<close> rounds different stakes to the same string.

  \<^bold>\<open>Choices.\<close> Digit printing of integers is structural \<open>fun\<close> recursion on
  \<open>n div 10\<close> and \<open>n div 16\<close>. The one loop without a bound in its specification,
  the digit search of Number::toString, is a \<open>partial_function (option)\<close>, so not
  returning would be \<open>None\<close>; \<open>microEthToEthString_returns\<close> shows it returns.
  The search tries, for each digit count, the floor and ceiling of the scaled number
  at the three possible decimal exponents; the tie between two equally close shortest
  candidates goes to the even one, as ECMAScript recommends and engines do. A
  transaction runs at the world's block time \<open>w_now\<close>; the node's choice of block
  times is the separate step \<open>advance_time\<close>, interleaved freely in \<open>reachable\<close> and
  \<open>sys_step\<close>, so the properties over those relations hold for every schedule, blocks
  with several transactions included. The tests run on Hardhat's automine, where each
  transaction gets its own later block; \<open>Tests\<close> takes the gaps as parameters.
  Addresses of new contracts are parameters of the deploy and of each test's fixture;
  the chain holds one coin and one staking contract, the ones last deployed, and
  hardhat-deploy's reuse of saved deployments is \<open>hh_deploy\<close>. Solvency is stated over
  finite sets of accounts because balances are total functions on \<open>nat\<close>. Whether a
  page is consistent with the chain (\<open>ui_consistent\<close>) and the phase of an account
  (\<open>phase\<close>) are specifications, not code.

  \<^bold>\<open>Not modelled.\<close>
  \<^item> The Solidity sources, which are absent: the contracts follow \<open>spec.md\<close>.
  \<^item> Gas and fees.
  \<^item> Reentrancy: the recipient of a transfer is only payable or not.
  \<^item> The cryptography behind handles and proofs. Unforgeability is the hypothesis
    \<open>honest_tx\<close>.
  \<^item> ACL checks on user decryption: \<open>spec.md\<close> does not define who may decrypt which
    handle, and the contracts' sources are absent.
  \<^item> The sign of a JavaScript zero: \<open>-0\<close> is neither produced by \<open>Number(bigint)\<close>
    nor printed differently from \<open>0\<close>.
  \<^item> Styling of the page (CSS classes and inline styles). The wallet library behind
    \<open>wagmi.ts\<close>: its configuration is the record \<open>wagmi_config\<close>, the connection it
    gives is the \<open>session\<close>.
  \<^item> The transaction hashes printed while waiting, and the printing of addresses
    (a parameter \<open>addr_str\<close>).
  \<^item> The exact wording of errors raised inside ethers, the relayer and chai.
\<close>

end
